(* ===== verification/GoPrelude.thy ===== *)
theory GoPrelude imports Main "HOL-Library.Word" "HOL-Library.Char_ord" "HOL-Library.List_Lexorder" begin

text \<open>
  The prelude of the development: the fact collections the component theories fill, the
  types in which every effect of the operator is written, and the generic lemmas the
  components share.

  An effectful Go function is a function of the world it runs in: it returns its results
  together with the world it leaves. The world's type is a type variable throughout, so
  nothing is fixed about the cluster, the CAS server or the clock; what they do is an
  argument (a record of functions) of the definitions that use them.
\<close>

section \<open>Fact collections\<close>

named_theorems go_string_simps \<open>evaluation of Go's string functions on literals\<close>
named_theorems go_consts \<open>constants of the Go source\<close>
named_theorems go_defs \<open>definitions of operations, unfolded to follow a call\<close>

section \<open>Results and effects\<close>

type_synonym bytes = string
type_synonym int64 = "64 word"

text \<open>An effect over the world \<open>'w\<close> that yields an \<open>'a\<close>.\<close>

type_synonym ('w, 'a) io = "'w \<Rightarrow> 'a \<times> 'w"

section \<open>Lists and options\<close>

lemma dropWhile_dropWhile: "dropWhile P (dropWhile P xs) = dropWhile P xs"
  by (induction xs) auto

lemma dropWhile_no_hd: "xs \<noteq> [] \<Longrightarrow> \<not> P (hd xs) \<Longrightarrow> dropWhile P xs = xs"
  by (cases xs) auto

lemma dropWhile_hd_not: "dropWhile P xs = y # ys \<Longrightarrow> \<not> P y"
  by (induction xs) (auto split: if_splits)

end
