(* ===== verification/GoStrings.thy ===== *)
theory GoStrings imports GoPrelude begin

text \<open>
  The functions of Go's packages strings, path, fmt and strconv the operator calls, on Go's
  strings, which are byte sequences: a \<open>char\<close> here is one byte. TrimSpace follows
  unicode.IsSpace on the UTF-8 encodings of the white-space runes. The \<open>%q\<close> verb is
  strconv.Quote for text of printable runes: bytes from 0x80 on are copied, which is what
  Quote does with printable multi-byte runes.
\<close>

section \<open>Trimming\<close>

text \<open>One removal of a prefix: the first of the candidates that starts the string.\<close>

fun strip_pre :: "'a list \<Rightarrow> 'a list \<Rightarrow> 'a list option" where
  "strip_pre [] ys = Some ys"
| "strip_pre (x # xs) [] = None"
| "strip_pre (x # xs) (y # ys) = (if x = y then strip_pre xs ys else None)"

fun strip_any :: "'a list list \<Rightarrow> 'a list \<Rightarrow> 'a list option" where
  "strip_any [] ys = None"
| "strip_any (p # ps) ys =
     (if p = [] then strip_any ps ys
      else case strip_pre p ys of Some zs \<Rightarrow> Some zs | None \<Rightarrow> strip_any ps ys)"

lemma strip_pre_Some: "strip_pre xs ys = Some zs \<longleftrightarrow> ys = xs @ zs"
  by (induction xs ys rule: strip_pre.induct) auto

lemma strip_any_Some:
  "strip_any ps ys = Some zs \<Longrightarrow> \<exists>p\<in>set ps. p \<noteq> [] \<and> ys = p @ zs"
  by (induction ps) (auto simp: strip_pre_Some split: if_splits option.splits)

lemma strip_any_None:
  "strip_any ps ys = None \<longleftrightarrow> (\<forall>p\<in>set ps. p \<noteq> [] \<longrightarrow> strip_pre p ys = None)"
  by (induction ps) (auto split: option.splits)

lemma strip_any_shorter: "strip_any ps ys = Some zs \<Longrightarrow> length zs < length ys"
  using strip_any_Some by fastforce

text \<open>Removal as long as a candidate starts the string.\<close>

function trim_by :: "'a list list \<Rightarrow> 'a list \<Rightarrow> 'a list" where
  "trim_by ps ys = (case strip_any ps ys of None \<Rightarrow> ys | Some zs \<Rightarrow> trim_by ps zs)"
  by pat_completeness auto
termination
  by (relation "measure (\<lambda>(ps, ys). length ys)") (auto dest: strip_any_shorter)

declare trim_by.simps [simp del]

lemma trim_by_stop: "strip_any ps (trim_by ps ys) = None"
proof (induction ps ys rule: trim_by.induct)
  case (1 ps ys)
  then show ?case
    by (cases "strip_any ps ys") (simp_all add: trim_by.simps [of ps ys])
qed

lemma trim_by_id: "strip_any ps ys = None \<Longrightarrow> trim_by ps ys = ys"
  by (simp add: trim_by.simps)

lemma trim_by_idem: "trim_by ps (trim_by ps ys) = trim_by ps ys"
  by (simp add: trim_by_id trim_by_stop)

lemma trim_by_suffix: "\<exists>us. ys = us @ trim_by ps ys"
proof (induction ps ys rule: trim_by.induct)
  case (1 ps ys)
  show ?case
  proof (cases "strip_any ps ys")
    case None
    then show ?thesis by (simp add: trim_by.simps [of ps ys])
  next
    case (Some zs)
    then obtain p where "ys = p @ zs" using strip_any_Some by blast
    moreover obtain us where "zs = us @ trim_by ps zs" using 1 [OF Some] by blast
    ultimately show ?thesis
      using Some by (metis append.assoc option.simps(5) trim_by.simps)
  qed
qed

lemma set_trim_by: "set (trim_by ps ys) \<subseteq> set ys"
  using trim_by_suffix [of ys ps] by (metis set_append Un_upper2)

text \<open>The UTF-8 encodings of the runes of unicode.IsSpace.\<close>

definition space_runes :: "string list" where
  "space_runes =
    [[CHR 0x09], [CHR 0x0A], [CHR 0x0B], [CHR 0x0C], [CHR 0x0D], [CHR 0x20],
     [CHR 0xC2, CHR 0x85], [CHR 0xC2, CHR 0xA0], [CHR 0xE1, CHR 0x9A, CHR 0x80],
     [CHR 0xE2, CHR 0x80, CHR 0x80], [CHR 0xE2, CHR 0x80, CHR 0x81],
     [CHR 0xE2, CHR 0x80, CHR 0x82], [CHR 0xE2, CHR 0x80, CHR 0x83],
     [CHR 0xE2, CHR 0x80, CHR 0x84], [CHR 0xE2, CHR 0x80, CHR 0x85],
     [CHR 0xE2, CHR 0x80, CHR 0x86], [CHR 0xE2, CHR 0x80, CHR 0x87],
     [CHR 0xE2, CHR 0x80, CHR 0x88], [CHR 0xE2, CHR 0x80, CHR 0x89],
     [CHR 0xE2, CHR 0x80, CHR 0x8A], [CHR 0xE2, CHR 0x80, CHR 0xA8],
     [CHR 0xE2, CHR 0x80, CHR 0xA9], [CHR 0xE2, CHR 0x80, CHR 0xAF],
     [CHR 0xE2, CHR 0x81, CHR 0x9F], [CHR 0xE3, CHR 0x80, CHR 0x80]]"

text \<open>strings.TrimSpace: the left end, then the right end.\<close>

definition TrimSpaceLeft :: "string \<Rightarrow> string" where
  "TrimSpaceLeft s = trim_by space_runes s"

definition TrimSpaceRight :: "string \<Rightarrow> string" where
  "TrimSpaceRight s = rev (trim_by (map rev space_runes) (rev s))"

definition TrimSpace :: "string \<Rightarrow> string" where
  "TrimSpace s = TrimSpaceRight (TrimSpaceLeft s)"

lemma TrimSpaceRight_prefix: "\<exists>us. s = TrimSpaceRight s @ us"
proof -
  obtain us where "rev s = us @ trim_by (map rev space_runes) (rev s)"
    using trim_by_suffix by blast
  then have "s = rev (trim_by (map rev space_runes) (rev s)) @ rev us"
    by (metis rev_append rev_rev_ident)
  then show ?thesis by (auto simp: TrimSpaceRight_def)
qed

lemma strip_any_prefix_None:
  assumes "strip_any ps (xs @ ys) = None"
  shows "strip_any ps xs = None"
proof (rule ccontr)
  assume "strip_any ps xs \<noteq> None"
  then obtain zs where "strip_any ps xs = Some zs" by auto
  then obtain p where p: "p \<in> set ps" "p \<noteq> []" "xs = p @ zs" using strip_any_Some by blast
  then have "strip_pre p (xs @ ys) = Some (zs @ ys)" by (simp add: strip_pre_Some)
  with assms p(1,2) show False by (auto simp: strip_any_None)
qed

lemma TrimSpace_idem [simp]: "TrimSpace (TrimSpace s) = TrimSpace s"
proof -
  obtain us where us: "TrimSpaceLeft s = TrimSpace s @ us"
    using TrimSpaceRight_prefix [of "TrimSpaceLeft s"] by (auto simp: TrimSpace_def)
  have "strip_any space_runes (TrimSpaceLeft s) = None"
    by (simp add: TrimSpaceLeft_def trim_by_stop)
  then have "strip_any space_runes (TrimSpace s) = None"
    using strip_any_prefix_None us by metis
  then have "TrimSpaceLeft (TrimSpace s) = TrimSpace s"
    by (simp add: TrimSpaceLeft_def trim_by_id)
  then show ?thesis
    by (simp add: TrimSpace_def [of "TrimSpace s"])
       (simp add: TrimSpace_def TrimSpaceRight_def trim_by_idem)
qed

lemma set_TrimSpace: "set (TrimSpace s) \<subseteq> set s"
proof -
  have "set (TrimSpaceRight (TrimSpaceLeft s)) \<subseteq> set (TrimSpaceLeft s)"
    using set_trim_by [of "map rev space_runes" "rev (TrimSpaceLeft s)"]
    by (simp add: TrimSpaceRight_def)
  also have "\<dots> \<subseteq> set s"
    by (simp add: TrimSpaceLeft_def set_trim_by)
  finally show ?thesis by (simp add: TrimSpace_def)
qed

text \<open>A string without any byte of a white-space encoding is left as it is.\<close>

lemma strip_any_no_byte:
  assumes "\<forall>c\<in>set s. \<forall>p\<in>set ps. c \<notin> set p"
  shows "strip_any ps s = None"
proof (rule ccontr)
  assume "strip_any ps s \<noteq> None"
  then obtain zs where "strip_any ps s = Some zs" by auto
  then obtain p where p: "p \<in> set ps" "p \<noteq> []" "s = p @ zs" using strip_any_Some by blast
  then have "hd p \<in> set s" "hd p \<in> set p" by auto
  with assms p(1) show False by blast
qed

lemma TrimSpace_no_byte:
  assumes "\<forall>c\<in>set s. \<forall>p\<in>set space_runes. c \<notin> set p"
  shows "TrimSpace s = s"
  using assms strip_any_no_byte [of s space_runes] strip_any_no_byte [of "rev s" "map rev space_runes"]
  by (simp add: TrimSpace_def TrimSpaceLeft_def TrimSpaceRight_def trim_by_id)

lemma TrimSpace_Nil [simp]: "TrimSpace [] = []"
  by (rule TrimSpace_no_byte) simp

text \<open>Text of visible ASCII characters is left as it is.\<close>

definition visible :: "char \<Rightarrow> bool" where
  "visible c \<longleftrightarrow> 32 < (of_char c :: nat) \<and> (of_char c :: nat) < 127"

lemma space_runes_invisible: "\<forall>p\<in>set space_runes. \<forall>c\<in>set p. \<not> visible c"
  by (simp add: space_runes_def visible_def)

lemma TrimSpace_visible: "\<forall>c\<in>set s. visible c \<Longrightarrow> TrimSpace s = s"
  using space_runes_invisible by (intro TrimSpace_no_byte) blast

text \<open>strings.TrimLeft and strings.TrimRight with a cutset of one ASCII character.\<close>

definition TrimLeft :: "char \<Rightarrow> string \<Rightarrow> string" where
  "TrimLeft c s = dropWhile (\<lambda>x. x = c) s"

definition TrimRight :: "char \<Rightarrow> string \<Rightarrow> string" where
  "TrimRight c s = rev (dropWhile (\<lambda>x. x = c) (rev s))"

lemma TrimRight_last: "TrimRight c s \<noteq> [] \<Longrightarrow> last (TrimRight c s) \<noteq> c"
  using hd_dropWhile [of "\<lambda>x. x = c" "rev s"] by (simp add: TrimRight_def last_rev)

lemma TrimLeft_hd: "TrimLeft c s \<noteq> [] \<Longrightarrow> hd (TrimLeft c s) \<noteq> c"
  using hd_dropWhile [of "\<lambda>x. x = c" s] by (simp add: TrimLeft_def)

lemma TrimRight_idem [simp]: "TrimRight c (TrimRight c s) = TrimRight c s"
  by (simp add: TrimRight_def dropWhile_dropWhile)

section \<open>Splitting, joining, replacing\<close>

text \<open>strings.Split with a separator of one byte.\<close>

fun Split :: "char \<Rightarrow> string \<Rightarrow> string list" where
  "Split c [] = [[]]"
| "Split c (x # xs) =
     (if x = c then [] # Split c xs
      else case Split c xs of [] \<Rightarrow> [[x]] | y # ys \<Rightarrow> (x # y) # ys)"

text \<open>strings.Join.\<close>

fun Join :: "string list \<Rightarrow> string \<Rightarrow> string" where
  "Join [] sep = []"
| "Join [x] sep = x"
| "Join (x # y # zs) sep = x @ sep @ Join (y # zs) sep"

text \<open>strings.ReplaceAll for an old string of one byte.\<close>

definition ReplaceAll :: "char \<Rightarrow> string \<Rightarrow> string \<Rightarrow> string" where
  "ReplaceAll c new s = concat (map (\<lambda>x. if x = c then new else [x]) s)"

lemma Split_ne [simp]: "Split c s \<noteq> []"
  by (induction s) (auto split: list.splits)

lemma Join_Split: "Join (Split c s) [c] = s"
proof (induction s)
  case Nil
  then show ?case by simp
next
  case (Cons x xs)
  then show ?case
    by (cases "Split c xs"; cases "tl (Split c xs)") (auto split: list.splits)
qed

lemma Split_no_sep: "p \<in> set (Split c s) \<Longrightarrow> c \<notin> set p"
  by (induction s arbitrary: p) (auto split: list.splits if_splits)

lemma Split_single: "c \<notin> set s \<Longrightarrow> Split c s = [s]"
  by (induction s) auto

lemma Split_append: "c \<notin> set s \<Longrightarrow> Split c (s @ c # t) = s # Split c t"
  by (induction s) auto

lemma set_Join: "set (Join xs sep) \<subseteq> (\<Union>x\<in>set xs. set x) \<union> set sep"
  by (induction xs sep rule: Join.induct) auto

lemma Split_Join:
  assumes "xs \<noteq> []" "\<forall>x\<in>set xs. c \<notin> set x"
  shows "Split c (Join xs [c]) = xs"
  using assms by (induction xs "[c]" rule: Join.induct) (auto simp: Split_single Split_append)

section \<open>Numbers as text\<close>

text \<open>The decimal digits of a number, for \<open>%d\<close> and strconv.AppendInt.\<close>

definition digit_char :: "nat \<Rightarrow> char" where
  "digit_char d = char_of (48 + d)"

fun show_nat :: "nat \<Rightarrow> string" where
  "show_nat n = (if n < 10 then [digit_char n] else show_nat (n div 10) @ [digit_char (n mod 10)])"

declare show_nat.simps [simp del]

definition show_int :: "int \<Rightarrow> string" where
  "show_int i = (if i < 0 then CHR ''-'' # show_nat (nat (- i)) else show_nat (nat i))"

definition show_int64 :: "int64 \<Rightarrow> string" where
  "show_int64 w = show_int (sint w)"

text \<open>strconv.ParseInt in base 10 over 64 bits, on text without underscores.\<close>

definition is_digit :: "char \<Rightarrow> bool" where
  "is_digit c \<longleftrightarrow> 48 \<le> (of_char c :: nat) \<and> (of_char c :: nat) \<le> 57"

definition digits_val :: "string \<Rightarrow> nat" where
  "digits_val s = foldl (\<lambda>n c. 10 * n + (of_char c - 48)) 0 s"

definition parse_nat :: "string \<Rightarrow> nat option" where
  "parse_nat s = (if s \<noteq> [] \<and> list_all is_digit s then Some (digits_val s) else None)"

definition ParseInt64 :: "string \<Rightarrow> int64 option" where
  "ParseInt64 s =
     (case s of
        [] \<Rightarrow> None
      | c # cs \<Rightarrow>
          (case (if c = CHR ''-'' then map_option (\<lambda>n. - int n) (parse_nat cs)
                 else if c = CHR ''+'' then map_option int (parse_nat cs)
                 else map_option int (parse_nat s)) of
             None \<Rightarrow> None
           | Some i \<Rightarrow> if - (2 ^ 63) \<le> i \<and> i < 2 ^ 63 then Some (word_of_int i) else None))"

lemma digit_char_digit: "d < 10 \<Longrightarrow> is_digit (digit_char d)"
  by (simp add: is_digit_def digit_char_def)

lemma digit_char_val: "d < 10 \<Longrightarrow> of_char (digit_char d) - (48::nat) = d"
  by (simp add: digit_char_def)

lemma show_nat_ne [simp]: "show_nat n \<noteq> []"
  by (subst show_nat.simps) simp

lemma show_nat_digits: "list_all is_digit (show_nat n)"
proof (induction n rule: show_nat.induct)
  case (1 n)
  then show ?case
    by (subst show_nat.simps) (auto simp: digit_char_digit)
qed

lemma digits_val_show: "digits_val (show_nat n) = n"
proof (induction n rule: show_nat.induct)
  case (1 n)
  show ?case
  proof (cases "n < 10")
    case True
    then show ?thesis by (simp add: show_nat.simps [of n] digits_val_def digit_char_val)
  next
    case False
    then show ?thesis
      using 1 by (simp add: show_nat.simps [of n] digits_val_def digit_char_val)
  qed
qed

lemma parse_nat_show [simp]: "parse_nat (show_nat n) = Some n"
  by (simp add: parse_nat_def show_nat_digits digits_val_show)

lemma show_nat_hd: "show_nat n = c # cs \<Longrightarrow> is_digit c"
  using show_nat_digits [of n] by simp

lemma ParseInt64_show [simp]: "ParseInt64 (show_int64 w) = Some w"
proof (cases "sint w < 0")
  case True
  have "- (2 ^ 63) \<le> sint w" "sint w < 2 ^ 63"
    using sint_ge [of w] sint_lt [of w] by simp_all
  with True show ?thesis
    by (simp add: ParseInt64_def show_int64_def show_int_def)
next
  case False
  obtain c cs where cs: "show_nat (nat (sint w)) = c # cs"
    by (meson list.exhaust show_nat_ne)
  then have "is_digit c" by (rule show_nat_hd)
  then have c: "c \<noteq> CHR ''-''" "c \<noteq> CHR ''+''" by (auto simp: is_digit_def)
  have "parse_nat (c # cs) = Some (nat (sint w))"
    using parse_nat_show [of "nat (sint w)"] cs by simp
  moreover have "- (2 ^ 63) \<le> sint w" "sint w < 2 ^ 63"
    using sint_ge [of w] sint_lt [of w] by simp_all
  ultimately show ?thesis
    using False c by (simp add: ParseInt64_def show_int64_def show_int_def cs)
qed

text \<open>The \<open>%x\<close> verb on bytes: two lower-case hexadecimal digits each.\<close>

definition hex_digit :: "nat \<Rightarrow> char" where
  "hex_digit d = (if d < 10 then char_of (48 + d) else char_of (87 + d))"

definition hex_byte :: "nat \<Rightarrow> string" where
  "hex_byte b = [hex_digit (b div 16), hex_digit (b mod 16)]"

definition hex_string :: "bytes \<Rightarrow> string" where
  "hex_string bs = concat (map (\<lambda>c. hex_byte (of_char c)) bs)"

lemma length_hex_string: "length (hex_string bs) = 2 * length bs"
  by (induction bs) (auto simp: hex_string_def hex_byte_def)

text \<open>The \<open>%q\<close> verb.\<close>

definition quote_char :: "char \<Rightarrow> string" where
  "quote_char c =
     (if c = CHR 0x22 then [CHR 0x5C, CHR 0x22]
      else if c = CHR 0x5C then [CHR 0x5C, CHR 0x5C]
      else if c = CHR 0x07 then [CHR 0x5C, CHR ''a'']
      else if c = CHR 0x08 then [CHR 0x5C, CHR ''b'']
      else if c = CHR 0x0C then [CHR 0x5C, CHR ''f'']
      else if c = CHR 0x0A then [CHR 0x5C, CHR ''n'']
      else if c = CHR 0x0D then [CHR 0x5C, CHR ''r'']
      else if c = CHR 0x09 then [CHR 0x5C, CHR ''t'']
      else if c = CHR 0x0B then [CHR 0x5C, CHR ''v'']
      else if (of_char c :: nat) < 32 \<or> c = CHR 0x7F then CHR 0x5C # CHR ''x'' # hex_byte (of_char c)
      else [c])"

definition quote :: "string \<Rightarrow> string" where
  "quote s = [CHR 0x22] @ concat (map quote_char s) @ [CHR 0x22]"

text \<open>strings.ToLower on ASCII text.\<close>

definition lower_char :: "char \<Rightarrow> char" where
  "lower_char c = (if 65 \<le> (of_char c :: nat) \<and> (of_char c :: nat) \<le> 90 then char_of (of_char c + 32 :: nat) else c)"

definition ToLower :: "string \<Rightarrow> string" where
  "ToLower s = map lower_char s"

section \<open>Slash-separated paths\<close>

text \<open>
  path.Clean on the elements between the slashes. The stack holds the elements kept so far,
  the last one first. An empty element and \<open>.\<close> are dropped; \<open>..\<close> drops the element
  before it, is dropped at the root, and is kept where there is nothing before it to drop.
\<close>

fun clean_elems :: "bool \<Rightarrow> string list \<Rightarrow> string list \<Rightarrow> string list" where
  "clean_elems rooted st [] = rev st"
| "clean_elems rooted st (e # es) =
     (if e = [] \<or> e = ''.'' then clean_elems rooted st es
      else if e = ''..'' then
        (case st of
           [] \<Rightarrow> clean_elems rooted (if rooted then [] else [''..'']) es
         | t # ts \<Rightarrow> if t = ''..'' then clean_elems rooted (''..'' # st) es
                   else clean_elems rooted ts es)
      else clean_elems rooted (e # st) es)"

definition Clean :: "string \<Rightarrow> string" where
  "Clean p =
     (if p = [] then ''.''
      else let rooted = (hd p = CHR ''/''); es = clean_elems rooted [] (Split CHR ''/'' p)
           in if rooted then CHR ''/'' # Join es ''/''
              else if es = [] then ''.'' else Join es ''/'')"

text \<open>path.Join: the non-empty arguments joined by slashes and cleaned.\<close>

definition path_Join :: "string list \<Rightarrow> string" where
  "path_Join es =
     (let ne = filter (\<lambda>e. e \<noteq> []) es in if ne = [] then [] else Clean (Join ne ''/''))"

text \<open>A clean element list: no element empty, \<open>.\<close> nor with a slash, and \<open>..\<close> only in front.\<close>

lemma clean_elems_plain:
  assumes "\<forall>e\<in>set es. e \<noteq> ''..''" "\<forall>e\<in>set st. e \<noteq> ''..''"
  shows "clean_elems r st es = rev st @ filter (\<lambda>e. e \<noteq> [] \<and> e \<noteq> ''.'') es"
  using assms by (induction es arbitrary: st) auto

lemma clean_elems_ok:
  "e \<in> set (clean_elems r st es) \<Longrightarrow>
     (e \<in> set st \<or> e = ''..'' \<or> e \<in> set es \<and> e \<noteq> [] \<and> e \<noteq> ''.'')"
  by (induction r st es rule: clean_elems.induct) (auto split: if_splits list.splits)

lemma clean_elems_rooted_no_dotdot:
  "\<forall>e\<in>set st. e \<noteq> ''..'' \<Longrightarrow> ''..'' \<notin> set (clean_elems True st es)"
proof (induction es arbitrary: st)
  case Nil
  then show ?case by auto
next
  case (Cons e es)
  then show ?case by (cases st) auto
qed

end
