(* ===== verification/GoErrors.thy ===== *)
theory GoErrors imports GoStrings begin

text \<open>
  Go's error values, as the operator builds and inspects them. An error of
  \<open>fmt.Errorf\<close> is its text, or with the verb \<open>%w\<close> the text before the wrapped error and that
  error. \<open>ApiErr\<close> is the client's own \<open>*apiError\<close> (internal/registration/cas/client.go).
  \<open>ExtErr\<close> is an error of code outside the repository: the operator reads its text, and the
  tag is what a predicate of that code (apierrors.IsNotFound) may tell apart.
\<close>

section \<open>Error values\<close>

record apiError =
  ae_Method :: string
  ae_URL :: string
  ae_StatusCode :: int
  ae_Body :: string

datatype go_error =
    Errorf string
  | Wrapf string go_error
  | ApiErr apiError
  | ExtErr string string

type_synonym 'a result = "go_error + 'a"

text \<open>The method Error of \<open>*apiError\<close>.\<close>

definition apiError_Error :: "apiError \<Rightarrow> string" where
  "apiError_Error e =
     (if ae_Body e = [] then
        ae_Method e @ '' '' @ ae_URL e @ '' returned unexpected status '' @ show_int (ae_StatusCode e)
      else
        ae_Method e @ '' '' @ ae_URL e @ '' returned unexpected status '' @ show_int (ae_StatusCode e)
          @ '': '' @ ae_Body e)"

fun error_text :: "go_error \<Rightarrow> string" where
  "error_text (Errorf t) = t"
| "error_text (Wrapf t e) = t @ error_text e"
| "error_text (ApiErr e) = apiError_Error e"
| "error_text (ExtErr tag t) = t"

section \<open>Failing steps\<close>

text \<open>
  The shape \<open>if err != nil { return ..., fmt.Errorf("...: %w", err) }\<close> on a step that
  already ran: the failure is wrapped, a value is kept.
\<close>

fun wrap_err :: "string \<Rightarrow> 'a result \<Rightarrow> 'a result" where
  "wrap_err t (Inl e) = Inl (Wrapf t e)"
| "wrap_err t (Inr x) = Inr x"

lemma wrap_err_Inr [simp]: "wrap_err t r = Inr x \<longleftrightarrow> r = Inr x"
  by (cases r) auto

lemma wrap_err_Inl [simp]: "wrap_err t r = Inl e \<longleftrightarrow> (\<exists>e'. r = Inl e' \<and> e = Wrapf t e')"
  by (cases r) auto

text \<open>
  A step that can fail followed by the rest of the function: the rest runs on the value the
  step returned and in the world it left; an error ends the function in that world.
\<close>

definition then_do :: "('w, 'a result) io \<Rightarrow> ('a \<Rightarrow> ('w, 'b result) io) \<Rightarrow> ('w, 'b result) io" where
  "then_do m f w = (case m w of (Inl e, w1) \<Rightarrow> (Inl e, w1) | (Inr x, w1) \<Rightarrow> f x w1)"

lemma then_do_Inl [simp]: "m w = (Inl e, w1) \<Longrightarrow> then_do m f w = (Inl e, w1)"
  by (simp add: then_do_def)

lemma then_do_Inr [simp]: "m w = (Inr x, w1) \<Longrightarrow> then_do m f w = f x w1"
  by (simp add: then_do_def)

lemma then_do_success:
  "then_do m f w = (Inr y, w2) \<longleftrightarrow> (\<exists>x w1. m w = (Inr x, w1) \<and> f x w1 = (Inr y, w2))"
  by (auto simp: then_do_def split: prod.splits sum.splits)

lemma then_do_failure:
  "then_do m f w = (Inl e, w2) \<longleftrightarrow>
     m w = (Inl e, w2) \<or> (\<exists>x w1. m w = (Inr x, w1) \<and> f x w1 = (Inl e, w2))"
  by (auto simp: then_do_def split: prod.splits sum.splits)

text \<open>The same with a wrapping of the step's error, and for steps that return only an error.\<close>

definition wrapping :: "string \<Rightarrow> ('w, 'a result) io \<Rightarrow> ('w, 'a result) io" where
  "wrapping t m w = (case m w of (r, w1) \<Rightarrow> (wrap_err t r, w1))"

lemma wrapping_success [simp]: "wrapping t m w = (Inr x, w1) \<longleftrightarrow> m w = (Inr x, w1)"
  by (auto simp: wrapping_def split: prod.splits)

lemma wrapping_failure [simp]:
  "wrapping t m w = (Inl e, w1) \<longleftrightarrow> (\<exists>e'. m w = (Inl e', w1) \<and> e = Wrapf t e')"
  by (auto simp: wrapping_def split: prod.splits)

end
