(* ===== verification/GoJson.thy ===== *)
theory GoJson imports GoErrors "HOL-Library.Finite_Map" begin

text \<open>
  The package encoding/json as the operator uses it. A document is a tree; json.Marshal
  prints a tree as compact text with Go's escapes, json.Unmarshal first parses the whole text
  (a syntax error leaves the target alone) and then stores the tree into the target. A
  json.RawMessage is a subtree: it is only ever given back to json.Unmarshal. A number is
  kept as its text until a target gives it a type. The text is UTF-8; bytes that are not
  are replaced by U+FFFD, in both directions, as Go does.
\<close>

section \<open>Trees\<close>

datatype json =
    JNull
  | JBool bool
  | JNum string
  | JStr string
  | JArr "json list"
  | JObj "(string \<times> json) list"

section \<open>UTF-8\<close>

definition between :: "nat \<Rightarrow> nat \<Rightarrow> char \<Rightarrow> bool" where
  "between lo hi c \<longleftrightarrow> lo \<le> of_char c \<and> of_char c \<le> hi"

text \<open>The length of the valid encoding of a multi-byte rune at the front, 0 for none.\<close>

fun rune_len :: "string \<Rightarrow> nat" where
  "rune_len (a # b # cs) =
     (if between 0xC2 0xDF a \<and> between 0x80 0xBF b then 2
      else case cs of
        [] \<Rightarrow> 0
      | c # ds \<Rightarrow>
          if between 0x80 0xBF c \<and>
             (of_char a = (0xE0::nat) \<and> between 0xA0 0xBF b
              \<or> between 0xE1 0xEC a \<and> between 0x80 0xBF b
              \<or> of_char a = (0xED::nat) \<and> between 0x80 0x9F b
              \<or> between 0xEE 0xEF a \<and> between 0x80 0xBF b) then 3
          else case ds of
            [] \<Rightarrow> 0
          | d # es \<Rightarrow>
              if between 0x80 0xBF c \<and> between 0x80 0xBF d \<and>
                 (of_char a = (0xF0::nat) \<and> between 0x90 0xBF b
                  \<or> between 0xF1 0xF3 a \<and> between 0x80 0xBF b
                  \<or> of_char a = (0xF4::nat) \<and> between 0x80 0x8F b) then 4
              else 0)"
| "rune_len _ = 0"

lemma rune_len_le: "rune_len s \<le> length s"
  by (cases s rule: rune_len.cases) (auto split: list.splits)

definition is_ascii :: "char \<Rightarrow> bool" where
  "is_ascii c \<longleftrightarrow> (of_char c :: nat) < 128"

definition replacement :: string where
  "replacement = [CHR 0xEF, CHR 0xBF, CHR 0xBD]"

function valid_utf8 :: "string \<Rightarrow> bool" where
  "valid_utf8 [] = True"
| "valid_utf8 (c # cs) =
     (if is_ascii c then valid_utf8 cs
      else if rune_len (c # cs) = 0 then False
      else valid_utf8 (drop (rune_len (c # cs)) (c # cs)))"
  by pat_completeness auto
termination
  by (relation "measure length") auto

text \<open>The UTF-8 encoding of a code point below 2 ^ 21; surrogates become U+FFFD.\<close>

definition encode_rune :: "nat \<Rightarrow> string" where
  "encode_rune r =
     (if r < 0x80 then [char_of r]
      else if r < 0x800 then [char_of (0xC0 + r div 64), char_of (0x80 + r mod 64)]
      else if 0xD800 \<le> r \<and> r \<le> 0xDFFF then replacement
      else if r < 0x10000 then
        [char_of (0xE0 + r div 4096), char_of (0x80 + r div 64 mod 64), char_of (0x80 + r mod 64)]
      else
        [char_of (0xF0 + r div 262144), char_of (0x80 + r div 4096 mod 64),
         char_of (0x80 + r div 64 mod 64), char_of (0x80 + r mod 64)])"

section \<open>Printing\<close>

definition hex4 :: "nat \<Rightarrow> string" where
  "hex4 n = hex_byte (n div 256) @ hex_byte (n mod 256)"

text \<open>One ASCII character inside a string, with the HTML characters escaped.\<close>

definition json_esc :: "char \<Rightarrow> string" where
  "json_esc c =
     (if c = CHR 0x22 then [CHR 0x5C, CHR 0x22]
      else if c = CHR 0x5C then [CHR 0x5C, CHR 0x5C]
      else if c = CHR 0x08 then [CHR 0x5C, CHR ''b'']
      else if c = CHR 0x0C then [CHR 0x5C, CHR ''f'']
      else if c = CHR 0x0A then [CHR 0x5C, CHR ''n'']
      else if c = CHR 0x0D then [CHR 0x5C, CHR ''r'']
      else if c = CHR 0x09 then [CHR 0x5C, CHR ''t'']
      else if (of_char c :: nat) < 32 \<or> c \<in> {CHR ''<'', CHR ''>'', CHR ''&''}
        then CHR 0x5C # CHR ''u'' # hex4 (of_char c)
      else [c])"

function json_chars :: "string \<Rightarrow> string" where
  "json_chars [] = []"
| "json_chars (c # cs) =
     (if is_ascii c then json_esc c @ json_chars cs
      else if rune_len (c # cs) = 0 then CHR 0x5C # ''ufffd'' @ json_chars cs
      else if take 3 (c # cs) = [CHR 0xE2, CHR 0x80, CHR 0xA8]
        then CHR 0x5C # ''u2028'' @ json_chars (drop 3 (c # cs))
      else if take 3 (c # cs) = [CHR 0xE2, CHR 0x80, CHR 0xA9]
        then CHR 0x5C # ''u2029'' @ json_chars (drop 3 (c # cs))
      else take (rune_len (c # cs)) (c # cs) @ json_chars (drop (rune_len (c # cs)) (c # cs)))"
  by pat_completeness auto
termination
  by (relation "measure length") auto

definition print_string :: "string \<Rightarrow> string" where
  "print_string s = [CHR 0x22] @ json_chars s @ [CHR 0x22]"

fun print_json :: "json \<Rightarrow> string" where
  "print_json JNull = ''null''"
| "print_json (JBool b) = (if b then ''true'' else ''false'')"
| "print_json (JNum t) = t"
| "print_json (JStr s) = print_string s"
| "print_json (JArr js) = ''['' @ Join (map print_json js) '','' @ '']''"
| "print_json (JObj ms) =
     ''{'' @ Join (map (\<lambda>(k, j). print_string k @ '':'' @ print_json j) ms) '','' @ ''}''"

section \<open>Parsing\<close>

definition json_space :: "char \<Rightarrow> bool" where
  "json_space c \<longleftrightarrow> c \<in> {CHR 0x20, CHR 0x09, CHR 0x0A, CHR 0x0D}"

definition skip_ws :: "string \<Rightarrow> string" where
  "skip_ws s = dropWhile json_space s"

definition hex_val :: "char \<Rightarrow> nat option" where
  "hex_val c =
     (if between 48 57 c then Some (of_char c - 48)
      else if between 97 102 c then Some (of_char c - 87)
      else if between 65 70 c then Some (of_char c - 55)
      else None)"

text \<open>Four hexadecimal digits at the front: their value.\<close>

fun hex4_val :: "string \<Rightarrow> nat option" where
  "hex4_val (a # b # c # d # _) =
     (case (hex_val a, hex_val b, hex_val c, hex_val d) of
        (Some x, Some y, Some z, Some u) \<Rightarrow> Some (((x * 16 + y) * 16 + z) * 16 + u)
      | _ \<Rightarrow> None)"
| "hex4_val _ = None"

text \<open>The low half of a surrogate pair, as an escape at the front.\<close>

definition low_surrogate :: "string \<Rightarrow> nat option" where
  "low_surrogate s =
     (if take 2 s = [CHR 0x5C, CHR ''u''] then
        (case hex4_val (drop 2 s) of
           Some r \<Rightarrow> if 0xDC00 \<le> r \<and> r \<le> 0xDFFF then Some r else None
         | None \<Rightarrow> None)
      else None)"

definition simple_escape :: "char \<Rightarrow> char option" where
  "simple_escape c =
     (if c \<in> {CHR 0x22, CHR 0x5C, CHR ''/''} then Some c
      else if c = CHR ''b'' then Some (CHR 0x08)
      else if c = CHR ''f'' then Some (CHR 0x0C)
      else if c = CHR ''n'' then Some (CHR 0x0A)
      else if c = CHR ''r'' then Some (CHR 0x0D)
      else if c = CHR ''t'' then Some (CHR 0x09)
      else None)"

definition prepend :: "string \<Rightarrow> (string \<times> string) option \<Rightarrow> (string \<times> string) option" where
  "prepend p r = map_option (\<lambda>(s, t). (p @ s, t)) r"

text \<open>The rest of a string literal after its opening quote: its value and what follows it.\<close>

function parse_chars :: "string \<Rightarrow> (string \<times> string) option" where
  "parse_chars [] = None"
| "parse_chars (c # cs) =
     (if c = CHR 0x22 then Some ([], cs)
      else if c = CHR 0x5C then
        (case cs of
           [] \<Rightarrow> None
         | e # es \<Rightarrow>
             if e = CHR ''u'' then
               (case hex4_val es of
                  None \<Rightarrow> None
                | Some r \<Rightarrow>
                    if 0xD800 \<le> r \<and> r < 0xDC00 \<and> low_surrogate (drop 4 es) \<noteq> None then
                      prepend (encode_rune (0x10000 + (r - 0xD800) * 1024
                                 + (the (low_surrogate (drop 4 es)) - 0xDC00)))
                        (parse_chars (drop 10 es))
                    else prepend (encode_rune r) (parse_chars (drop 4 es)))
             else (case simple_escape e of
                     None \<Rightarrow> None
                   | Some x \<Rightarrow> prepend [x] (parse_chars es)))
      else if (of_char c :: nat) < 32 then None
      else if is_ascii c then prepend [c] (parse_chars cs)
      else if rune_len (c # cs) = 0 then prepend replacement (parse_chars cs)
      else prepend (take (rune_len (c # cs)) (c # cs)) (parse_chars (drop (rune_len (c # cs)) (c # cs))))"
  by pat_completeness auto
termination
  by (relation "measure length") auto

text \<open>The grammar of numbers: sign, integer part, fraction, exponent.\<close>

definition num_char :: "char \<Rightarrow> bool" where
  "num_char c \<longleftrightarrow> is_digit c \<or> c \<in> {CHR ''-'', CHR ''+'', CHR ''.'', CHR ''e'', CHR ''E''}"

definition digits1 :: "string \<Rightarrow> bool" where
  "digits1 s \<longleftrightarrow> s \<noteq> [] \<and> list_all is_digit s"

definition valid_exp :: "string \<Rightarrow> bool" where
  "valid_exp s \<longleftrightarrow>
     (case s of [] \<Rightarrow> True
      | e # r \<Rightarrow> e \<in> {CHR ''e'', CHR ''E''} \<and>
                (case r of [] \<Rightarrow> False
                 | g # r' \<Rightarrow> if g \<in> {CHR ''+'', CHR ''-''} then digits1 r' else digits1 r))"

definition valid_number :: "string \<Rightarrow> bool" where
  "valid_number s \<longleftrightarrow>
     (let u = (case s of c # cs \<Rightarrow> if c = CHR ''-'' then cs else s | [] \<Rightarrow> []);
          ip = takeWhile is_digit u; r = dropWhile is_digit u
      in ip \<noteq> [] \<and> (hd ip = CHR ''0'' \<longrightarrow> ip = ''0'') \<and>
         (case r of c # cs \<Rightarrow>
            if c = CHR ''.'' then takeWhile is_digit cs \<noteq> [] \<and> valid_exp (dropWhile is_digit cs)
            else valid_exp r
          | [] \<Rightarrow> True))"

text \<open>
  The parser proper, with fuel: every call spends one unit, and a document of \<open>n\<close> bytes
  needs no more than \<open>2 * n + 2\<close> of them (each call that goes on has consumed a byte).
\<close>

fun parse_value :: "nat \<Rightarrow> string \<Rightarrow> (json \<times> string) option"
  and parse_elems :: "nat \<Rightarrow> string \<Rightarrow> (json list \<times> string) option"
  and parse_members :: "nat \<Rightarrow> string \<Rightarrow> ((string \<times> json) list \<times> string) option" where
  "parse_value 0 s = None"
| "parse_value (Suc n) s =
     (case skip_ws s of
        [] \<Rightarrow> None
      | c # cs \<Rightarrow>
          if c = CHR ''{'' then
            (if take 1 (skip_ws cs) = ''}'' then Some (JObj [], drop 1 (skip_ws cs))
             else map_option (\<lambda>(ms, r). (JObj ms, r)) (parse_members n cs))
          else if c = CHR ''['' then
            (if take 1 (skip_ws cs) = '']'' then Some (JArr [], drop 1 (skip_ws cs))
             else map_option (\<lambda>(js, r). (JArr js, r)) (parse_elems n cs))
          else if c = CHR 0x22 then map_option (\<lambda>(t, r). (JStr t, r)) (parse_chars cs)
          else if c = CHR ''n'' then map_option (\<lambda>r. (JNull, r)) (strip_pre ''ull'' cs)
          else if c = CHR ''t'' then map_option (\<lambda>r. (JBool True, r)) (strip_pre ''rue'' cs)
          else if c = CHR ''f'' then map_option (\<lambda>r. (JBool False, r)) (strip_pre ''alse'' cs)
          else if valid_number (takeWhile num_char (c # cs))
            then Some (JNum (takeWhile num_char (c # cs)), dropWhile num_char (c # cs))
          else None)"
| "parse_elems 0 s = None"
| "parse_elems (Suc n) s =
     (case parse_value n s of
        None \<Rightarrow> None
      | Some (j, r) \<Rightarrow>
          (case skip_ws r of
             [] \<Rightarrow> None
           | c # cs \<Rightarrow>
               if c = CHR '','' then map_option (\<lambda>(js, t). (j # js, t)) (parse_elems n cs)
               else if c = CHR '']'' then Some ([j], cs)
               else None))"
| "parse_members 0 s = None"
| "parse_members (Suc n) s =
     (case skip_ws s of
        [] \<Rightarrow> None
      | q # qs \<Rightarrow>
          if q \<noteq> CHR 0x22 then None
          else
            (case parse_chars qs of
               None \<Rightarrow> None
             | Some (k, r) \<Rightarrow>
                 if take 1 (skip_ws r) \<noteq> '':'' then None
                 else
                   (case parse_value n (drop 1 (skip_ws r)) of
                      None \<Rightarrow> None
                    | Some (j, r') \<Rightarrow>
                        (case skip_ws r' of
                           [] \<Rightarrow> None
                         | c # cs \<Rightarrow>
                             if c = CHR '','' then
                               map_option (\<lambda>(ms, t). ((k, j) # ms, t)) (parse_members n cs)
                             else if c = CHR ''}'' then Some ([(k, j)], cs)
                             else None))))"

definition parse_json :: "string \<Rightarrow> json option" where
  "parse_json s =
     (case parse_value (2 * length s + 2) s of
        Some (j, r) \<Rightarrow> if skip_ws r = [] then Some j else None
      | None \<Rightarrow> None)"

section \<open>Storing a tree into a target\<close>

text \<open>
  What json.Unmarshal does to a variable of a Go type, given the variable's value before.
  \<open>null\<close> leaves a string, a number and a struct alone, makes a slice and a map nil; a tree of
  the wrong kind is an UnmarshalTypeError. (Go goes on decoding after such an error and
  reports the first one; no caller in the operator looks at what was stored then.)
\<close>

fun json_kind :: "json \<Rightarrow> string" where
  "json_kind JNull = ''null''"
| "json_kind (JBool b) = ''bool''"
| "json_kind (JNum t) = ''number''"
| "json_kind (JStr t) = ''string''"
| "json_kind (JArr js) = ''array''"
| "json_kind (JObj ms) = ''object''"

definition type_error :: "json \<Rightarrow> string \<Rightarrow> go_error" where
  "type_error j ty =
     ExtErr ''UnmarshalTypeError'' (''json: cannot unmarshal '' @ json_kind j @ '' into Go value of type '' @ ty)"

definition syntax_error :: go_error where
  "syntax_error = ExtErr ''SyntaxError'' ''json: invalid input''"

fun unmarshal_string :: "string \<Rightarrow> json \<Rightarrow> string result" where
  "unmarshal_string old (JStr s) = Inr s"
| "unmarshal_string old JNull = Inr old"
| "unmarshal_string old j = Inl (type_error j ''string'')"

fun unmarshal_int64 :: "int64 \<Rightarrow> json \<Rightarrow> int64 result" where
  "unmarshal_int64 old (JNum t) =
     (case ParseInt64 t of Some i \<Rightarrow> Inr i | None \<Rightarrow> Inl (type_error (JNum t) ''int64''))"
| "unmarshal_int64 old JNull = Inr old"
| "unmarshal_int64 old j = Inl (type_error j ''int64'')"

text \<open>A list of trees stored element by element, stopping at the first error.\<close>

fun map_result :: "('a \<Rightarrow> 'b result) \<Rightarrow> 'a list \<Rightarrow> 'b list result" where
  "map_result f [] = Inr []"
| "map_result f (x # xs) =
     (case f x of
        Inl e \<Rightarrow> Inl e
      | Inr y \<Rightarrow> (case map_result f xs of Inl e \<Rightarrow> Inl e | Inr ys \<Rightarrow> Inr (y # ys)))"

lemma map_result_Inr_map [simp]: "map_result f (map g xs) = map_result (f \<circ> g) xs"
  by (induction xs) (auto split: sum.splits)

lemma map_result_all: "\<forall>x\<in>set xs. f x = Inr (g x) \<Longrightarrow> map_result f xs = Inr (map g xs)"
  by (induction xs) auto

lemma map_result_length: "map_result f xs = Inr ys \<Longrightarrow> length ys = length xs"
  by (induction xs arbitrary: ys) (auto split: sum.splits)

text \<open>Targets \<open>[]string\<close> (nil is \<open>None\<close>) and \<open>[]json.RawMessage\<close>.\<close>

fun unmarshal_strings :: "json \<Rightarrow> string list option result" where
  "unmarshal_strings (JArr js) =
     (case map_result (unmarshal_string []) js of Inl e \<Rightarrow> Inl e | Inr xs \<Rightarrow> Inr (Some xs))"
| "unmarshal_strings JNull = Inr None"
| "unmarshal_strings j = Inl (type_error j ''[]string'')"

fun unmarshal_raw_list :: "json \<Rightarrow> json list result" where
  "unmarshal_raw_list (JArr js) = Inr js"
| "unmarshal_raw_list JNull = Inr []"
| "unmarshal_raw_list j = Inl (type_error j ''[]json.RawMessage'')"

text \<open>A target \<open>map[string]json.RawMessage\<close>, nil before: a later duplicate key wins.\<close>

fun unmarshal_raw_map :: "json \<Rightarrow> (string, json) fmap result" where
  "unmarshal_raw_map (JObj ms) = Inr (fold (\<lambda>(k, j) m. fmupd k j m) ms fmempty)"
| "unmarshal_raw_map JNull = Inr fmempty"
| "unmarshal_raw_map j = Inl (type_error j ''map[string]json.RawMessage'')"

text \<open>
  Which struct field a key names: the comparison folds case, and two non-ASCII runes fold to
  an ASCII letter (U+017F to s, U+212A to k).
\<close>

fun fold_name :: "string \<Rightarrow> string" where
  "fold_name [] = []"
| "fold_name (a # b # c # cs) =
     (if [a, b, c] = [CHR 0xE2, CHR 0x84, CHR 0xAA] then CHR ''k'' # fold_name cs
      else if [a, b] = [CHR 0xC5, CHR 0xBF] then CHR ''s'' # fold_name (c # cs)
      else lower_char a # fold_name (b # c # cs))"
| "fold_name [a, b] =
     (if [a, b] = [CHR 0xC5, CHR 0xBF] then ''s'' else [lower_char a, lower_char b])"
| "fold_name [a] = [lower_char a]"

definition names_field :: "string \<Rightarrow> string \<Rightarrow> bool" where
  "names_field key field \<longleftrightarrow> fold_name key = fold_name field"

text \<open>A struct stores the members of an object in their order.\<close>

fun unmarshal_members ::
    "('s \<Rightarrow> string \<Rightarrow> json \<Rightarrow> 's result) \<Rightarrow> 's \<Rightarrow> (string \<times> json) list \<Rightarrow> 's result" where
  "unmarshal_members f s [] = Inr s"
| "unmarshal_members f s ((k, j) # ms) =
     (case f s k j of Inl e \<Rightarrow> Inl e | Inr s' \<Rightarrow> unmarshal_members f s' ms)"

lemma unmarshal_members_append:
  "unmarshal_members f s (ms @ ns) =
     (case unmarshal_members f s ms of Inl e \<Rightarrow> Inl e | Inr s' \<Rightarrow> unmarshal_members f s' ns)"
  by (induction f s ms rule: unmarshal_members.induct) (auto split: sum.splits)

fun unmarshal_struct ::
    "string \<Rightarrow> ('s \<Rightarrow> string \<Rightarrow> json \<Rightarrow> 's result) \<Rightarrow> 's \<Rightarrow> json \<Rightarrow> 's result" where
  "unmarshal_struct ty f old (JObj ms) = unmarshal_members f old ms"
| "unmarshal_struct ty f old JNull = Inr old"
| "unmarshal_struct ty f old j = Inl (type_error j ty)"

end
