(* ===== verification/JsonFuel.thy ===== *)
theory JsonFuel imports GoJson begin

text \<open>
  The fuel of the JSON parser is enough for every text: what is left over is shorter than what
  was given, and from the fuel that parse_json spends on, more fuel changes nothing.
\<close>

section \<open>What the parser consumes\<close>

lemma skip_ws_length: "length (skip_ws s) \<le> length s"
  by (simp add: skip_ws_def length_dropWhile_le)

lemma skip_ws_cons: "skip_ws s = c # cs \<Longrightarrow> length cs < length s"
  using skip_ws_length [of s] by simp

lemma prepend_Some: "prepend p r = Some (s, t) \<longleftrightarrow> (\<exists>s'. r = Some (s', t) \<and> s = p @ s')"
  by (auto simp: prepend_def)

lemma parse_chars_shorter: "parse_chars s = Some (t, r) \<Longrightarrow> length r < length s"
proof (induction s arbitrary: t r rule: parse_chars.induct)
  case 1
  then show ?case by simp
next
  case (2 c cs)
  from "2.prems" show ?case
    using "2.IH"
    by (fastforce simp: prepend_Some split: if_splits list.splits option.splits)
qed

lemma strip_pre_length: "strip_pre p s = Some r \<Longrightarrow> length r \<le> length s"
  by (auto simp: strip_pre_Some)

lemma number_shorter:
  assumes "valid_number (takeWhile num_char s)"
  shows "length (dropWhile num_char s) < length s"
proof -
  have "takeWhile num_char s \<noteq> []" using assms by (auto simp: valid_number_def)
  moreover have "length s = length (takeWhile num_char s) + length (dropWhile num_char s)"
    by (simp flip: length_append)
  ultimately show ?thesis by simp
qed

lemma drop_skip_ws: "length (drop n (skip_ws s)) \<le> length s"
  using skip_ws_length [of s] by simp

lemma parse_shorter:
  "parse_value n s = Some (j, r) \<Longrightarrow> length r < length s"
  "parse_elems n s = Some (js, r) \<Longrightarrow> length r < length s"
  "parse_members n s = Some (ms, r) \<Longrightarrow> length r < length s"
proof (induction n s and n s and n s arbitrary: j r and js r and ms r
    rule: parse_value_parse_elems_parse_members.induct)
  case (2 n s)
  show ?case
  proof (cases "skip_ws s")
    case Nil
    then show ?thesis using "2.prems" by simp
  next
    case (Cons c cs)
    note l = skip_ws_cons [OF Cons]
    have num: "length (dropWhile num_char (c # cs)) < length s" if "valid_number (takeWhile num_char (c # cs))"
      using number_shorter [OF that] l by simp
    have prem: "parse_value (Suc n) s = Some (j, r)" by (fact "2.prems")
    consider "c = CHR ''{''" | "c = CHR ''[''" | "c \<noteq> CHR ''{''" "c \<noteq> CHR ''[''" by blast
    then show ?thesis
    proof cases
      case 1
      show ?thesis
      proof (cases "take 1 (skip_ws cs) = ''}''")
        case True
        then show ?thesis using prem Cons 1 l drop_skip_ws [of 1 cs] by simp
      next
        case False
        then obtain ms where "parse_members n cs = Some (ms, r)" using prem Cons 1 by auto
        from "2.IH"(1) [OF Cons 1 False this] l show ?thesis by simp
      qed
    next
      case 2
      have n: "c \<noteq> CHR ''{''" using 2 by simp
      show ?thesis
      proof (cases "take 1 (skip_ws cs) = '']''")
        case True
        then show ?thesis using prem Cons 2 l drop_skip_ws [of 1 cs] by simp
      next
        case False
        then obtain js where "parse_elems n cs = Some (js, r)" using prem Cons 2 by auto
        from "2.IH"(2) [OF Cons n 2 False this] l show ?thesis by simp
      qed
    next
      case 3
      then show ?thesis
        using prem Cons l num
        by (auto split: if_splits dest!: parse_chars_shorter strip_pre_length)
    qed
  qed
next
  case (4 n s)
  then obtain j1 r1 where v: "parse_value n s = Some (j1, r1)" by (auto split: option.splits)
  then have l1: "length r1 < length s" using "4.IH"(1) by blast
  show ?case
  proof (cases "skip_ws r1")
    case Nil
    then show ?thesis using "4.prems" v by simp
  next
    case (Cons c cs)
    from skip_ws_cons [OF this] l1 show ?thesis
      using "4.prems" "4.IH"(2) [OF v] v Cons by (fastforce split: if_splits)
  qed
next
  case (6 n s)
  then obtain q qs k r1 where q: "skip_ws s = q # qs" "q = CHR 0x22" "parse_chars qs = Some (k, r1)"
      "take 1 (skip_ws r1) = '':''"
    by (auto split: list.splits option.splits if_splits)
  then obtain j2 r2 where v: "parse_value n (drop 1 (skip_ws r1)) = Some (j2, r2)"
    using "6.prems" by (auto split: list.splits option.splits if_splits)
  have l2: "length r2 < length s"
    using "6.IH"(1) v q skip_ws_cons [OF q(1)] parse_chars_shorter [OF q(3)] drop_skip_ws [of 1 r1] by fastforce
  show ?case
  proof (cases "skip_ws r2")
    case Nil
    then show ?thesis using "6.prems" q v by simp
  next
    case (Cons c cs)
    from skip_ws_cons [OF this] l2 show ?thesis
      using "6.prems" "6.IH"(2) v q Cons by (fastforce split: if_splits)
  qed
qed simp_all

section \<open>Enough fuel\<close>

lemma fuel_Suc: "k < n \<Longrightarrow> \<exists>m. n = Suc m \<and> k \<le> m"
  by (cases n) auto

lemma parse_fuel:
  "(\<forall>n m. 2 * length s + 1 \<le> n \<longrightarrow> 2 * length s + 1 \<le> m \<longrightarrow> parse_value n s = parse_value m s) \<and>
   (\<forall>n m. 2 * length s + 2 \<le> n \<longrightarrow> 2 * length s + 2 \<le> m \<longrightarrow> parse_elems n s = parse_elems m s) \<and>
   (\<forall>n m. 2 * length s + 2 \<le> n \<longrightarrow> 2 * length s + 2 \<le> m \<longrightarrow> parse_members n s = parse_members m s)"
proof (induction s rule: length_induct)
  case (1 s)
  have IV: "parse_value n t = parse_value m t" if "length t < length s" "2 * length s - 1 \<le> n" "2 * length s - 1 \<le> m" for n m t
    using "1.IH" that by (auto intro!: "1.IH" [rule_format, THEN conjunct1, rule_format])
  have IE: "parse_elems n t = parse_elems m t" "parse_members n t = parse_members m t"
    if "length t < length s" "2 * length s \<le> n" "2 * length s \<le> m" for n m t
  proof -
    have "2 * length t + 2 \<le> n" "2 * length t + 2 \<le> m" using that by linarith+
    with "1.IH" that(1) show "parse_elems n t = parse_elems m t" "parse_members n t = parse_members m t" by blast+
  qed
  have V: "parse_value n s = parse_value m s" if b: "2 * length s + 1 \<le> n" "2 * length s + 1 \<le> m" for n m
  proof -
    obtain n' m' where n: "n = Suc n'" "2 * length s \<le> n'" and m: "m = Suc m'" "2 * length s \<le> m'"
      using b fuel_Suc [of "2 * length s" n] fuel_Suc [of "2 * length s" m] by auto
    show ?thesis
    proof (cases "skip_ws s")
      case (Cons c cs)
      have "parse_elems n' cs = parse_elems m' cs" "parse_members n' cs = parse_members m' cs"
        using IE [OF skip_ws_cons [OF Cons] n(2) m(2)] by simp_all
      then show ?thesis by (simp only: n m parse_value.simps Cons list.case)
    qed (simp add: n m)
  qed
  have E: "parse_elems n s = parse_elems m s" if b: "2 * length s + 2 \<le> n" "2 * length s + 2 \<le> m" for n m
  proof -
    obtain n' m' where n: "n = Suc n'" "2 * length s + 1 \<le> n'" and m: "m = Suc m'" "2 * length s + 1 \<le> m'"
      using b fuel_Suc [of "2 * length s + 1" n] fuel_Suc [of "2 * length s + 1" m] by auto
    have v: "parse_value n' s = parse_value m' s" using V n(2) m(2) .
    have "parse_elems n' cs = parse_elems m' cs" if "parse_value m' s = Some (j, r)" "skip_ws r = c # cs" for j r c cs
      using IE(1) [of cs n' m'] parse_shorter(1) [OF that(1)] skip_ws_cons [OF that(2)] n m by simp
    then show ?thesis by (auto simp: n m v split: option.splits list.splits)
  qed
  have M: "parse_members n s = parse_members m s" if b: "2 * length s + 2 \<le> n" "2 * length s + 2 \<le> m" for n m
  proof -
    obtain n' m' where n: "n = Suc n'" "2 * length s + 1 \<le> n'" and m: "m = Suc m'" "2 * length s + 1 \<le> m'"
      using b fuel_Suc [of "2 * length s + 1" n] fuel_Suc [of "2 * length s + 1" m] by auto
    have l: "length (drop 1 (skip_ws r)) < length s" if "skip_ws s = q # qs" "parse_chars qs = Some (k, r)" for q qs k r
      using skip_ws_cons [OF that(1)] parse_chars_shorter [OF that(2)] drop_skip_ws [of 1 r] by linarith
    have v: "parse_value n' (drop 1 (skip_ws r)) = parse_value m' (drop 1 (skip_ws r))"
      if "skip_ws s = q # qs" "parse_chars qs = Some (k, r)" for q qs k r
      using IV [OF l [OF that]] n m by simp
    have mm: "parse_members n' cs = parse_members m' cs"
      if "skip_ws s = q # qs" "parse_chars qs = Some (k, r)" "parse_value m' (drop 1 (skip_ws r)) = Some (j, r')"
        "skip_ws r' = c # cs" for q qs k r j r' c cs
    proof -
      have "length cs < length s"
        using l [OF that(1,2)] parse_shorter(1) [OF that(3)] skip_ws_cons [OF that(4)] by linarith
      then show ?thesis using IE(2) n m by simp
    qed
    show ?thesis
    proof (cases "skip_ws s")
      case (Cons q qs)
      show ?thesis
      proof (cases "parse_chars qs")
        case None
        then show ?thesis by (simp add: n m Cons)
      next
        case (Some kr)
        then obtain k r where kr: "parse_chars qs = Some (k, r)" by (cases kr) auto
        note un = n(1) m(1) parse_members.simps Cons kr list.case option.case prod.case v [OF Cons kr]
        show ?thesis
        proof (cases "parse_value m' (drop 1 (skip_ws r))")
          case None
          show ?thesis by (simp only: un None)
        next
          case (Some jr)
          then obtain j r' where jr: "parse_value m' (drop 1 (skip_ws r)) = Some (j, r')" by (cases jr) auto
          show ?thesis
          proof (cases "skip_ws r'")
            case Nil
            show ?thesis by (simp only: un jr Nil)
          next
            case c: (Cons c cs)
            show ?thesis by (simp only: un jr c mm [OF Cons kr jr c])
          qed
        qed
      qed
    qed (simp add: n m)
  qed
  from V E M show ?case by blast
qed

text \<open>So a text that parse_json refuses is refused for what it says and not for its length.\<close>

lemma parse_json_fuel:
  assumes "2 * length s + 1 \<le> n"
  shows "parse_json s = (case parse_value n s of Some (j, r) \<Rightarrow> if skip_ws r = [] then Some j else None | None \<Rightarrow> None)"
proof -
  have "2 * length s + 1 \<le> 2 * length s + 2" by simp
  with assms have "parse_value n s = parse_value (2 * length s + 2) s"
    by (rule conjunct1 [OF parse_fuel, rule_format])
  then show ?thesis by (simp only: parse_json_def)
qed

end
