(* ===== verification/JsonText.thy ===== *)
theory JsonText imports JsonFuel begin

text \<open>
  Printing and parsing JSON text are inverse: what json.Marshal prints of a tree,
  json.Unmarshal parses to that tree, with the bytes of its strings that are not UTF-8
  replaced.
\<close>

section \<open>Strings\<close>

text \<open>What is left of a string: every byte outside a valid rune becomes U+FFFD.\<close>

function to_utf8 :: "string \<Rightarrow> string" where
  "to_utf8 [] = []"
| "to_utf8 (c # cs) =
     (if is_ascii c then c # to_utf8 cs
      else if rune_len (c # cs) = 0 then replacement @ to_utf8 cs
      else take (rune_len (c # cs)) (c # cs) @ to_utf8 (drop (rune_len (c # cs)) (c # cs)))"
  by pat_completeness auto
termination
  by (relation "measure length") auto

declare to_utf8.simps [simp del] json_chars.simps [simp del] parse_chars.simps [simp del]

lemmas to_utf8_unfold = to_utf8.simps
lemmas json_chars_unfold = json_chars.simps
lemmas parse_chars_unfold = parse_chars.simps

lemma to_utf8_ascii: "list_all is_ascii s \<Longrightarrow> to_utf8 s = s"
  by (induction s) (simp_all add: to_utf8_unfold)

lemma to_utf8_valid: "valid_utf8 s \<Longrightarrow> to_utf8 s = s"
proof (induction s rule: to_utf8.induct)
  case (2 c cs)
  show ?case
  proof (cases "is_ascii c")
    case True
    then show ?thesis using "2.IH"(1) "2.prems" by (simp add: to_utf8_unfold)
  next
    case False
    with "2.prems" have "rune_len (c # cs) \<noteq> 0" "valid_utf8 (drop (rune_len (c # cs)) (c # cs))"
      by (simp_all split: if_splits)
    then have "to_utf8 (drop (rune_len (c # cs)) (c # cs)) = drop (rune_len (c # cs)) (c # cs)"
      using "2.IH"(3) False by blast
    then show ?thesis using False \<open>rune_len (c # cs) \<noteq> 0\<close> by (simp add: to_utf8_unfold)
  qed
qed (simp add: to_utf8_unfold)

lemma hex_val_digit: "d < 16 \<Longrightarrow> hex_val (hex_digit d) = Some d"
  by (auto simp: hex_val_def hex_digit_def between_def)

lemma hex4_val_hex4: "n < 65536 \<Longrightarrow> hex4_val (hex4 n @ x) = Some n"
  by (simp add: hex4_def hex_byte_def hex_val_digit)

lemma length_hex4 [simp]: "length (hex4 n) = 4"
  by (simp add: hex4_def hex_byte_def)

text \<open>Each escape is read as the bytes it stands for.\<close>

lemma parse_hex_escape:
  assumes "n < 0xD800 \<or> 0xE000 \<le> n" "n < 65536"
  shows "parse_chars (CHR 0x5C # CHR ''u'' # hex4 n @ x) = prepend (encode_rune n) (parse_chars x)"
  using assms by (subst parse_chars_unfold) (auto simp: hex4_val_hex4)

lemma encode_ascii: "is_ascii c \<Longrightarrow> encode_rune (of_char c) = [c]"
  by (simp add: encode_rune_def is_ascii_def)

lemma parse_json_esc:
  assumes "is_ascii c"
  shows "parse_chars (json_esc c @ x) = prepend [c] (parse_chars x)"
proof -
  have c: "(of_char c :: nat) < 128" using assms by (simp add: is_ascii_def)
  have "parse_chars (CHR 0x5C # CHR ''u'' # hex4 (of_char c) @ x) = prepend [c] (parse_chars x)"
    using parse_hex_escape [of "of_char c"] c encode_ascii [OF assms] by simp
  moreover have "parse_chars (CHR 0x5C # e # x) = prepend [d] (parse_chars x)"
    if "e \<noteq> CHR ''u''" "simple_escape e = Some d" for e d
    using that by (subst parse_chars_unfold) simp
  moreover have "parse_chars (c # x) = prepend [c] (parse_chars x)"
    if "c \<noteq> CHR 0x22" "c \<noteq> CHR 0x5C" "\<not> (of_char c :: nat) < 32"
    using that assms by (subst parse_chars_unfold) simp
  ultimately show ?thesis by (auto simp: json_esc_def simple_escape_def)
qed

lemma rune_len_first: "rune_len (c # cs) \<noteq> 0 \<Longrightarrow> \<not> is_ascii c"
  by (cases "c # cs" rule: rune_len.cases) (auto simp: between_def is_ascii_def split: list.splits if_splits)

lemma rune_len_prefix:
  assumes "rune_len s \<noteq> 0"
  shows "rune_len (take (rune_len s) s @ x) = rune_len s"
  using assms by (cases s rule: rune_len.cases) (auto split: list.splits if_splits)

lemma not_ascii_plain:
  assumes "\<not> is_ascii c"
  shows "c \<noteq> CHR 0x22" "c \<noteq> CHR 0x5C" "\<not> (of_char c :: nat) < 32"
  using assms by (auto simp: is_ascii_def)

lemma parse_rune:
  assumes "rune_len s \<noteq> 0"
  shows "parse_chars (take (rune_len s) s @ x) = prepend (take (rune_len s) s) (parse_chars x)"
proof -
  obtain c cs where s: "s = c # cs" using assms by (cases s) auto
  let ?n = "rune_len s"
  have c: "\<not> is_ascii c" using assms s rune_len_first by blast
  obtain t where t: "take ?n s = c # t" using assms s by (cases ?n) auto
  have "?n \<le> length s" by (rule rune_len_le)
  then have l: "length (take ?n s) = ?n" by simp
  have "rune_len (c # t @ x) = ?n" using rune_len_prefix [OF assms, of x] t by simp
  then have "parse_chars (c # t @ x) = prepend (take ?n (c # t @ x)) (parse_chars (drop ?n (c # t @ x)))"
    using not_ascii_plain [OF c] c assms by (subst parse_chars_unfold) simp
  moreover have "take ?n (c # t @ x) = take ?n s" "drop ?n (c # t @ x) = x"
    using l t by (metis append_Cons append_eq_conv_conj)+
  ultimately show ?thesis using t by simp
qed

lemma prepend_prepend [simp]: "prepend p (prepend q r) = prepend (p @ q) r"
  by (cases r) (auto simp: prepend_def)

lemma hex4_literals: "hex4 0xFFFD = ''fffd''" "hex4 0x2028 = ''2028''" "hex4 0x2029 = ''2029''"
  by (simp_all add: hex4_def hex_byte_def hex_digit_def char_of_def bit_Suc_0_iff)

lemma rune_literals:
  "encode_rune 0xFFFD = replacement" "encode_rune 0x2028 = [CHR 0xE2, CHR 0x80, CHR 0xA8]"
  "encode_rune 0x2029 = [CHR 0xE2, CHR 0x80, CHR 0xA9]"
  by (simp_all add: encode_rune_def replacement_def char_of_def bit_Suc_0_iff)

lemma rune_len_separator:
  assumes "take 3 s = [CHR 0xE2, CHR 0x80, d]" "between 0x80 0xBF d"
  shows "rune_len s = 3"
proof -
  obtain x where "s = [CHR 0xE2, CHR 0x80, d] @ x" using assms(1) by (metis append_take_drop_id)
  then show ?thesis using assms(2) by (simp add: between_def)
qed

lemma parse_json_chars: "parse_chars (json_chars s @ CHR 0x22 # rest) = Some (to_utf8 s, rest)"
proof (induction s rule: json_chars.induct)
  case 1
  then show ?case by (simp add: json_chars_unfold parse_chars_unfold to_utf8_unfold)
next
  case (2 c cs)
  let ?s = "c # cs" let ?n = "rune_len (c # cs)"
  consider "is_ascii c" | "\<not> is_ascii c" "?n = 0"
    | "\<not> is_ascii c" "?n \<noteq> 0" "take 3 ?s = [CHR 0xE2, CHR 0x80, CHR 0xA8]"
    | "\<not> is_ascii c" "?n \<noteq> 0" "take 3 ?s \<noteq> [CHR 0xE2, CHR 0x80, CHR 0xA8]" "take 3 ?s = [CHR 0xE2, CHR 0x80, CHR 0xA9]"
    | "\<not> is_ascii c" "?n \<noteq> 0" "take 3 ?s \<noteq> [CHR 0xE2, CHR 0x80, CHR 0xA8]" "take 3 ?s \<noteq> [CHR 0xE2, CHR 0x80, CHR 0xA9]"
    by blast
  then show ?case
  proof cases
    case 1
    then show ?thesis
      using "2.IH"(1) by (simp add: json_chars_unfold to_utf8_unfold parse_json_esc prepend_def)
  next
    case u: 2
    have "parse_chars (CHR 0x5C # ''ufffd'' @ x) = prepend replacement (parse_chars x)" for x
      using parse_hex_escape [of "0xFFFD" x] by (simp add: hex4_literals rune_literals)
    with u show ?thesis
      using "2.IH"(2) by (simp add: json_chars_unfold to_utf8_unfold prepend_def)
  next
    case u: 3
    have n: "?n = 3" by (rule rune_len_separator [OF u(3)]) (simp add: between_def)
    have "parse_chars (CHR 0x5C # ''u2028'' @ x) = prepend [CHR 0xE2, CHR 0x80, CHR 0xA8] (parse_chars x)" for x
      using parse_hex_escape [of "0x2028" x] by (simp add: hex4_literals rune_literals)
    moreover have "json_chars ?s = CHR 0x5C # ''u2028'' @ json_chars (drop 3 ?s)"
      by (simp only: json_chars_unfold(2) [of c cs] u if_False if_True simp_thms) 
    moreover have "to_utf8 ?s = [CHR 0xE2, CHR 0x80, CHR 0xA8] @ to_utf8 (drop 3 ?s)"
      by (simp only: to_utf8_unfold(2) [of c cs] n u if_False if_True simp_thms) simp
    moreover note "2.IH"(3) [OF u]
    ultimately show ?thesis by (simp only: append_Cons append_assoc prepend_def) simp
  next
    case u: 4
    have n: "?n = 3" by (rule rune_len_separator [OF u(4)]) (simp add: between_def)
    have "parse_chars (CHR 0x5C # ''u2029'' @ x) = prepend [CHR 0xE2, CHR 0x80, CHR 0xA9] (parse_chars x)" for x
      using parse_hex_escape [of "0x2029" x] by (simp add: hex4_literals rune_literals)
    moreover have "json_chars ?s = CHR 0x5C # ''u2029'' @ json_chars (drop 3 ?s)"
      by (simp only: json_chars_unfold(2) [of c cs] u if_False if_True simp_thms) simp
    moreover have "to_utf8 ?s = [CHR 0xE2, CHR 0x80, CHR 0xA9] @ to_utf8 (drop 3 ?s)"
      by (simp only: to_utf8_unfold(2) [of c cs] n u if_False if_True simp_thms) simp
    moreover note "2.IH"(4) [OF u]
    ultimately show ?thesis by (simp only: append_Cons append_assoc prepend_def) simp
  next
    case u: 5
    have "json_chars ?s = take ?n ?s @ json_chars (drop ?n ?s)"
      by (simp only: json_chars_unfold(2) [of c cs] u if_False if_True simp_thms)
    moreover have "to_utf8 ?s = take ?n ?s @ to_utf8 (drop ?n ?s)"
      by (simp only: to_utf8_unfold(2) [of c cs] u if_False if_True simp_thms)
    moreover note "2.IH"(5) [OF u] parse_rune [OF u(2)]
    ultimately show ?thesis by (simp only: append_assoc prepend_def) simp
  qed
qed

section \<open>Trees\<close>

text \<open>A number as json.Marshal writes it and the parser takes it.\<close>

definition number_text :: "string \<Rightarrow> bool" where
  "number_text t \<longleftrightarrow> list_all num_char t \<and> valid_number t"

fun numbers_ok :: "json \<Rightarrow> bool" where
  "numbers_ok (JNum t) \<longleftrightarrow> number_text t"
| "numbers_ok (JArr js) \<longleftrightarrow> list_all numbers_ok js"
| "numbers_ok (JObj ms) \<longleftrightarrow> list_all (\<lambda>(k, j). numbers_ok j) ms"
| "numbers_ok _ \<longleftrightarrow> True"

fun utf8_json :: "json \<Rightarrow> json" where
  "utf8_json (JStr s) = JStr (to_utf8 s)"
| "utf8_json (JArr js) = JArr (map utf8_json js)"
| "utf8_json (JObj ms) = JObj (map (\<lambda>(k, j). (to_utf8 k, utf8_json j)) ms)"
| "utf8_json j = j"

text \<open>What may follow a value inside a document.\<close>

definition ends_value :: "string \<Rightarrow> bool" where
  "ends_value s \<longleftrightarrow> (s = [] \<or> hd s \<in> {CHR '','', CHR '']'', CHR ''}''})"

lemma ends_value_simps [simp]:
  "ends_value []" "ends_value (CHR '','' # s)" "ends_value (CHR '']'' # s)" "ends_value (CHR ''}'' # s)"
  by (simp_all add: ends_value_def)

lemma ends_value_num: "ends_value s \<Longrightarrow> s = [] \<or> \<not> num_char (hd s)"
  by (auto simp: ends_value_def num_char_def is_digit_def)

lemma number_first:
  assumes "number_text t"
  obtains c cs where "t = c # cs" "is_digit c \<or> c = CHR ''-''"
proof (cases t)
  case Nil
  with assms show ?thesis by (simp add: number_text_def valid_number_def Let_def)
next
  case (Cons c cs)
  with assms have "is_digit c \<or> c = CHR ''-''"
    by (auto simp: number_text_def valid_number_def Let_def split: if_splits)
  with Cons that show ?thesis by blast
qed

text \<open>A printed value starts with none of the bytes that end or separate.\<close>

lemma print_first:
  assumes "numbers_ok j"
  shows "\<exists>c cs. print_json j = c # cs \<and> \<not> json_space c \<and> c \<noteq> CHR '']'' \<and> c \<noteq> CHR ''}''"
proof (cases j)
  case (JNum t)
  with assms obtain c cs where "t = c # cs" "is_digit c \<or> c = CHR ''-''" by (auto elim: number_first)
  with JNum show ?thesis by (auto simp: json_space_def is_digit_def)
qed (auto simp: json_space_def print_string_def)

lemma skip_print: "numbers_ok j \<Longrightarrow> skip_ws (print_json j @ x) = print_json j @ x"
  using print_first [of j] by (auto simp: skip_ws_def)

lemma take_number:
  assumes "number_text t" "ends_value x"
  shows "takeWhile num_char (t @ x) = t" "dropWhile num_char (t @ x) = x"
  using assms(1) ends_value_num [OF assms(2)]
  by (cases x; auto simp: number_text_def list_all_iff takeWhile_append2 dropWhile_append2)+

lemma parse_number:
  assumes "number_text t" "ends_value x"
  shows "parse_value (Suc n) (t @ x) = Some (JNum t, x)"
proof -
  obtain c cs where t: "t = c # cs" "is_digit c \<or> c = CHR ''-''" using assms(1) by (rule number_first)
  have "skip_ws (t @ x) = c # cs @ x" using skip_print [of "JNum t" x] assms(1) t(1) by simp
  moreover have "c \<notin> {CHR ''{'', CHR ''['', CHR 0x22, CHR ''n'', CHR ''t'', CHR ''f''}"
    using t(2) by (auto simp: is_digit_def)
  moreover have "takeWhile num_char (c # cs @ x) = t" "dropWhile num_char (c # cs @ x) = x"
    using take_number [OF assms] t(1) by simp_all
  moreover have "valid_number t" using assms(1) by (simp add: number_text_def)
  ultimately show ?thesis by (simp del: takeWhile.simps dropWhile.simps)
qed

lemma parse_string: "parse_value (Suc n) (print_string s @ x) = Some (JStr (to_utf8 s), x)"
proof -
  have "skip_ws (print_string s @ x) = CHR 0x22 # json_chars s @ CHR 0x22 # x"
    by (simp add: print_string_def skip_ws_def json_space_def)
  then show ?thesis by (simp add: parse_json_chars)
qed

lemma skip_plain: "\<not> json_space c \<Longrightarrow> skip_ws (c # cs) = c # cs"
  by (simp add: skip_ws_def)

lemma separators [simp]:
  "\<not> json_space CHR '',''" "\<not> json_space CHR '':''" "\<not> json_space CHR '']''" "\<not> json_space CHR ''}''"
  "\<not> json_space CHR ''[''" "\<not> json_space CHR ''{''" "\<not> json_space CHR 0x22"
  by (simp_all add: json_space_def)

text \<open>
  A value is read back when the fuel is twice its length; this is the statement that the
  lists of elements and of members inherit.
\<close>

definition reads_back :: "json \<Rightarrow> bool" where
  "reads_back j \<longleftrightarrow>
     (\<forall>n x. 2 * length (print_json j) \<le> n \<longrightarrow> ends_value x \<longrightarrow>
        parse_value n (print_json j @ x) = Some (utf8_json j, x))"

lemma parse_elems_print:
  assumes "js \<noteq> []" "\<forall>j\<in>set js. reads_back j" "2 * length (Join (map print_json js) '','') + 1 \<le> n"
  shows "parse_elems n (Join (map print_json js) '','' @ CHR '']'' # x) = Some (map utf8_json js, x)"
  using assms
proof (induction js arbitrary: n)
  case (Cons j js)
  from Cons.prems(3) obtain m where n: "n = Suc m" by (cases n) auto
  show ?case
  proof (cases js)
    case Nil
    with Cons.prems n have "parse_value m (print_json j @ CHR '']'' # x) = Some (utf8_json j, CHR '']'' # x)"
      by (auto simp: reads_back_def)
    with Nil n show ?thesis by (simp add: skip_plain)
  next
    case (Cons i js2)
    let ?t = "Join (map print_json js) '',''"
    have J: "Join (map print_json (j # js)) '','' = print_json j @ CHR '','' # ?t" using Cons by simp
    with Cons.prems n have len: "2 * length (print_json j) \<le> m" "2 * length ?t + 1 \<le> m" by simp_all
    have "parse_value m (print_json j @ CHR '','' # ?t @ CHR '']'' # x) = Some (utf8_json j, CHR '','' # ?t @ CHR '']'' # x)"
      using Cons.prems(2) len(1) by (auto simp: reads_back_def)
    moreover have "parse_elems m (?t @ CHR '']'' # x) = Some (map utf8_json js, x)"
      using Cons.IH [OF _ _ len(2)] Cons Cons.prems(2) by simp
    ultimately show ?thesis unfolding J n by (simp add: skip_plain)
  qed
qed simp

abbreviation print_member :: "string \<times> json \<Rightarrow> string" where
  "print_member m \<equiv> (case m of (k, j) \<Rightarrow> print_string k @ '':'' @ print_json j)"

text \<open>One member up to its value.\<close>

lemma parse_members_step:
  assumes "parse_value n (v @ y) = Some (j, y)" "skip_ws (v @ y) = v @ y"
  shows "parse_members (Suc n) (print_string k @ '':'' @ v @ y) =
     (case skip_ws y of
        [] \<Rightarrow> None
      | c # cs \<Rightarrow>
          if c = CHR '','' then map_option (\<lambda>(ms, t). ((to_utf8 k, j) # ms, t)) (parse_members n cs)
          else if c = CHR ''}'' then Some ([(to_utf8 k, j)], cs)
          else None)"
proof -
  have "skip_ws (print_string k @ '':'' @ v @ y) = CHR 0x22 # json_chars k @ CHR 0x22 # CHR '':'' # v @ y"
    by (simp add: print_string_def skip_ws_def)
  then show ?thesis using assms by (simp add: parse_json_chars skip_plain)
qed

lemma parse_members_print:
  assumes "ms \<noteq> []" "\<forall>(k, j)\<in>set ms. reads_back j \<and> numbers_ok j"
    "2 * length (Join (map print_member ms) '','') + 1 \<le> n"
  shows "parse_members n (Join (map print_member ms) '','' @ CHR ''}'' # x) =
     Some (map (\<lambda>(k, j). (to_utf8 k, utf8_json j)) ms, x)"
  using assms
proof (induction ms arbitrary: n)
  case (Cons m ms)
  obtain k j where m: "m = (k, j)" by (cases m)
  from Cons.prems(3) obtain n' where n: "n = Suc n'" by (cases n) auto
  have j: "reads_back j" "skip_ws (print_json j @ y) = print_json j @ y" for y
    using Cons.prems(2) m skip_print by auto
  show ?case
  proof (cases ms)
    case Nil
    with Cons.prems n m have "parse_value n' (print_json j @ CHR ''}'' # x) = Some (utf8_json j, CHR ''}'' # x)"
      using j(1) by (auto simp: reads_back_def)
    from parse_members_step [OF this j(2), of k] Nil n m show ?thesis by (simp add: skip_plain)
  next
    case (Cons i ms2)
    let ?t = "Join (map print_member ms) '',''"
    have J: "Join (map print_member (m # ms)) '','' = print_string k @ '':'' @ print_json j @ CHR '','' # ?t"
      using Cons m by simp
    with Cons.prems n have len: "2 * length (print_json j) \<le> n'" "2 * length ?t + 1 \<le> n'" by simp_all
    have "parse_value n' (print_json j @ CHR '','' # ?t @ CHR ''}'' # x) =
        Some (utf8_json j, CHR '','' # ?t @ CHR ''}'' # x)"
      using j(1) len(1) by (auto simp: reads_back_def)
    note step = parse_members_step [OF this j(2), of k]
    have "parse_members n' (?t @ CHR ''}'' # x) = Some (map (\<lambda>(k, j). (to_utf8 k, utf8_json j)) ms, x)"
      using Cons.IH [OF _ _ len(2)] Cons Cons.prems(2) by simp
    then have "parse_members (Suc n') (print_string k @ '':'' @ print_json j @ CHR '','' # ?t @ CHR ''}'' # x) =
        Some ((to_utf8 k, utf8_json j) # map (\<lambda>(k, j). (to_utf8 k, utf8_json j)) ms, x)"
      unfolding step by (simp add: skip_plain)
    moreover have "Join (map print_member (m # ms)) '','' @ CHR ''}'' # x =
        print_string k @ '':'' @ print_json j @ CHR '','' # ?t @ CHR ''}'' # x"
      unfolding J by (simp only: append_assoc append_Cons append_Nil)
    ultimately show ?thesis unfolding n by (simp only: m list.map prod.case)
  qed
qed simp

lemma Join_first:
  assumes "xs \<noteq> []" "hd xs = c # cs"
  shows "\<exists>ds. Join xs sep = c # ds"
  using assms by (cases xs; cases "tl xs") auto

lemma value_reads_back: "numbers_ok j \<Longrightarrow> reads_back j"
proof (induction j)
  case JNull
  have "parse_value n (''null'' @ x) = Some (JNull, x)" if "8 \<le> n" for n x
    using that by (cases n) (simp_all add: skip_ws_def json_space_def)
  then show ?case by (simp add: reads_back_def)
next
  case (JBool b)
  have "parse_value n (print_json (JBool b) @ x) = Some (JBool b, x)" if "8 \<le> n" for n x
    using that by (cases n) (simp_all add: skip_ws_def json_space_def)
  then show ?case by (cases b) (simp_all add: reads_back_def)
next
  case (JNum t)
  show ?case unfolding reads_back_def
  proof (intro allI impI)
    fix n x
    assume "2 * length (print_json (JNum t)) \<le> n" "ends_value x"
    moreover from JNum have t: "number_text t" by simp
    then have "t \<noteq> []" by (auto elim: number_first)
    ultimately show "parse_value n (print_json (JNum t) @ x) = Some (utf8_json (JNum t), x)"
      using parse_number [OF t] by (cases n) auto
  qed
next
  case (JStr s)
  show ?case unfolding reads_back_def
  proof (intro allI impI)
    fix n x
    assume "2 * length (print_json (JStr s)) \<le> n"
    then show "parse_value n (print_json (JStr s) @ x) = Some (utf8_json (JStr s), x)"
      using parse_string by (cases n) (auto simp: print_string_def)
  qed
next
  case (JArr js)
  have js: "\<forall>j\<in>set js. reads_back j" using JArr by (auto simp: list_all_iff)
  show ?case unfolding reads_back_def
  proof (intro allI impI)
    fix n x
    assume len: "2 * length (print_json (JArr js)) \<le> n"
    then obtain m where n: "n = Suc m" by (cases n) auto
    show "parse_value n (print_json (JArr js) @ x) = Some (utf8_json (JArr js), x)"
    proof (cases "js = []")
      case True
      then show ?thesis by (simp add: n skip_plain)
    next
      case False
      let ?t = "Join (map print_json js) '',''"
      have "numbers_ok (hd js)" using JArr.prems False by (simp add: list_all_iff)
      then obtain c cs where "hd (map print_json js) = c # cs" "\<not> json_space c" "c \<noteq> CHR '']''"
        using print_first [of "hd js"] False by (auto simp: hd_map)
      then obtain ds where t: "?t = c # ds" "\<not> json_space c" "c \<noteq> CHR '']''"
        using Join_first [of "map print_json js" c cs] False by auto
      have "parse_elems m (?t @ CHR '']'' # x) = Some (map utf8_json js, x)"
        by (rule parse_elems_print [OF False js]) (use len n in simp)
      then show ?thesis using t by (simp add: n skip_plain)
    qed
  qed
next
  case (JObj ms)
  have ms: "\<forall>(k, j)\<in>set ms. reads_back j \<and> numbers_ok j" using JObj by (force simp: list_all_iff)
  show ?case unfolding reads_back_def
  proof (intro allI impI)
    fix n x
    assume len: "2 * length (print_json (JObj ms)) \<le> n"
    then obtain m where n: "n = Suc m" by (cases n) auto
    show "parse_value n (print_json (JObj ms) @ x) = Some (utf8_json (JObj ms), x)"
    proof (cases "ms = []")
      case True
      then show ?thesis by (simp add: n skip_plain)
    next
      case False
      let ?t = "Join (map print_member ms) '',''"
      have "\<exists>cs. hd (map print_member ms) = CHR 0x22 # cs"
        using False by (cases ms) (auto simp: print_string_def)
      then obtain ds where t: "?t = CHR 0x22 # ds" using Join_first False by blast
      have "parse_members m (?t @ CHR ''}'' # x) = Some (map (\<lambda>(k, j). (to_utf8 k, utf8_json j)) ms, x)"
        by (rule parse_members_print [OF False ms]) (use len n in simp)
      then show ?thesis using t by (simp add: n skip_plain)
    qed
  qed
qed

text \<open>So parsing inverts printing.\<close>

lemma parse_print:
  assumes "numbers_ok j"
  shows "parse_json (print_json j) = Some (utf8_json j)"
proof -
  let ?n = "2 * length (print_json j) + 2"
  have "2 * length (print_json j) \<le> ?n" by simp
  with value_reads_back [OF assms] have "parse_value ?n (print_json j @ []) = Some (utf8_json j, [])"
    unfolding reads_back_def using ends_value_simps(1) by blast
  then show ?thesis unfolding parse_json_def append_Nil2 by (simp only: option.case prod.case) (simp add: skip_ws_def)
qed

end
