(* ===== verification/KubeApi.thy ===== *)
theory KubeApi imports GoErrors begin

text \<open>
  What the operator sees of Kubernetes. The types are the parts of metav1, corev1 and of the
  AuthRegistration type (module k8s-auth-registration-lib) that the operator reads or writes;
  the fields it only carries along are one opaque value each. None of that code is in the
  repository, so its operations are the fields of the record \<open>kube\<close>, an argument of every
  definition that calls them: the API client (effects on the world) and the helper functions
  of controller-runtime and apimachinery. What they are documented to do is collected at the
  end as named hypotheses; most theorems of the development need none of them.
\<close>

section \<open>Objects\<close>

type_synonym opaque = string

text \<open>An instant; the API server's resolution does not matter here.\<close>

type_synonym meta_time = int

record namespacedName =
  nn_Namespace :: string
  nn_Name :: string

record condition =
  co_Type :: string
  co_Status :: string
  co_ObservedGeneration :: int64
  co_LastTransitionTime :: meta_time
  co_Reason :: string
  co_Message :: string

record authRegistrationSpec =
  spec_Protocol :: string
  spec_Consumer :: string
  spec_LogoutURL :: "string option"
  spec_Params :: "string \<rightharpoonup> string"
  spec_SecretRef :: "string option"

record authRegistrationStatus =
  st_ResolvedSecretRef :: string
  st_Conditions :: "condition list"

record authRegistration =
  ar_Name :: string
  ar_Namespace :: string
  ar_Generation :: int64
  ar_DeletionTimestamp :: "meta_time option"
  ar_Finalizers :: "string list"
  ar_Spec :: authRegistrationSpec
  ar_Status :: authRegistrationStatus
  ar_Rest :: opaque

text \<open>A nil Go map is \<open>None\<close>.\<close>

record secret =
  sec_Name :: string
  sec_Namespace :: string
  sec_Labels :: "(string \<rightharpoonup> string) option"
  sec_Annotations :: "(string \<rightharpoonup> string) option"
  sec_Type :: string
  sec_Data :: "(string \<rightharpoonup> bytes) option"
  sec_Rest :: opaque

text \<open>The object's key, as client.Object's GetNamespace and GetName give it.\<close>

definition ar_key :: "authRegistration \<Rightarrow> namespacedName" where
  "ar_key ar = \<lparr>nn_Namespace = ar_Namespace ar, nn_Name = ar_Name ar\<rparr>"

definition sec_key :: "secret \<Rightarrow> namespacedName" where
  "sec_key s = \<lparr>nn_Namespace = sec_Namespace s, nn_Name = sec_Name s\<rparr>"

section \<open>The API client and the helper functions\<close>

text \<open>
  Update and Status().Patch decode the server's answer into the object they were given: the
  value returned on success is that object. Create, Update and Delete of secrets return only
  an error: the operator does not look at the object afterwards. SetStatusCondition reads
  the clock, so it sees the world. The helper functions that change an object in Go return
  the changed object.
\<close>

record 'w kube =
  GetAuthRegistration :: "namespacedName \<Rightarrow> ('w, authRegistration result) io"
  UpdateAuthRegistration :: "authRegistration \<Rightarrow> ('w, authRegistration result) io"
  PatchAuthRegistrationStatus :: "authRegistration \<Rightarrow> authRegistration \<Rightarrow> ('w, authRegistration result) io"
  ListAuthRegistrations :: "string \<Rightarrow> string \<Rightarrow> string \<Rightarrow> ('w, authRegistration list result) io"
  GetSecret :: "namespacedName \<Rightarrow> ('w, secret result) io"
  CreateSecret :: "secret \<Rightarrow> ('w, go_error option) io"
  UpdateSecret :: "secret \<Rightarrow> ('w, go_error option) io"
  DeleteSecret :: "secret \<Rightarrow> ('w, go_error option) io"
  IsNotFound :: "go_error \<Rightarrow> bool"
  ContainsFinalizer :: "authRegistration \<Rightarrow> string \<Rightarrow> bool"
  AddFinalizer :: "authRegistration \<Rightarrow> string \<Rightarrow> bool \<times> authRegistration"
  RemoveFinalizer :: "authRegistration \<Rightarrow> string \<Rightarrow> bool \<times> authRegistration"
  SetControllerReference :: "authRegistration \<Rightarrow> secret \<Rightarrow> secret result"
  IsControlledBy :: "secret \<Rightarrow> authRegistration \<Rightarrow> bool"
  SetStatusCondition :: "condition list \<Rightarrow> condition \<Rightarrow> 'w \<Rightarrow> condition list"
  StatusDeepEqual :: "authRegistrationStatus \<Rightarrow> authRegistrationStatus \<Rightarrow> bool"
  SecretDeepEqual :: "secret \<Rightarrow> secret \<Rightarrow> bool"
  TimeIsZero :: "meta_time option \<Rightarrow> bool"
  TimeEqual :: "meta_time \<Rightarrow> meta_time \<Rightarrow> bool"

text \<open>client.IgnoreNotFound.\<close>

definition IgnoreNotFound :: "'w kube \<Rightarrow> go_error \<Rightarrow> go_error option" where
  "IgnoreNotFound K e = (if IsNotFound K e then None else Some e)"

section \<open>Documented behaviour\<close>

text \<open>
  Named hypotheses. The view of a world is what the API server stores: the objects by key.
\<close>

record 'w kube_view =
  view_ar :: "'w \<Rightarrow> namespacedName \<Rightarrow> authRegistration option"
  view_secret :: "'w \<Rightarrow> namespacedName \<Rightarrow> secret option"

text \<open>Two states of the same object that differ at most in their status.\<close>

definition same_object :: "authRegistration \<Rightarrow> authRegistration \<Rightarrow> bool" where
  "same_object a b \<longleftrightarrow>
     ar_Name a = ar_Name b \<and> ar_Namespace a = ar_Namespace b \<and> ar_Generation a = ar_Generation b \<and>
     ar_DeletionTimestamp a = ar_DeletionTimestamp b \<and> ar_Finalizers a = ar_Finalizers b \<and>
     ar_Spec a = ar_Spec b"

lemma same_object_refl [simp, intro]: "same_object a a"
  by (simp add: same_object_def)

lemma same_object_trans [trans]: "same_object a b \<Longrightarrow> same_object b c \<Longrightarrow> same_object a c"
  by (simp add: same_object_def)

lemma same_object_status [simp]: "same_object a (b\<lparr>ar_Status := s\<rparr>) \<longleftrightarrow> same_object a b"
  by (simp add: same_object_def)

lemma same_object_key: "same_object a b \<Longrightarrow> ar_key a = ar_key b"
  by (simp add: same_object_def ar_key_def)

text \<open>
  Status patches: a successful one stores the patched status and changes nothing else, and
  the answer is the stored object. (Nobody else writes the object during the call.)
\<close>

definition status_laws :: "'w kube \<Rightarrow> 'w kube_view \<Rightarrow> bool" where
  "status_laws K V \<longleftrightarrow>
     (\<forall>old new w ar2 w1. PatchAuthRegistrationStatus K old new w = (Inr ar2, w1) \<longrightarrow>
        view_ar V w1 = (view_ar V w)(ar_key new \<mapsto> ar2) \<and> view_secret V w1 = view_secret V w \<and>
        same_object new ar2 \<and> ar_Status ar2 = ar_Status new)"

text \<open>
  equality.Semantic.DeepEqual on a status: no difference in any field (nil and empty lists
  are the same list here).
\<close>

definition status_equal_law :: "'w kube \<Rightarrow> bool" where
  "status_equal_law K \<longleftrightarrow> (\<forall>a b. StatusDeepEqual K a b \<longleftrightarrow> a = b)"

text \<open>
  meta.SetStatusCondition: the condition of that type gets the new content (the transition
  time is the function's own business), conditions of other types stay, and a condition that
  already has the content stays untouched.
\<close>

definition find_condition :: "condition list \<Rightarrow> string \<Rightarrow> condition option" where
  "find_condition cs ty = find (\<lambda>c. co_Type c = ty) cs"

definition same_content :: "condition \<Rightarrow> condition \<Rightarrow> bool" where
  "same_content a b \<longleftrightarrow>
     co_Type a = co_Type b \<and> co_Status a = co_Status b \<and> co_ObservedGeneration a = co_ObservedGeneration b \<and>
     co_Reason a = co_Reason b \<and> co_Message a = co_Message b"

definition condition_laws :: "'w kube \<Rightarrow> bool" where
  "condition_laws K \<longleftrightarrow>
     (\<forall>cs c w. \<exists>c'. find_condition (SetStatusCondition K cs c w) (co_Type c) = Some c' \<and> same_content c' c) \<and>
     (\<forall>cs c w ty. ty \<noteq> co_Type c \<longrightarrow>
        find_condition (SetStatusCondition K cs c w) ty = find_condition cs ty) \<and>
     (\<forall>cs c w c0. find_condition cs (co_Type c) = Some c0 \<and> same_content c0 c \<longrightarrow>
        SetStatusCondition K cs c w = cs)"

text \<open>
  Reads of a secret: the views stay, what is read is what is stored, and an object that is
  not found is not there.
\<close>

definition read_laws :: "'w kube \<Rightarrow> 'w kube_view \<Rightarrow> bool" where
  "read_laws K V \<longleftrightarrow>
     (\<forall>k w r w1. GetSecret K k w = (r, w1) \<longrightarrow>
        view_ar V w1 = view_ar V w \<and> view_secret V w1 = view_secret V w \<and>
        (\<forall>s. r = Inr s \<longrightarrow> view_secret V w k = Some s \<and> sec_key s = k) \<and>
        (\<forall>e. r = Inl e \<and> IsNotFound K e \<longrightarrow> view_secret V w k = None))"

text \<open>
  Writes of a secret: a successful create or update stores an object with the type, labels,
  annotations and data it was given; a delete that succeeds, or finds nothing, leaves no
  object at the key; nothing else changes.
\<close>

definition stored_as :: "secret \<Rightarrow> secret \<Rightarrow> bool" where
  "stored_as s s' \<longleftrightarrow>
     sec_key s' = sec_key s \<and> sec_Type s' = sec_Type s \<and> sec_Labels s' = sec_Labels s \<and>
     sec_Annotations s' = sec_Annotations s \<and> sec_Data s' = sec_Data s"

definition secret_write_laws :: "'w kube \<Rightarrow> 'w kube_view \<Rightarrow> bool" where
  "secret_write_laws K V \<longleftrightarrow>
     (\<forall>s w w1. CreateSecret K s w = (None, w1) \<or> UpdateSecret K s w = (None, w1) \<longrightarrow>
        view_ar V w1 = view_ar V w \<and>
        (\<exists>s'. stored_as s s' \<and> view_secret V w1 = (view_secret V w)(sec_key s \<mapsto> s'))) \<and>
     (\<forall>s w r w1. DeleteSecret K s w = (r, w1) \<and> (case r of None \<Rightarrow> True | Some e \<Rightarrow> IsNotFound K e) \<longrightarrow>
        view_ar V w1 = view_ar V w \<and> view_secret V w1 = (view_secret V w)(sec_key s := None))"

text \<open>
  controllerutil.SetControllerReference and metav1.IsControlledBy: a reference that could be
  set makes the object controlled by the owner and leaves its content alone.
\<close>

definition owner_laws :: "'w kube \<Rightarrow> bool" where
  "owner_laws K \<longleftrightarrow>
     (\<forall>ar s s'. SetControllerReference K ar s = Inr s' \<longrightarrow> stored_as s s' \<and> IsControlledBy K s' ar)"

text \<open>
  equality.Semantic.DeepEqual on secrets: equal objects hold the same type, labels,
  annotations and data, a nil map counting as an empty one; an object equals itself and its
  copy with empty maps for nil ones.
\<close>

definition some_map :: "(string \<rightharpoonup> 'v) option \<Rightarrow> (string \<rightharpoonup> 'v)" where
  "some_map m = (case m of None \<Rightarrow> Map.empty | Some f \<Rightarrow> f)"

lemma some_map_simps [simp]: "some_map None = Map.empty" "some_map (Some f) = f"
  by (simp_all add: some_map_def)

definition sec_norm :: "secret \<Rightarrow> secret" where
  "sec_norm s = s\<lparr>sec_Labels := Some (some_map (sec_Labels s)),
                  sec_Annotations := Some (some_map (sec_Annotations s)),
                  sec_Data := Some (some_map (sec_Data s))\<rparr>"

definition secret_equal_law :: "'w kube \<Rightarrow> bool" where
  "secret_equal_law K \<longleftrightarrow> (\<forall>a b. SecretDeepEqual K a b \<longleftrightarrow> sec_norm a = sec_norm b)"

text \<open>controllerutil's finalizer functions.\<close>

definition finalizer_laws :: "'w kube \<Rightarrow> bool" where
  "finalizer_laws K \<longleftrightarrow>
     (\<forall>ar f. ContainsFinalizer K ar f \<longleftrightarrow> f \<in> set (ar_Finalizers ar)) \<and>
     (\<forall>ar f. AddFinalizer K ar f =
        (if f \<in> set (ar_Finalizers ar) then (False, ar)
         else (True, ar\<lparr>ar_Finalizers := ar_Finalizers ar @ [f]\<rparr>))) \<and>
     (\<forall>ar f. RemoveFinalizer K ar f =
        (f \<in> set (ar_Finalizers ar), ar\<lparr>ar_Finalizers := filter (\<lambda>g. g \<noteq> f) (ar_Finalizers ar)\<rparr>))"

text \<open>
  Reads and updates of an AuthRegistration: what is read is stored, an object that is not
  found is not there; a successful update stores the metadata and the specification it was
  given and answers with the object. An object that is being deleted disappears with its last
  finalizer.
\<close>

definition ar_laws :: "'w kube \<Rightarrow> 'w kube_view \<Rightarrow> bool" where
  "ar_laws K V \<longleftrightarrow>
     (\<forall>k w r w1. GetAuthRegistration K k w = (r, w1) \<longrightarrow>
        view_ar V w1 = view_ar V w \<and> view_secret V w1 = view_secret V w \<and>
        (\<forall>ar. r = Inr ar \<longrightarrow> view_ar V w k = Some ar \<and> ar_key ar = k) \<and>
        (\<forall>e. r = Inl e \<and> IsNotFound K e \<longrightarrow> view_ar V w k = None)) \<and>
     (\<forall>ar w ar2 w1. UpdateAuthRegistration K ar w = (Inr ar2, w1) \<longrightarrow>
        view_ar V w1 = (view_ar V w)(ar_key ar :=
          if ar_DeletionTimestamp ar \<noteq> None \<and> ar_Finalizers ar = [] then None else Some ar2) \<and>
        view_secret V w1 = view_secret V w \<and> same_object ar ar2)"

text \<open>The laws as rules.\<close>

lemma read_lawsD:
  assumes "read_laws K V" "GetSecret K k w = (r, w1)"
  shows "view_ar V w1 = view_ar V w" "view_secret V w1 = view_secret V w"
    "r = Inr s \<Longrightarrow> view_secret V w k = Some s" "r = Inr s \<Longrightarrow> sec_key s = k"
    "r = Inl e \<Longrightarrow> IsNotFound K e \<Longrightarrow> view_secret V w k = None"
  using assms unfolding read_laws_def by blast+

lemma secret_write_lawsD:
  assumes "secret_write_laws K V" "CreateSecret K s w = (None, w1) \<or> UpdateSecret K s w = (None, w1)"
  shows "view_ar V w1 = view_ar V w"
    "\<exists>s'. stored_as s s' \<and> view_secret V w1 = (view_secret V w)(sec_key s \<mapsto> s')"
  using assms unfolding secret_write_laws_def by blast+

lemma secret_delete_lawsD:
  assumes "secret_write_laws K V" "DeleteSecret K s w = (r, w1)" "r = None \<or> (\<exists>e. r = Some e \<and> IsNotFound K e)"
  shows "view_ar V w1 = view_ar V w" "view_secret V w1 = (view_secret V w)(sec_key s := None)"
proof -
  have "case r of None \<Rightarrow> True | Some e \<Rightarrow> IsNotFound K e" using assms(3) by (cases r) auto
  then show "view_ar V w1 = view_ar V w" "view_secret V w1 = (view_secret V w)(sec_key s := None)"
    using assms(1,2) unfolding secret_write_laws_def by blast+
qed

lemma ar_laws_getD:
  assumes "ar_laws K V" "GetAuthRegistration K k w = (r, w1)"
  shows "view_ar V w1 = view_ar V w" "view_secret V w1 = view_secret V w"
    "r = Inr ar \<Longrightarrow> view_ar V w k = Some ar" "r = Inr ar \<Longrightarrow> ar_key ar = k"
    "r = Inl e \<Longrightarrow> IsNotFound K e \<Longrightarrow> view_ar V w k = None"
  using assms unfolding ar_laws_def by blast+

lemma ar_laws_updateD:
  assumes "ar_laws K V" "UpdateAuthRegistration K ar w = (Inr ar2, w1)"
  shows "view_ar V w1 = (view_ar V w)(ar_key ar :=
      if ar_DeletionTimestamp ar \<noteq> None \<and> ar_Finalizers ar = [] then None else Some ar2)"
    "view_secret V w1 = view_secret V w" "same_object ar ar2"
  using assms unfolding ar_laws_def by blast+

end
