(* ===== verification/Domain.thy ===== *)
theory Domain imports KubeApi begin

text \<open>
  internal/domain/registration.go: the registration the operator asks a backend for, the
  data a backend publishes, and the conversions between them and the Kubernetes objects.
\<close>

section \<open>Protocols and registrations\<close>

text \<open>Protocol is a Go string type: the three constants are not its only values.\<close>

type_synonym protocol = string

definition ProtocolCAS :: protocol where "ProtocolCAS = ''CAS''"
definition ProtocolOIDC :: protocol where "ProtocolOIDC = ''OIDC''"
definition ProtocolOAuth :: protocol where "ProtocolOAuth = ''OAUTH''"

lemmas protocol_defs [go_consts] = ProtocolCAS_def ProtocolOIDC_def ProtocolOAuth_def

lemma protocols_distinct [simp]:
  "ProtocolCAS \<noteq> ProtocolOIDC" "ProtocolOIDC \<noteq> ProtocolCAS" "ProtocolCAS \<noteq> ProtocolOAuth"
  "ProtocolOAuth \<noteq> ProtocolCAS" "ProtocolOIDC \<noteq> ProtocolOAuth" "ProtocolOAuth \<noteq> ProtocolOIDC"
  by (simp_all add: protocol_defs)

record Registration =
  reg_Protocol :: protocol
  reg_Consumer :: string
  reg_LogoutURL :: string
  reg_Params :: "string \<rightharpoonup> string"

type_synonym RegistrationData = "string \<rightharpoonup> bytes"

text \<open>A lookup in a Go map: the zero value for a missing key.\<close>

definition map_get :: "(string \<rightharpoonup> string) \<Rightarrow> string \<Rightarrow> string" where
  "map_get m k = (case m k of None \<Rightarrow> [] | Some v \<Rightarrow> v)"

lemma map_get_simps [simp]:
  "map_get (m(k \<mapsto> v)) k' = (if k' = k then v else map_get m k')"
  "map_get Map.empty k' = []"
  by (auto simp: map_get_def)

text \<open>The method ClientSecret: the published secret and whether the protocol has one.\<close>

definition ClientSecret :: "RegistrationData \<Rightarrow> protocol \<Rightarrow> string \<times> bool" where
  "ClientSecret rd p =
     (if p = ProtocolOIDC then (TrimSpace (map_get rd ''oidc_client_secret''), True)
      else if p = ProtocolOAuth then (TrimSpace (map_get rd ''oauth_client_secret''), True)
      else ([], False))"

section \<open>Results\<close>

record OIDCResult =
  oidc_ClientID :: string
  oidc_ClientSecret :: string
  oidc_IssuerURL :: string

record OAuthResult =
  oauth_ClientID :: string
  oauth_ClientSecret :: string
  oauth_AuthURL :: string
  oauth_TokenURL :: string

record CASResult =
  cas_ServiceID :: string

record RegistrationResult =
  rr_Protocol :: protocol
  rr_RegistrationID :: string
  rr_OIDC :: "OIDCResult option"
  rr_OAuth :: "OAuthResult option"
  rr_CAS :: "CASResult option"

definition GetRegistrationData :: "RegistrationResult \<Rightarrow> RegistrationData" where
  "GetRegistrationData rr =
     (if rr_Protocol rr = ProtocolCAS \<and> rr_CAS rr \<noteq> None then
        [''cas_client_id'' \<mapsto> cas_ServiceID (the (rr_CAS rr))]
      else if rr_Protocol rr = ProtocolOIDC \<and> rr_OIDC rr \<noteq> None then
        [''oidc_client_id'' \<mapsto> oidc_ClientID (the (rr_OIDC rr)),
         ''oidc_client_secret'' \<mapsto> oidc_ClientSecret (the (rr_OIDC rr)),
         ''oidc_issuer_url'' \<mapsto> oidc_IssuerURL (the (rr_OIDC rr))]
      else if rr_Protocol rr = ProtocolOAuth \<and> rr_OAuth rr \<noteq> None then
        [''oauth'' \<mapsto> oauth_ClientID (the (rr_OAuth rr)),
         ''oauth_client_secret'' \<mapsto> oauth_ClientSecret (the (rr_OAuth rr)),
         ''oauth_auth_url'' \<mapsto> oauth_AuthURL (the (rr_OAuth rr)),
         ''oauth_token_url'' \<mapsto> oauth_TokenURL (the (rr_OAuth rr))]
      else Map.empty)"

definition FromAuthRegistration :: "authRegistration \<Rightarrow> Registration" where
  "FromAuthRegistration ar =
     (let logoutURL = (case spec_LogoutURL (ar_Spec ar) of None \<Rightarrow> [] | Some u \<Rightarrow> u)
      in \<lparr>reg_Protocol = spec_Protocol (ar_Spec ar),
          reg_Consumer = spec_Consumer (ar_Spec ar),
          reg_LogoutURL = logoutURL,
          reg_Params = spec_Params (ar_Spec ar)\<rparr>)"

lemma FromAuthRegistration_simps [simp]:
  "reg_Protocol (FromAuthRegistration ar) = spec_Protocol (ar_Spec ar)"
  "reg_Consumer (FromAuthRegistration ar) = spec_Consumer (ar_Spec ar)"
  "reg_Params (FromAuthRegistration ar) = spec_Params (ar_Spec ar)"
  by (simp_all add: FromAuthRegistration_def Let_def)

section \<open>Published data\<close>

text \<open>The registration reads the specification only: status and metadata do not matter.\<close>

lemma FromAuthRegistration_cong:
  "ar_Spec a = ar_Spec b \<Longrightarrow> FromAuthRegistration a = FromAuthRegistration b"
  by (simp add: FromAuthRegistration_def)

text \<open>The secret a result carries for its own protocol, if it has one.\<close>

definition result_secret :: "RegistrationResult \<Rightarrow> string option" where
  "result_secret rr =
     (if rr_Protocol rr = ProtocolOIDC then map_option oidc_ClientSecret (rr_OIDC rr)
      else if rr_Protocol rr = ProtocolOAuth then map_option oauth_ClientSecret (rr_OAuth rr)
      else None)"

text \<open>
  Published into any existing data (maps.Copy keeps what it does not overwrite), the secret
  of a result is what ClientSecret reads back for the result's protocol.
\<close>

lemma ClientSecret_published:
  assumes "result_secret rr = Some s"
  shows "ClientSecret (m ++ GetRegistrationData rr) (rr_Protocol rr) = (TrimSpace s, True)"
  using assms
  by (auto simp: result_secret_def GetRegistrationData_def ClientSecret_def split: if_splits)

text \<open>Data published for one of the two secret protocols holds no secret for the other.\<close>

lemma ClientSecret_other_protocol:
  assumes "p \<noteq> rr_Protocol rr" "p = ProtocolOIDC \<or> p = ProtocolOAuth"
  shows "ClientSecret (GetRegistrationData rr) p = ([], True)"
  using assms by (auto simp: GetRegistrationData_def ClientSecret_def)

lemma ClientSecret_supported: "snd (ClientSecret rd p) \<longleftrightarrow> p \<in> {ProtocolOIDC, ProtocolOAuth}"
  by (auto simp: ClientSecret_def)

lemma ClientSecret_trimmed: "TrimSpace (fst (ClientSecret rd p)) = fst (ClientSecret rd p)"
  by (simp add: ClientSecret_def)

lemma ClientSecret_reads:
  assumes "\<And>k. k \<in> {''oidc_client_secret'', ''oauth_client_secret''} \<Longrightarrow> m k = m' k"
  shows "ClientSecret m p = ClientSecret m' p"
  using assms by (simp add: ClientSecret_def map_get_def)

section \<open>Reading back what is published\<close>

text \<open>C24: A result published on top of existing data is read back: for its own protocol the client
  secret it carries, trimmed; for the other protocol, or when it carries none, whatever the
  data held before. Publishing one protocol never overwrites the secret of the other.\<close>

theorem published_data_read_back:
  "fst (ClientSecret (m ++ GetRegistrationData rr) p) =
     (case result_secret rr of
        Some s \<Rightarrow> if p = rr_Protocol rr then TrimSpace s else fst (ClientSecret m p)
      | None \<Rightarrow> fst (ClientSecret m p))"
  by (auto simp: result_secret_def GetRegistrationData_def ClientSecret_def map_get_def map_add_def)

end
