(* ===== verification/CtrlInterfaces.thy ===== *)
theory CtrlInterfaces imports Domain begin

text \<open>
  The Go interfaces of internal/controller (authregistration_controller.go): secretReconciler,
  statusPatcher and serviceRegistrationBackend, each a record of its methods. A status patcher
  works on the caller's object through a pointer, so its methods return the object as they
  leave it, also when they fail.
\<close>

section \<open>Interfaces\<close>

record 'w secretReconciler =
  sr_Reconcile :: "RegistrationResult \<Rightarrow> authRegistration \<Rightarrow> string \<Rightarrow> bool \<Rightarrow> ('w, go_error option) io"

text \<open>The error, if any, and the object the pointer now points to.\<close>

type_synonym 'w patch = "('w, go_error option \<times> authRegistration) io"

record 'w statusPatcher =
  sp_PatchResolvedSecretRef :: "authRegistration \<Rightarrow> string \<Rightarrow> 'w patch"
  sp_PatchInvalidSpec :: "authRegistration \<Rightarrow> go_error \<Rightarrow> 'w patch"
  sp_PatchSecretReconcileFailed :: "authRegistration \<Rightarrow> string \<Rightarrow> go_error \<Rightarrow> 'w patch"
  sp_PatchCredentialsPublished :: "authRegistration \<Rightarrow> 'w patch"
  sp_PatchRegistrationFailed :: "authRegistration \<Rightarrow> go_error \<Rightarrow> 'w patch"
  sp_PatchRegistrationSucceeded :: "authRegistration \<Rightarrow> 'w patch"

record 'w serviceRegistrationBackend =
  sb_Upsert :: "Registration \<Rightarrow> RegistrationData \<Rightarrow> ('w, RegistrationResult result) io"
  sb_Delete :: "Registration \<Rightarrow> ('w, go_error option) io"

definition defaultGeneratedSecretSuffix :: string where
  "defaultGeneratedSecretSuffix = ''-credentials''"
definition authRegistrationFinalizer :: string where
  "authRegistrationFinalizer = ''k8s.cloudogu.com/auth-registration-finalizer''"
definition authRegistrationSecretRefField :: string where
  "authRegistrationSecretRefField = ''k8s.cloudogu.com/auth-registration-secret-ref''"

text \<open>
  The secret an AuthRegistration resolves to: its name, and whether the controller manages
  it.
\<close>

definition resolveSecretName :: "authRegistration \<Rightarrow> (string \<times> bool) result" where
  "resolveSecretName ar =
     (case spec_SecretRef (ar_Spec ar) of
        None \<Rightarrow> Inr (ar_Name ar @ defaultGeneratedSecretSuffix, True)
      | Some ref \<Rightarrow>
          (let secretName = TrimSpace ref
           in if secretName = [] then Inl (Errorf ''spec.secretRef must not be empty'')
              else Inr (secretName, False)))"

lemma resolveSecretName_nonempty: "resolveSecretName ar = Inr (n, managed) \<Longrightarrow> n \<noteq> []"
  by (auto simp: resolveSecretName_def defaultGeneratedSecretSuffix_def Let_def
      split: option.splits if_splits)

section \<open>Contracts\<close>

text \<open>
  The contract of a status patcher, for an object the caller holds in the state the server
  stores it (\<open>synced\<close>): a patch that returns no error leaves it so, changes nothing but the
  status, and of the status exactly what its name says. What else there is in the world,
  \<open>frame\<close>, stays.
\<close>

definition has_condition :: "authRegistration \<Rightarrow> string \<Rightarrow> string \<Rightarrow> bool" where
  "has_condition ar ty st \<longleftrightarrow>
     (\<exists>c. find_condition (st_Conditions (ar_Status ar)) ty = Some c \<and> co_Status c = st \<and>
          co_ObservedGeneration c = ar_Generation ar)"

definition ConditionCredentialsPublished :: string where
  "ConditionCredentialsPublished = ''CredentialsPublished''"
definition ConditionCompleted :: string where "ConditionCompleted = ''Completed''"
definition ConditionTrue :: string where "ConditionTrue = ''True''"
definition ConditionFalse :: string where "ConditionFalse = ''False''"

lemma condition_types_distinct [simp]:
  "ConditionCredentialsPublished \<noteq> ConditionCompleted" "ConditionCompleted \<noteq> ConditionCredentialsPublished"
  "ConditionCredentialsPublished \<noteq> []" "ConditionCompleted \<noteq> []"
  by (simp_all add: ConditionCredentialsPublished_def ConditionCompleted_def)

text \<open>The patches of one condition: they set it and leave the rest of the status.\<close>

definition sets_condition ::
    "(authRegistration \<Rightarrow> 'w \<Rightarrow> bool) \<Rightarrow> ('w \<Rightarrow> 'f) \<Rightarrow> 'w patch \<Rightarrow> authRegistration \<Rightarrow> string \<Rightarrow> string \<Rightarrow> bool" where
  "sets_condition synced frame p ar ty st \<longleftrightarrow>
     (\<forall>w ar' w'. synced ar w \<and> p w = ((None, ar'), w') \<longrightarrow>
        synced ar' w' \<and> frame w' = frame w \<and> same_object ar ar' \<and> has_condition ar' ty st \<and>
        st_ResolvedSecretRef (ar_Status ar') = st_ResolvedSecretRef (ar_Status ar) \<and>
        (\<forall>ty'. ty' \<noteq> ty \<longrightarrow>
           find_condition (st_Conditions (ar_Status ar')) ty' = find_condition (st_Conditions (ar_Status ar)) ty'))"

locale status_patcher =
  fixes P :: "'w statusPatcher"
    and synced :: "authRegistration \<Rightarrow> 'w \<Rightarrow> bool"
    and frame :: "'w \<Rightarrow> 'f"
  assumes resolved_ref:
      "synced ar w \<Longrightarrow> sp_PatchResolvedSecretRef P ar n w = ((None, ar'), w') \<Longrightarrow>
         synced ar' w' \<and> frame w' = frame w \<and> same_object ar ar' \<and>
         ar_Status ar' = (ar_Status ar)\<lparr>st_ResolvedSecretRef := n\<rparr>"
    and credentials_published:
      "sets_condition synced frame (sp_PatchCredentialsPublished P ar) ar ConditionCredentialsPublished ConditionTrue"
    and registration_failed:
      "sets_condition synced frame (sp_PatchRegistrationFailed P ar e) ar ConditionCompleted ConditionFalse"
    and registration_succeeded:
      "sets_condition synced frame (sp_PatchRegistrationSucceeded P ar) ar ConditionCompleted ConditionTrue"
begin

text \<open>The two patches that end a successful reconciliation, one after the other.\<close>

lemma both_conditions:
  assumes "synced ar w"
    and "sp_PatchCredentialsPublished P ar w = ((None, ar1), w1)"
    and "sp_PatchRegistrationSucceeded P ar1 w1 = ((None, ar2), w2)"
  shows "synced ar2 w2" "frame w2 = frame w" "same_object ar ar2"
    "has_condition ar2 ConditionCredentialsPublished ConditionTrue"
    "has_condition ar2 ConditionCompleted ConditionTrue"
    "st_ResolvedSecretRef (ar_Status ar2) = st_ResolvedSecretRef (ar_Status ar)"
proof -
  have 1: "synced ar1 w1 \<and> frame w1 = frame w \<and> same_object ar ar1 \<and>
      has_condition ar1 ConditionCredentialsPublished ConditionTrue \<and>
      st_ResolvedSecretRef (ar_Status ar1) = st_ResolvedSecretRef (ar_Status ar)"
    using credentials_published [of ar] assms(1,2) unfolding sets_condition_def by blast
  then have 2: "synced ar2 w2 \<and> frame w2 = frame w1 \<and> same_object ar1 ar2 \<and> has_condition ar2 ConditionCompleted ConditionTrue \<and>
      st_ResolvedSecretRef (ar_Status ar2) = st_ResolvedSecretRef (ar_Status ar1) \<and>
      find_condition (st_Conditions (ar_Status ar2)) ConditionCredentialsPublished =
        find_condition (st_Conditions (ar_Status ar1)) ConditionCredentialsPublished"
    using registration_succeeded [of ar1] assms(3) unfolding sets_condition_def
    by (metis condition_types_distinct(1))
  from 1 2 show "synced ar2 w2" "frame w2 = frame w" "has_condition ar2 ConditionCompleted ConditionTrue"
    "st_ResolvedSecretRef (ar_Status ar2) = st_ResolvedSecretRef (ar_Status ar)" by simp_all
  from 1 2 show "same_object ar ar2" by (blast intro: same_object_trans)
  from 1 2 show "has_condition ar2 ConditionCredentialsPublished ConditionTrue"
    by (simp add: has_condition_def same_object_def)
qed

end

text \<open>
  The contract of a secret reconciler: from a \<open>good\<close> world, a run that returns no error ends
  in a good world in which the secret holds the published data, and it leaves the objects
  the caller holds as they are stored.
\<close>

locale secret_reconciler =
  fixes S :: "'w secretReconciler"
    and good :: "'w \<Rightarrow> bool"
    and holds :: "'w \<Rightarrow> namespacedName \<Rightarrow> RegistrationData \<Rightarrow> bool"
    and kept :: "'w \<Rightarrow> 'w \<Rightarrow> bool"
  assumes reconciled:
    "good w \<Longrightarrow> sr_Reconcile S rr ar n managed w = (None, w') \<Longrightarrow>
       good w' \<and> kept w w' \<and> holds w' \<lparr>nn_Namespace = ar_Namespace ar, nn_Name = n\<rparr> (GetRegistrationData rr)"

text \<open>
  The contract of a backend: it serves valid registrations only, answers for the protocol it
  was asked for, gives back a client secret that is already published, and keeps what \<open>inv\<close>
  says of the rest of the world.
\<close>

definition supportedProtocols :: "protocol set" where
  "supportedProtocols = {ProtocolCAS, ProtocolOIDC, ProtocolOAuth}"

definition valid_registration :: "Registration \<Rightarrow> bool" where
  "valid_registration reg \<longleftrightarrow>
     TrimSpace (reg_Consumer reg) \<noteq> [] \<and> reg_Protocol reg \<in> supportedProtocols"

locale service_backend =
  fixes B :: "'w serviceRegistrationBackend"
    and inv :: "'w \<Rightarrow> bool"
  assumes upsert_inv: "inv w \<Longrightarrow> inv (snd (sb_Upsert B reg d w))"
    and delete_inv: "inv w \<Longrightarrow> inv (snd (sb_Delete B reg w))"
    and upsert_valid: "sb_Upsert B reg d w = (Inr rr, w') \<Longrightarrow> valid_registration reg"
    and upsert_protocol: "sb_Upsert B reg d w = (Inr rr, w') \<Longrightarrow> rr_Protocol rr = reg_Protocol reg"
    and upsert_secret:
      "sb_Upsert B reg d w = (Inr rr, w') \<Longrightarrow> fst (ClientSecret d (reg_Protocol reg)) \<noteq> [] \<Longrightarrow>
         result_secret rr = Some (fst (ClientSecret d (reg_Protocol reg)))"
begin

text \<open>What was published once is published again.\<close>

lemma upsert_republishes:
  assumes "sb_Upsert B reg d w = (Inr rr, w')" "fst (ClientSecret d (reg_Protocol reg)) \<noteq> []"
  shows "ClientSecret (d ++ GetRegistrationData rr) (reg_Protocol reg) = ClientSecret d (reg_Protocol reg)"
proof -
  have "ClientSecret (d ++ GetRegistrationData rr) (rr_Protocol rr) =
      (TrimSpace (fst (ClientSecret d (reg_Protocol reg))), True)"
    using upsert_secret [OF assms] by (rule ClientSecret_published)
  moreover have "snd (ClientSecret d (reg_Protocol reg))"
    using assms(2) by (auto simp: ClientSecret_def split: if_splits)
  ultimately show ?thesis
    using upsert_protocol [OF assms(1)] by (simp add: ClientSecret_trimmed prod_eq_iff)
qed

end

end
