(* ===== verification/CasTypes.thy ===== *)
theory CasTypes imports GoJson begin

text \<open>
  internal/registration/cas/types.go: the service records of the CAS registry and their JSON
  form. CAS writes a Java collection as a pair of its class name and its values; the
  decoders also accept plain arrays. A Go map is a finite map; a pointer is an option.
\<close>

section \<open>Records\<close>

definition javaCollectionWrapperLength :: nat where "javaCollectionWrapperLength = 2"
definition classJSONKey :: string where "classJSONKey = ''@class''"
definition casRegisteredServiceClass :: string where
  "casRegisteredServiceClass = ''org.apereo.cas.services.CasRegisteredService''"
definition oidcRegisteredServiceClass :: string where
  "oidcRegisteredServiceClass = ''org.apereo.cas.services.OidcRegisteredService''"
definition oauthRegisteredServiceClass :: string where
  "oauthRegisteredServiceClass = ''org.apereo.cas.support.oauth.services.OAuthRegisteredService''"
definition hashMapClass :: string where "hashMapClass = ''java.util.HashMap''"
definition hashSetClass :: string where "hashSetClass = ''java.util.HashSet''"
definition linkedHashSetClass :: string where "linkedHashSetClass = ''java.util.LinkedHashSet''"
definition servicePropertyClass :: string where
  "servicePropertyClass = ''org.apereo.cas.services.DefaultRegisteredServiceProperty''"

lemmas cas_class_defs [go_consts] =
  classJSONKey_def casRegisteredServiceClass_def oidcRegisteredServiceClass_def
  oauthRegisteredServiceClass_def hashMapClass_def hashSetClass_def linkedHashSetClass_def
  servicePropertyClass_def

text \<open>The values of a collection: a nil slice is \<open>None\<close>.\<close>

record StringCollection =
  sc_Class :: string
  sc_Values :: "string list option"

record RegisteredServiceProperty =
  rsp_Class :: string
  rsp_Values :: StringCollection

record RegisteredServiceProperties =
  rsps_Class :: string
  rsps_Entries :: "(string, RegisteredServiceProperty) fmap"

record RegisteredService =
  rs_Class :: string
  rs_ID :: int64
  rs_TemplateName :: string
  rs_Name :: string
  rs_ServiceID :: string
  rs_LogoutURL :: string
  rs_Properties :: "RegisteredServiceProperties option"
  rs_ClientID :: string
  rs_ClientSecret :: string
  rs_Scopes :: "StringCollection option"
  rs_SupportedGrantTypes :: "StringCollection option"
  rs_SupportedResponseTypes :: "StringCollection option"
  rs_Audience :: "StringCollection option"

text \<open>The zero values of the Go types.\<close>

definition zero_StringCollection :: StringCollection where
  "zero_StringCollection = \<lparr>sc_Class = [], sc_Values = None\<rparr>"

definition zero_RegisteredServiceProperty :: RegisteredServiceProperty where
  "zero_RegisteredServiceProperty = \<lparr>rsp_Class = [], rsp_Values = zero_StringCollection\<rparr>"

definition zero_RegisteredService :: RegisteredService where
  "zero_RegisteredService =
     \<lparr>rs_Class = [], rs_ID = 0, rs_TemplateName = [], rs_Name = [], rs_ServiceID = [],
      rs_LogoutURL = [], rs_Properties = None, rs_ClientID = [], rs_ClientSecret = [],
      rs_Scopes = None, rs_SupportedGrantTypes = None, rs_SupportedResponseTypes = None,
      rs_Audience = None\<rparr>"

section \<open>Constructors and access\<close>

definition NewRegisteredServiceProperties :: RegisteredServiceProperties where
  "NewRegisteredServiceProperties = \<lparr>rsps_Class = hashMapClass, rsps_Entries = fmempty\<rparr>"

text \<open>Variadic values: no argument is a nil slice.\<close>

definition NewStringCollection :: "string \<Rightarrow> string list \<Rightarrow> StringCollection" where
  "NewStringCollection cl vs = \<lparr>sc_Class = cl, sc_Values = (if vs = [] then None else Some vs)\<rparr>"

definition NewRegisteredServiceProperty :: "string list \<Rightarrow> RegisteredServiceProperty" where
  "NewRegisteredServiceProperty vs =
     \<lparr>rsp_Class = servicePropertyClass, rsp_Values = NewStringCollection linkedHashSetClass vs\<rparr>"

definition GetFirstValue :: "RegisteredServiceProperties option \<Rightarrow> string \<Rightarrow> string" where
  "GetFirstValue p key =
     (case p of
        None \<Rightarrow> []
      | Some ps \<Rightarrow>
          (case fmlookup (rsps_Entries ps) key of
             None \<Rightarrow> []
           | Some property \<Rightarrow>
               (case sc_Values (rsp_Values property) of
                  None \<Rightarrow> []
                | Some [] \<Rightarrow> []
                | Some (v # vs) \<Rightarrow> v)))"

section \<open>Encoding\<close>

definition strings_json :: "string list option \<Rightarrow> json" where
  "strings_json vs = (case vs of None \<Rightarrow> JNull | Some xs \<Rightarrow> JArr (map JStr xs))"

definition StringCollection_MarshalJSON :: "StringCollection \<Rightarrow> json" where
  "StringCollection_MarshalJSON c =
     (let cl = (if sc_Class c = [] then hashSetClass else sc_Class c)
      in JArr [JStr cl, strings_json (sc_Values c)])"

text \<open>A property is a plain struct: both fields are always written.\<close>

definition RegisteredServiceProperty_json :: "RegisteredServiceProperty \<Rightarrow> json" where
  "RegisteredServiceProperty_json p =
     JObj [(''@class'', JStr (rsp_Class p)), (''values'', StringCollection_MarshalJSON (rsp_Values p))]"

text \<open>The payload map: the class first, the entries over it; Go prints a map in key order.\<close>

definition RegisteredServiceProperties_MarshalJSON :: "RegisteredServiceProperties \<Rightarrow> json" where
  "RegisteredServiceProperties_MarshalJSON p =
     (let payload = fmupd classJSONKey (JStr (rsps_Class p)) fmempty
                      ++\<^sub>f fmmap RegisteredServiceProperty_json (rsps_Entries p)
      in JObj (sorted_list_of_fmap payload))"

text \<open>The fields of RegisteredService in their order, with omitempty.\<close>

definition keep_string :: "string \<Rightarrow> string \<Rightarrow> (string \<times> json) list" where
  "keep_string name s = [(name, JStr s)]"

definition omit_int64 :: "string \<Rightarrow> int64 \<Rightarrow> (string \<times> json) list" where
  "omit_int64 name i = (if i = 0 then [] else [(name, JNum (show_int64 i))])"

definition omit_string :: "string \<Rightarrow> string \<Rightarrow> (string \<times> json) list" where
  "omit_string name s = (if s = [] then [] else [(name, JStr s)])"

definition omit_nil :: "string \<Rightarrow> ('a \<Rightarrow> json) \<Rightarrow> 'a option \<Rightarrow> (string \<times> json) list" where
  "omit_nil name f p = (case p of None \<Rightarrow> [] | Some x \<Rightarrow> [(name, f x)])"

definition RegisteredService_members :: "RegisteredService \<Rightarrow> (string \<times> json) list" where
  "RegisteredService_members s =
     keep_string ''@class'' (rs_Class s) @
     omit_int64 ''id'' (rs_ID s) @
     omit_string ''templateName'' (rs_TemplateName s) @
     omit_string ''name'' (rs_Name s) @
     omit_string ''serviceId'' (rs_ServiceID s) @
     omit_string ''logoutUrl'' (rs_LogoutURL s) @
     omit_nil ''properties'' RegisteredServiceProperties_MarshalJSON (rs_Properties s) @
     omit_string ''clientId'' (rs_ClientID s) @
     omit_string ''clientSecret'' (rs_ClientSecret s) @
     omit_nil ''scopes'' StringCollection_MarshalJSON (rs_Scopes s) @
     omit_nil ''supportedGrantTypes'' StringCollection_MarshalJSON (rs_SupportedGrantTypes s) @
     omit_nil ''supportedResponseTypes'' StringCollection_MarshalJSON (rs_SupportedResponseTypes s) @
     omit_nil ''audience'' StringCollection_MarshalJSON (rs_Audience s)"

definition RegisteredService_json :: "RegisteredService \<Rightarrow> json" where
  "RegisteredService_json s = JObj (RegisteredService_members s)"

section \<open>Decoding collections and properties\<close>

text \<open>
  The wrapper: not one (\<open>Inr None\<close>), one whose values do not decode (an error), or one. A
  \<open>null\<close> in place of the class name leaves the class empty.
\<close>

definition unmarshalStringCollectionWrapper :: "json \<Rightarrow> StringCollection option result" where
  "unmarshalStringCollectionWrapper data =
     (case unmarshal_raw_list data of
        Inl e \<Rightarrow> Inr None
      | Inr wrapper \<Rightarrow>
          if length wrapper \<noteq> javaCollectionWrapperLength then Inr None
          else
            (case unmarshal_string [] (wrapper ! 0) of
               Inl e \<Rightarrow> Inr None
             | Inr cl \<Rightarrow>
                 (case unmarshal_strings (wrapper ! 1) of
                    Inl e \<Rightarrow> Inl e
                  | Inr vs \<Rightarrow> Inr (Some \<lparr>sc_Class = cl, sc_Values = vs\<rparr>))))"

definition StringCollection_UnmarshalJSON :: "json \<Rightarrow> StringCollection result" where
  "StringCollection_UnmarshalJSON data =
     (if data = JNull then Inr zero_StringCollection
      else
        (case unmarshalStringCollectionWrapper data of
           Inl e \<Rightarrow> Inl e
         | Inr (Some wrapper) \<Rightarrow> Inr wrapper
         | Inr None \<Rightarrow>
             (case unmarshal_strings data of
                Inl e \<Rightarrow> Inl e
              | Inr vs \<Rightarrow> Inr \<lparr>sc_Class = hashSetClass, sc_Values = vs\<rparr>)))"

text \<open>A field of pointer type: \<open>null\<close> makes it nil.\<close>

definition unmarshal_pointer :: "(json \<Rightarrow> 'a result) \<Rightarrow> json \<Rightarrow> 'a option result" where
  "unmarshal_pointer f j =
     (if j = JNull then Inr None else case f j of Inl e \<Rightarrow> Inl e | Inr x \<Rightarrow> Inr (Some x))"

text \<open>Storing one field of a struct.\<close>

definition set_field :: "('s \<Rightarrow> 'a \<Rightarrow> 's) \<Rightarrow> 's \<Rightarrow> 'a result \<Rightarrow> 's result" where
  "set_field upd s r = (case r of Inl e \<Rightarrow> Inl e | Inr x \<Rightarrow> Inr (upd s x))"

definition RegisteredServiceProperty_field ::
    "RegisteredServiceProperty \<Rightarrow> string \<Rightarrow> json \<Rightarrow> RegisteredServiceProperty result" where
  "RegisteredServiceProperty_field p k j =
     (if names_field k ''@class'' then
        set_field (\<lambda>p x. p\<lparr>rsp_Class := x\<rparr>) p (unmarshal_string (rsp_Class p) j)
      else if names_field k ''values'' then
        set_field (\<lambda>p x. p\<lparr>rsp_Values := x\<rparr>) p (StringCollection_UnmarshalJSON j)
      else Inr p)"

definition unmarshal_property :: "json \<Rightarrow> RegisteredServiceProperty result" where
  "unmarshal_property j =
     unmarshal_struct ''cas.RegisteredServiceProperty'' RegisteredServiceProperty_field
       zero_RegisteredServiceProperty j"

text \<open>
  The loop over the remaining keys. Go visits them in no fixed order; the result does not
  depend on it, and the error, if several entries fail, is that of some failing entry.
\<close>

fun unmarshal_entries ::
    "(string \<times> json) list \<Rightarrow> (string, RegisteredServiceProperty) fmap \<Rightarrow>
     (string, RegisteredServiceProperty) fmap result" where
  "unmarshal_entries [] es = Inr es"
| "unmarshal_entries ((key, val) # rest) es =
     (case unmarshal_property val of
        Inl e \<Rightarrow> Inl (Wrapf (''failed to unmarshal property '' @ quote key @ '': '') e)
      | Inr property \<Rightarrow> unmarshal_entries rest (fmupd key property es))"

definition RegisteredServiceProperties_UnmarshalJSON :: "json \<Rightarrow> RegisteredServiceProperties result" where
  "RegisteredServiceProperties_UnmarshalJSON data =
     (case unmarshal_raw_map data of
        Inl e \<Rightarrow> Inl e
      | Inr raw \<Rightarrow>
          (case (case fmlookup raw classJSONKey of
                   None \<Rightarrow> Inr hashMapClass
                 | Some cl \<Rightarrow> unmarshal_string hashMapClass cl) of
             Inl e \<Rightarrow> Inl e
           | Inr cl \<Rightarrow>
               (case unmarshal_entries (sorted_list_of_fmap (fmdrop classJSONKey raw)) fmempty of
                  Inl e \<Rightarrow> Inl e
                | Inr es \<Rightarrow> Inr \<lparr>rsps_Class = cl, rsps_Entries = es\<rparr>)))"

section \<open>Decoding services\<close>

definition RegisteredService_field :: "RegisteredService \<Rightarrow> string \<Rightarrow> json \<Rightarrow> RegisteredService result" where
  "RegisteredService_field s k j =
     (if names_field k ''@class'' then
        set_field (\<lambda>s x. s\<lparr>rs_Class := x\<rparr>) s (unmarshal_string (rs_Class s) j)
      else if names_field k ''id'' then
        set_field (\<lambda>s x. s\<lparr>rs_ID := x\<rparr>) s (unmarshal_int64 (rs_ID s) j)
      else if names_field k ''templateName'' then
        set_field (\<lambda>s x. s\<lparr>rs_TemplateName := x\<rparr>) s (unmarshal_string (rs_TemplateName s) j)
      else if names_field k ''name'' then
        set_field (\<lambda>s x. s\<lparr>rs_Name := x\<rparr>) s (unmarshal_string (rs_Name s) j)
      else if names_field k ''serviceId'' then
        set_field (\<lambda>s x. s\<lparr>rs_ServiceID := x\<rparr>) s (unmarshal_string (rs_ServiceID s) j)
      else if names_field k ''logoutUrl'' then
        set_field (\<lambda>s x. s\<lparr>rs_LogoutURL := x\<rparr>) s (unmarshal_string (rs_LogoutURL s) j)
      else if names_field k ''properties'' then
        set_field (\<lambda>s x. s\<lparr>rs_Properties := x\<rparr>) s
          (unmarshal_pointer RegisteredServiceProperties_UnmarshalJSON j)
      else if names_field k ''clientId'' then
        set_field (\<lambda>s x. s\<lparr>rs_ClientID := x\<rparr>) s (unmarshal_string (rs_ClientID s) j)
      else if names_field k ''clientSecret'' then
        set_field (\<lambda>s x. s\<lparr>rs_ClientSecret := x\<rparr>) s (unmarshal_string (rs_ClientSecret s) j)
      else if names_field k ''scopes'' then
        set_field (\<lambda>s x. s\<lparr>rs_Scopes := x\<rparr>) s (unmarshal_pointer StringCollection_UnmarshalJSON j)
      else if names_field k ''supportedGrantTypes'' then
        set_field (\<lambda>s x. s\<lparr>rs_SupportedGrantTypes := x\<rparr>) s
          (unmarshal_pointer StringCollection_UnmarshalJSON j)
      else if names_field k ''supportedResponseTypes'' then
        set_field (\<lambda>s x. s\<lparr>rs_SupportedResponseTypes := x\<rparr>) s
          (unmarshal_pointer StringCollection_UnmarshalJSON j)
      else if names_field k ''audience'' then
        set_field (\<lambda>s x. s\<lparr>rs_Audience := x\<rparr>) s (unmarshal_pointer StringCollection_UnmarshalJSON j)
      else Inr s)"

definition unmarshal_service :: "RegisteredService \<Rightarrow> json \<Rightarrow> RegisteredService result" where
  "unmarshal_service old j = unmarshal_struct ''cas.RegisteredService'' RegisteredService_field old j"

text \<open>
  A target \<open>[]RegisteredService\<close>: the elements it already has are decoded into again, further
  ones into zero values.
\<close>

fun unmarshal_service_elems :: "RegisteredService list \<Rightarrow> json list \<Rightarrow> RegisteredService list result" where
  "unmarshal_service_elems old [] = Inr []"
| "unmarshal_service_elems old (j # js) =
     (case unmarshal_service (case old of [] \<Rightarrow> zero_RegisteredService | o1 # os \<Rightarrow> o1) j of
        Inl e \<Rightarrow> Inl e
      | Inr s \<Rightarrow>
          (case unmarshal_service_elems (drop 1 old) js of Inl e \<Rightarrow> Inl e | Inr ss \<Rightarrow> Inr (s # ss)))"

fun unmarshal_services ::
    "RegisteredService list option \<Rightarrow> json \<Rightarrow> RegisteredService list option result" where
  "unmarshal_services old (JArr js) =
     (case unmarshal_service_elems (case old of None \<Rightarrow> [] | Some xs \<Rightarrow> xs) js of
        Inl e \<Rightarrow> Inl e | Inr ss \<Rightarrow> Inr (Some ss))"
| "unmarshal_services old JNull = Inr None"
| "unmarshal_services old j = Inl (type_error j ''[]cas.RegisteredService'')"

definition unmarshalRegisteredServicesWrapper :: "json \<Rightarrow> RegisteredService list option option result" where
  "unmarshalRegisteredServicesWrapper data =
     (case unmarshal_raw_list data of
        Inl e \<Rightarrow> Inr None
      | Inr wrapper \<Rightarrow>
          if length wrapper \<noteq> javaCollectionWrapperLength then Inr None
          else
            (case unmarshal_string [] (wrapper ! 0) of
               Inl e \<Rightarrow> Inr None
             | Inr cl \<Rightarrow>
                 (case unmarshal_services None (wrapper ! 1) of
                    Inl e \<Rightarrow> Inl e
                  | Inr services \<Rightarrow> Inr (Some services))))"

text \<open>The struct \<open>response\<close> with the one field \<open>services\<close>.\<close>

definition response_field ::
    "RegisteredService list option \<Rightarrow> string \<Rightarrow> json \<Rightarrow> RegisteredService list option result" where
  "response_field old k j = (if names_field k ''services'' then unmarshal_services old j else Inr old)"

definition registeredServicesList_UnmarshalJSON :: "json \<Rightarrow> RegisteredService list option result" where
  "registeredServicesList_UnmarshalJSON data =
     (if data = JNull then Inr None
      else
        (case unmarshalRegisteredServicesWrapper data of
           Inl e \<Rightarrow> Inl e
         | Inr (Some services) \<Rightarrow> Inr services
         | Inr None \<Rightarrow>
             (case unmarshal_struct ''cas.response'' response_field None data of
                Inr (Some services) \<Rightarrow> Inr (Some services)
              | _ \<Rightarrow> unmarshal_services None data)))"

section \<open>Round trips\<close>

text \<open>What one encoding and decoding makes of a collection: an empty class is filled in.\<close>

definition sc_norm :: "StringCollection \<Rightarrow> StringCollection" where
  "sc_norm c = c\<lparr>sc_Class := (if sc_Class c = [] then hashSetClass else sc_Class c)\<rparr>"

definition rsp_norm :: "RegisteredServiceProperty \<Rightarrow> RegisteredServiceProperty" where
  "rsp_norm p = p\<lparr>rsp_Values := sc_norm (rsp_Values p)\<rparr>"

definition rsps_norm :: "RegisteredServiceProperties \<Rightarrow> RegisteredServiceProperties" where
  "rsps_norm p = p\<lparr>rsps_Entries := fmmap rsp_norm (rsps_Entries p)\<rparr>"

definition rs_norm :: "RegisteredService \<Rightarrow> RegisteredService" where
  "rs_norm s = s\<lparr>rs_Properties := map_option rsps_norm (rs_Properties s),
     rs_Scopes := map_option sc_norm (rs_Scopes s),
     rs_SupportedGrantTypes := map_option sc_norm (rs_SupportedGrantTypes s),
     rs_SupportedResponseTypes := map_option sc_norm (rs_SupportedResponseTypes s),
     rs_Audience := map_option sc_norm (rs_Audience s)\<rparr>"

text \<open>The field names, folded once and for all.\<close>

lemma fold_field_names [simp]:
  "fold_name ''@class'' = ''@class''" "fold_name ''values'' = ''values''"
  "fold_name ''id'' = ''id''" "fold_name ''templateName'' = ''templatename''"
  "fold_name ''name'' = ''name''" "fold_name ''serviceId'' = ''serviceid''"
  "fold_name ''logoutUrl'' = ''logouturl''" "fold_name ''properties'' = ''properties''"
  "fold_name ''clientId'' = ''clientid''" "fold_name ''clientSecret'' = ''clientsecret''"
  "fold_name ''scopes'' = ''scopes''"
  "fold_name ''supportedGrantTypes'' = ''supportedgranttypes''"
  "fold_name ''supportedResponseTypes'' = ''supportedresponsetypes''"
  "fold_name ''audience'' = ''audience''" "fold_name ''services'' = ''services''"
  by code_simp+

declare fold_name.simps [simp del]

lemma unmarshal_strings_json [simp]: "unmarshal_strings (strings_json vs) = Inr vs"
  by (cases vs) (simp_all add: strings_json_def map_result_all [where g = id] o_def)

lemma strings_json_not_null: "strings_json vs = JNull \<longleftrightarrow> vs = None"
  by (cases vs) (simp_all add: strings_json_def)

lemma StringCollection_not_null [simp]: "StringCollection_MarshalJSON c \<noteq> JNull"
  by (simp add: StringCollection_MarshalJSON_def Let_def)

lemma StringCollection_roundtrip [simp]:
  "StringCollection_UnmarshalJSON (StringCollection_MarshalJSON c) = Inr (sc_norm c)"
  by (simp add: StringCollection_UnmarshalJSON_def unmarshalStringCollectionWrapper_def
      StringCollection_MarshalJSON_def Let_def javaCollectionWrapperLength_def sc_norm_def)

lemma property_roundtrip [simp]:
  "unmarshal_property (RegisteredServiceProperty_json p) = Inr (rsp_norm p)"
  by (simp add: unmarshal_property_def RegisteredServiceProperty_json_def names_field_def
      RegisteredServiceProperty_field_def set_field_def zero_RegisteredServiceProperty_def rsp_norm_def)

lemma property_json_not_null [simp]: "RegisteredServiceProperty_json p \<noteq> JNull"
  by (simp add: RegisteredServiceProperty_json_def)

text \<open>Reading back a printed map: its sorted key-value list rebuilds it.\<close>

lemma fold_fmupd_distinct:
  "distinct (map fst ms) \<Longrightarrow> fold (\<lambda>(k, j) m. fmupd k j m) ms m0 = m0 ++\<^sub>f fmap_of_list ms"
proof (induction ms arbitrary: m0)
  case Nil
  then show ?case by simp
next
  case (Cons x ms)
  obtain k j where x: "x = (k, j)" by (cases x)
  with Cons.prems have "map_of ms k = None"
    by (simp add: map_of_eq_None_iff)
  then have "fmupd k j m0 ++\<^sub>f fmap_of_list ms = m0 ++\<^sub>f fmupd k j (fmap_of_list ms)"
    by (intro fmap_ext)
       (auto simp: fmlookup_of_list map_add_def map_of_eq_None_iff fset_of_list.rep_eq split: option.splits)
  with Cons x show ?case by simp
qed

lemma distinct_sorted_fset [simp]: "distinct (sorted_list_of_fset S)"
  by (simp add: sorted_list_of_fset.rep_eq)

lemma distinct_sorted_fmap: "distinct (map fst (sorted_list_of_fmap m))"
  by (simp add: sorted_list_of_fmap_def o_def)

lemma fmap_of_sorted_list [simp]: "fmap_of_list (sorted_list_of_fmap m) = m"
  by (rule fmap_ext) (simp add: fmlookup_of_list)

lemma fold_sorted_list [simp]: "fold (\<lambda>(k, j) m. fmupd k j m) (sorted_list_of_fmap m) fmempty = m"
  by (simp add: fold_fmupd_distinct distinct_sorted_fmap)

lemma sorted_list_fmmap:
  "sorted_list_of_fmap (fmmap f m) = map (\<lambda>(k, x). (k, f x)) (sorted_list_of_fmap m)"
  by (simp add: sorted_list_of_fmap_def) (auto simp: fmlookup_dom_iff)

lemma unmarshal_entries_encoded:
  "unmarshal_entries (map (\<lambda>(k, p). (k, RegisteredServiceProperty_json p)) ps) es =
     Inr (fold (\<lambda>(k, p) m. fmupd k p m) (map (\<lambda>(k, p). (k, rsp_norm p)) ps) es)"
  by (induction ps arbitrary: es) auto

lemma properties_roundtrip:
  assumes "classJSONKey |\<notin>| fmdom (rsps_Entries p)"
  shows "RegisteredServiceProperties_UnmarshalJSON (RegisteredServiceProperties_MarshalJSON p) =
           Inr (rsps_norm p)"
proof -
  define payload where "payload = fmupd classJSONKey (JStr (rsps_Class p)) fmempty
                      ++\<^sub>f fmmap RegisteredServiceProperty_json (rsps_Entries p)"
  have cl: "fmlookup payload classJSONKey = Some (JStr (rsps_Class p))"
    using assms by (simp add: payload_def)
  have drop: "fmdrop classJSONKey payload = fmmap RegisteredServiceProperty_json (rsps_Entries p)"
    using assms by (intro fmap_ext) (auto simp: payload_def fmdom_notD)
  have "fold (\<lambda>(k, p) m. fmupd k p m)
          (map (\<lambda>(k, p). (k, rsp_norm p)) (sorted_list_of_fmap (rsps_Entries p))) fmempty =
        fmmap rsp_norm (rsps_Entries p)"
    by (simp flip: sorted_list_fmmap add: fold_fmupd_distinct distinct_sorted_fmap)
  then show ?thesis
    by (simp add: RegisteredServiceProperties_UnmarshalJSON_def cl drop sorted_list_fmmap
        unmarshal_entries_encoded rsps_norm_def
        RegisteredServiceProperties_MarshalJSON_def Let_def flip: payload_def)
qed

text \<open>One group of members at a time, on a target that still has the zero value there.\<close>

lemmas service_field = RegisteredService_field_def names_field_def

definition entries_ok :: "RegisteredService \<Rightarrow> bool" where
  "entries_ok s = (case rs_Properties s of None \<Rightarrow> True | Some p \<Rightarrow> classJSONKey |\<notin>| fmdom (rsps_Entries p))"

lemma properties_json_not_null [simp]: "RegisteredServiceProperties_MarshalJSON p \<noteq> JNull"
  by (simp add: RegisteredServiceProperties_MarshalJSON_def Let_def)

lemma unmarshal_properties_member:
  assumes "entries_ok s" "rs_Properties t = None"
  shows "unmarshal_members RegisteredService_field t
           (omit_nil ''properties'' RegisteredServiceProperties_MarshalJSON (rs_Properties s)) =
         Inr (t\<lparr>rs_Properties := map_option rsps_norm (rs_Properties s)\<rparr>)"
  using assms
  by (cases "rs_Properties s")
     (auto simp: omit_nil_def entries_ok_def service_field set_field_def unmarshal_pointer_def properties_roundtrip)

lemma unmarshal_string_members:
  "rs_TemplateName t = [] \<Longrightarrow> unmarshal_members RegisteredService_field t (omit_string ''templateName'' v) = Inr (t\<lparr>rs_TemplateName := v\<rparr>)"
  "rs_Name t = [] \<Longrightarrow> unmarshal_members RegisteredService_field t (omit_string ''name'' v) = Inr (t\<lparr>rs_Name := v\<rparr>)"
  "rs_ServiceID t = [] \<Longrightarrow> unmarshal_members RegisteredService_field t (omit_string ''serviceId'' v) = Inr (t\<lparr>rs_ServiceID := v\<rparr>)"
  "rs_LogoutURL t = [] \<Longrightarrow> unmarshal_members RegisteredService_field t (omit_string ''logoutUrl'' v) = Inr (t\<lparr>rs_LogoutURL := v\<rparr>)"
  "rs_ClientID t = [] \<Longrightarrow> unmarshal_members RegisteredService_field t (omit_string ''clientId'' v) = Inr (t\<lparr>rs_ClientID := v\<rparr>)"
  "rs_ClientSecret t = [] \<Longrightarrow> unmarshal_members RegisteredService_field t (omit_string ''clientSecret'' v) = Inr (t\<lparr>rs_ClientSecret := v\<rparr>)"
  by (auto simp: omit_string_def service_field set_field_def)

lemma unmarshal_collection_members:
  "rs_Scopes t = None \<Longrightarrow> unmarshal_members RegisteredService_field t (omit_nil ''scopes'' StringCollection_MarshalJSON v) = Inr (t\<lparr>rs_Scopes := map_option sc_norm v\<rparr>)"
  "rs_SupportedGrantTypes t = None \<Longrightarrow> unmarshal_members RegisteredService_field t (omit_nil ''supportedGrantTypes'' StringCollection_MarshalJSON v) = Inr (t\<lparr>rs_SupportedGrantTypes := map_option sc_norm v\<rparr>)"
  "rs_SupportedResponseTypes t = None \<Longrightarrow> unmarshal_members RegisteredService_field t (omit_nil ''supportedResponseTypes'' StringCollection_MarshalJSON v) = Inr (t\<lparr>rs_SupportedResponseTypes := map_option sc_norm v\<rparr>)"
  "rs_Audience t = None \<Longrightarrow> unmarshal_members RegisteredService_field t (omit_nil ''audience'' StringCollection_MarshalJSON v) = Inr (t\<lparr>rs_Audience := map_option sc_norm v\<rparr>)"
  by (cases v; simp add: omit_nil_def service_field set_field_def unmarshal_pointer_def)+

lemma unmarshal_id_member:
  "rs_ID t = 0 \<Longrightarrow> unmarshal_members RegisteredService_field t
     (omit_int64 ''id'' i) = Inr (t\<lparr>rs_ID := i\<rparr>)"
  by (simp add: omit_int64_def service_field set_field_def)

lemma unmarshal_class_member:
  "unmarshal_members RegisteredService_field t (keep_string ''@class'' v) = Inr (t\<lparr>rs_Class := v\<rparr>)"
  by (simp add: keep_string_def service_field set_field_def)

lemma service_members_roundtrip:
  assumes "entries_ok s"
  shows "unmarshal_members RegisteredService_field zero_RegisteredService (RegisteredService_members s) =
           Inr (rs_norm s)"
  using assms
  by (simp add: RegisteredService_members_def unmarshal_members_append unmarshal_class_member
      unmarshal_id_member unmarshal_string_members unmarshal_collection_members
      unmarshal_properties_member zero_RegisteredService_def rs_norm_def)

lemma service_roundtrip:
  assumes "entries_ok s"
  shows "unmarshal_service zero_RegisteredService (RegisteredService_json s) = Inr (rs_norm s)"
  using service_members_roundtrip [OF assms]
  by (simp add: unmarshal_service_def RegisteredService_json_def)

section \<open>What the decoders accept\<close>

text \<open>A collection is read from the pair of class and values CAS writes, from a plain array of
  any other length, and from null; a plain array of exactly two texts is not a collection: it
  is taken for the pair, whose second element is no array, and refused.\<close>

lemma collection_forms:
  "StringCollection_UnmarshalJSON (JArr [JStr cl, JArr (map JStr vs)]) = Inr \<lparr>sc_Class = cl, sc_Values = Some vs\<rparr> \<and>
   StringCollection_UnmarshalJSON (JArr (map JStr vs)) =
     (if length vs = 2 then Inl (type_error (JStr (vs ! 1)) ''[]string'')
      else Inr \<lparr>sc_Class = hashSetClass, sc_Values = Some vs\<rparr>) \<and>
   StringCollection_UnmarshalJSON JNull = Inr zero_StringCollection"
proof -
  have strs: "map_result (unmarshal_string [] \<circ> JStr) us = Inr us" for us
    using map_result_all [of us "unmarshal_string [] \<circ> JStr" "\<lambda>x. x"] by simp
  show ?thesis
    by (auto simp: StringCollection_UnmarshalJSON_def unmarshalStringCollectionWrapper_def
        javaCollectionWrapperLength_def strs)
qed

lemma unmarshal_service_elems_roundtrip:
  "\<forall>s\<in>set ss. entries_ok s \<Longrightarrow>
     unmarshal_service_elems [] (map RegisteredService_json ss) = Inr (map rs_norm ss)"
  by (induction ss) (simp_all add: service_roundtrip)

lemma listing_all_forms:
  assumes "\<forall>s\<in>set ss. entries_ok s"
  defines "arr \<equiv> JArr (map RegisteredService_json ss)"
  shows "registeredServicesList_UnmarshalJSON arr = Inr (Some (map rs_norm ss)) \<and>
     registeredServicesList_UnmarshalJSON (JArr [JStr cl, arr]) = Inr (Some (map rs_norm ss)) \<and>
     registeredServicesList_UnmarshalJSON (JObj [(''services'', arr)]) = Inr (Some (map rs_norm ss))"
proof -
  have a: "unmarshal_services None arr = Inr (Some (map rs_norm ss))"
    using unmarshal_service_elems_roundtrip [OF assms(1)] by (simp add: arr_def)
  have no: "unmarshalRegisteredServicesWrapper arr = Inr None"
    by (cases ss) (auto simp: unmarshalRegisteredServicesWrapper_def arr_def RegisteredService_json_def
        javaCollectionWrapperLength_def nth_Cons')
  have "unmarshal_struct ''cas.response'' response_field None arr \<noteq> Inr (Some x)" for x
    by (simp add: arr_def)
  with a no have 1: "registeredServicesList_UnmarshalJSON arr = Inr (Some (map rs_norm ss))"
    by (auto simp: registeredServicesList_UnmarshalJSON_def arr_def split: sum.splits option.splits)
  have 2: "registeredServicesList_UnmarshalJSON (JArr [JStr cl, arr]) = Inr (Some (map rs_norm ss))"
    using a by (simp add: registeredServicesList_UnmarshalJSON_def unmarshalRegisteredServicesWrapper_def
        javaCollectionWrapperLength_def)
  have 3: "registeredServicesList_UnmarshalJSON (JObj [(''services'', arr)]) = Inr (Some (map rs_norm ss))"
    using a by (simp add: registeredServicesList_UnmarshalJSON_def unmarshalRegisteredServicesWrapper_def
        response_field_def names_field_def)
  from 1 2 3 show ?thesis by blast
qed

text \<open>C38: The registry's listing is read from all three forms CAS uses: a plain array of services,
  the pair of a class and such an array, and an object whose member services is the array.
  Each yields every service the array holds, in order.\<close>

theorem listing_forms:
  assumes "\<forall>s\<in>set ss. entries_ok s"
  shows "registeredServicesList_UnmarshalJSON (JArr (map RegisteredService_json ss)) = Inr (Some (map rs_norm ss)) \<and>
     registeredServicesList_UnmarshalJSON (JArr [JStr cl, JArr (map RegisteredService_json ss)]) =
       Inr (Some (map rs_norm ss)) \<and>
     registeredServicesList_UnmarshalJSON (JObj [(''services'', JArr (map RegisteredService_json ss))]) =
       Inr (Some (map rs_norm ss))"
  using assms by (rule listing_all_forms)

lemma listing_forms_witness:
  "registeredServicesList_UnmarshalJSON
     (JArr [RegisteredService_json zero_RegisteredService, RegisteredService_json zero_RegisteredService]) =
   Inr (Some [rs_norm zero_RegisteredService, rs_norm zero_RegisteredService])"
  using listing_forms [of "[zero_RegisteredService, zero_RegisteredService]"]
  by (simp add: entries_ok_def zero_RegisteredService_def)

end
