(* ===== verification/GoCrypto.thy ===== *)
theory GoCrypto imports GoStrings begin

text \<open>
  The two encodings of the standard library the client secret goes through: crypto/sha256's
  Sum256, whose hexadecimal text is what the CAS server stores, and
  base64.RawURLEncoding's EncodeToString, which turns the random bytes into a secret. The
  decoder is not code of the operator: it states that the encoding loses nothing.
\<close>

unbundle bit_operations_syntax

section \<open>SHA-256\<close>

type_synonym w32 = "32 word"

text \<open>
  The constants of FIPS 180-4 in decimal: the first 32 bits of the fractional parts of the cube
  roots of the first 64 primes, and of the square roots of the first eight.
\<close>

definition sha_k :: "w32 list" where
  "sha_k =
    [1116352408, 1899447441, 3049323471, 3921009573, 961987163, 1508970993, 2453635748,
     2870763221, 3624381080, 310598401, 607225278, 1426881987, 1925078388, 2162078206,
     2614888103, 3248222580, 3835390401, 4022224774, 264347078, 604807628, 770255983,
     1249150122, 1555081692, 1996064986, 2554220882, 2821834349, 2952996808, 3210313671,
     3336571891, 3584528711, 113926993, 338241895, 666307205, 773529912, 1294757372,
     1396182291, 1695183700, 1986661051, 2177026350, 2456956037, 2730485921, 2820302411,
     3259730800, 3345764771, 3516065817, 3600352804, 4094571909, 275423344, 430227734,
     506948616, 659060556, 883997877, 958139571, 1322822218, 1537002063, 1747873779,
     1955562222, 2024104815, 2227730452, 2361852424, 2428436474, 2756734187, 3204031479,
     3329325298]"

definition sha_init :: "w32 list" where
  "sha_init =
    [1779033703, 3144134277, 1013904242, 2773480762, 1359893119, 2600822924, 528734635,
     1541459225]"

text \<open>Big-endian bytes of a number, \<open>n\<close> of them, and the number of a list of bytes.\<close>

fun be_bytes :: "nat \<Rightarrow> int \<Rightarrow> int list" where
  "be_bytes 0 x = []"
| "be_bytes (Suc n) x = be_bytes n (x div 256) @ [x mod 256]"

definition be_val :: "int list \<Rightarrow> int" where
  "be_val bs = foldl (\<lambda>n b. 256 * n + b) 0 bs"

text \<open>The padding: a one bit, zeros up to 56 bytes modulo 64, the length in bits.\<close>

definition sha_pad :: "int list \<Rightarrow> int list" where
  "sha_pad bs = bs @ [128] @ replicate ((119 - length bs mod 64) mod 64) 0
                  @ be_bytes 8 ((8 * int (length bs)) mod 2 ^ 64)"

fun chunks :: "nat \<Rightarrow> 'a list \<Rightarrow> 'a list list" where
  "chunks n xs = (if n = 0 \<or> xs = [] then [] else take n xs # chunks n (drop n xs))"

declare chunks.simps [simp del]

text \<open>The message schedule: the words so far, the last one first.\<close>

fun sha_expand :: "nat \<Rightarrow> w32 list \<Rightarrow> w32 list" where
  "sha_expand 0 r = r"
| "sha_expand (Suc n) r =
     (let x = r ! 1; y = r ! 14;
          s1 = word_rotr 17 x XOR word_rotr 19 x XOR drop_bit 10 x;
          s0 = word_rotr 7 y XOR word_rotr 18 y XOR drop_bit 3 y
      in sha_expand n ((s1 + r ! 6 + s0 + r ! 15) # r))"

fun sha_round :: "w32 \<times> w32 \<Rightarrow> w32 list \<Rightarrow> w32 list" where
  "sha_round (k, w) [a, b, c, d, e, f, g, h] =
     (let s1 = word_rotr 6 e XOR word_rotr 11 e XOR word_rotr 25 e;
          ch = (e AND f) XOR (NOT e AND g);
          t1 = h + s1 + ch + k + w;
          s0 = word_rotr 2 a XOR word_rotr 13 a XOR word_rotr 22 a;
          maj = (a AND b) XOR (a AND c) XOR (b AND c);
          t2 = s0 + maj
      in [t1 + t2, a, b, c, d + t1, e, f, g])"
| "sha_round kw st = st"

definition sha_block :: "int list \<Rightarrow> w32 list \<Rightarrow> w32 list" where
  "sha_block blk st =
     (let ws = map (\<lambda>q. word_of_int (be_val q)) (chunks 4 blk);
          sched = rev (sha_expand 48 (rev ws))
      in map2 (+) st (fold sha_round (zip sha_k sched) st))"

definition sha256_bytes :: "int list \<Rightarrow> int list" where
  "sha256_bytes bs =
     concat (map (\<lambda>w. be_bytes 4 (uint w)) (fold sha_block (chunks 64 (sha_pad bs)) sha_init))"

text \<open>sha256.Sum256 on a byte string.\<close>

definition Sum256 :: "bytes \<Rightarrow> bytes" where
  "Sum256 bs = map char_of (sha256_bytes (map of_char bs))"

lemma length_be_bytes [simp]: "length (be_bytes n x) = n"
  by (induction n arbitrary: x) auto

lemma length_sha_round: "length (sha_round kw st) = length st"
  by (cases "(kw, st)" rule: sha_round.cases) (auto simp: Let_def)

lemma length_fold_sha_round: "length (fold sha_round kws st) = length st"
  by (induction kws arbitrary: st) (auto simp: length_sha_round)

lemma length_sha_block: "length (sha_block blk st) = length st"
  by (simp add: sha_block_def Let_def length_fold_sha_round)

lemma length_fold_sha_block: "length (fold sha_block bs st) = length st"
  by (induction bs arbitrary: st) (auto simp: length_sha_block)

lemma length_Sum256 [simp]: "length (Sum256 bs) = 32"
proof -
  have "length (concat (map (\<lambda>w. be_bytes 4 (uint w)) ws)) = 4 * length ws" for ws :: "w32 list"
    by (induction ws) auto
  then show ?thesis
    by (simp add: Sum256_def sha256_bytes_def length_fold_sha_block) (simp add: sha_init_def)
qed

section \<open>URL-safe base64 without padding\<close>

definition b64_alphabet :: string where
  "b64_alphabet = ''ABCDEFGHIJKLMNOPQRSTUVWXYZabcdefghijklmnopqrstuvwxyz0123456789-_''"

fun b64_groups :: "nat list \<Rightarrow> nat list" where
  "b64_groups [] = []"
| "b64_groups [a] = [a div 4, (a mod 4) * 16]"
| "b64_groups [a, b] = [a div 4, (a mod 4) * 16 + b div 16, (b mod 16) * 4]"
| "b64_groups (a # b # c # xs) =
     [a div 4, (a mod 4) * 16 + b div 16, (b mod 16) * 4 + c div 64, c mod 64] @ b64_groups xs"

fun b64_ungroup :: "nat list \<Rightarrow> nat list" where
  "b64_ungroup (p # q # r # s # xs) =
     [p * 4 + q div 16, (q mod 16) * 16 + r div 4, (r mod 4) * 64 + s] @ b64_ungroup xs"
| "b64_ungroup [p, q, r] = [p * 4 + q div 16, (q mod 16) * 16 + r div 4]"
| "b64_ungroup [p, q] = [p * 4 + q div 16]"
| "b64_ungroup _ = []"

definition EncodeToString :: "bytes \<Rightarrow> string" where
  "EncodeToString bs = map (\<lambda>i. b64_alphabet ! i) (b64_groups (map of_char bs))"

lemma b64_groups_bound:
  "\<forall>x\<in>set xs. x < 256 \<Longrightarrow> \<forall>g\<in>set (b64_groups xs). g < 64"
  by (induction xs rule: b64_groups.induct) auto

lemma b64_ungroup_groups:
  "\<forall>x\<in>set xs. x < 256 \<Longrightarrow> b64_ungroup (b64_groups xs) = xs"
  by (induction xs rule: b64_groups.induct) auto

lemma length_b64_groups: "length (b64_groups xs) = (4 * length xs + 2) div 3"
  by (induction xs rule: b64_groups.induct) auto

lemma length_EncodeToString: "length (EncodeToString bs) = (4 * length bs + 2) div 3"
  by (simp add: EncodeToString_def length_b64_groups)

lemma length_b64_alphabet [simp]: "length b64_alphabet = 64"
  by (simp add: b64_alphabet_def)

lemma distinct_b64_alphabet: "distinct b64_alphabet"
  by (simp add: b64_alphabet_def)

lemma set_EncodeToString: "set (EncodeToString bs) \<subseteq> set b64_alphabet"
proof
  fix c assume "c \<in> set (EncodeToString bs)"
  then obtain i where i: "i \<in> set (b64_groups (map of_char bs))" "c = b64_alphabet ! i"
    by (auto simp: EncodeToString_def)
  have "\<forall>x\<in>set (map of_char bs :: nat list). x < 256" by auto
  with i have "i < length b64_alphabet"
    using b64_groups_bound by fastforce
  with i show "c \<in> set b64_alphabet" by simp
qed

lemma EncodeToString_inj: "EncodeToString bs = EncodeToString cs \<Longrightarrow> bs = cs"
proof -
  assume eq: "EncodeToString bs = EncodeToString cs"
  have bound: "\<forall>x\<in>set (map of_char zs :: nat list). x < 256" for zs by auto
  have inj: "inj_on (\<lambda>i. b64_alphabet ! i) {..<64}"
    using inj_on_nth [OF distinct_b64_alphabet, of "{..<64}"] by simp
  have "b64_groups (map of_char bs) = b64_groups (map of_char cs)"
    using eq unfolding EncodeToString_def
  proof (rule map_inj_on)
    show "inj_on (\<lambda>i. b64_alphabet ! i)
       (set (b64_groups (map of_char bs)) \<union> set (b64_groups (map of_char cs)))"
      using b64_groups_bound [OF bound] by (intro inj_on_subset [OF inj]) auto
  qed
  then have "map of_char bs = (map of_char cs :: nat list)"
    by (metis b64_ungroup_groups bound)
  then show ?thesis
    by (metis (no_types, lifting) char_of_char map_idI map_map comp_apply)
qed

text \<open>No character of the alphabet is part of a white-space encoding.\<close>

lemma b64_alphabet_visible: "\<forall>c\<in>set b64_alphabet. visible c"
  by (simp add: b64_alphabet_def visible_def)

lemma TrimSpace_EncodeToString [simp]: "TrimSpace (EncodeToString bs) = EncodeToString bs"
  by (rule TrimSpace_visible) (use set_EncodeToString b64_alphabet_visible in blast)

end
