(* ===== verification/CasInterfaces.thy ===== *)
theory CasInterfaces imports CtrlInterfaces CasTypes GoCrypto "HOL-Library.Multiset" begin

text \<open>
  The Go interfaces between the parts of the CAS backend (cas_service_registration_backend.go):
  globalConfigRepo, apiClient and registrationMapper, each a record of its methods, and the
  contract of the mapper as a locale. The backend is defined over the records and its lemmas
  are proved from the contract; CasMapper provides it.
\<close>

section \<open>Interfaces\<close>

text \<open>
  The global configuration of module k8s-registry-lib is read by key only; a value is its
  text.
\<close>

type_synonym globalConfig = "string \<Rightarrow> string option"

record 'w globalConfigRepo =
  GetGlobalConfig :: "('w, globalConfig result) io"

record 'w apiClient =
  ac_BaseURL :: string
  ac_ListServices :: "('w, RegisteredService list option result) io"
  ac_CreateService :: "RegisteredService \<Rightarrow> ('w, RegisteredService result) io"
  ac_UpdateService :: "RegisteredService \<Rightarrow> ('w, RegisteredService result) io"
  ac_DeleteService :: "int64 \<Rightarrow> ('w, go_error option) io"

record 'w registrationMapper =
  rm_ValidateRegistration :: "Registration \<Rightarrow> go_error option"
  rm_BuildServicePayload ::
    "Registration \<Rightarrow> RegisteredService option \<Rightarrow> RegisteredService list \<Rightarrow> string \<Rightarrow>
     ('w, RegisteredService result) io"
  rm_BuildRegistrationResult ::
    "Registration \<Rightarrow> RegisteredService \<Rightarrow> string \<Rightarrow> ('w, RegistrationResult result) io"

section \<open>The contract of the mapper\<close>

definition existing_id :: "RegisteredService option \<Rightarrow> int64" where
  "existing_id ex = (case ex of None \<Rightarrow> 0 | Some s \<Rightarrow> rs_ID s)"

locale registration_mapper =
  fixes M :: "'w registrationMapper"
  assumes validate: "rm_ValidateRegistration M reg = None \<longleftrightarrow> valid_registration reg"
    and payload_id:
      "rm_BuildServicePayload M reg ex svcs sec w = (Inr s, w') \<Longrightarrow> rs_ID s = existing_id ex"
    and payload_consumer:
      "rm_BuildServicePayload M reg ex svcs sec w = (Inr s, w') \<Longrightarrow>
         GetFirstValue (rs_Properties s) ''ServiceName'' = reg_Consumer reg"
    and payload_secret:
      "rm_BuildServicePayload M reg ex svcs sec w = (Inr s, w') \<Longrightarrow>
         rs_ClientSecret s =
           (if reg_Protocol reg \<in> {ProtocolOIDC, ProtocolOAuth} then hex_string (Sum256 sec) else [])"
    and result_protocol:
      "rm_BuildRegistrationResult M reg s sec w = (Inr rr, w') \<Longrightarrow> rr_Protocol rr = reg_Protocol reg"
    and result_id:
      "rm_BuildRegistrationResult M reg s sec w = (Inr rr, w') \<Longrightarrow>
         rr_RegistrationID rr = show_int64 (rs_ID s)"
    and result_secret:
      "rm_BuildRegistrationResult M reg s sec w = (Inr rr, w') \<Longrightarrow>
         result_secret rr =
           (if reg_Protocol reg \<in> {ProtocolOIDC, ProtocolOAuth} then Some sec else None)"

section \<open>The registry\<close>

text \<open>
  What CAS keeps: services with distinct ids that are not zero. The order in which they are
  listed is CAS's own, so the registry is a multiset; of a consumer it holds the services
  whose property ServiceName names it.
\<close>

type_synonym registry = "RegisteredService multiset"

definition registry_ok :: "registry \<Rightarrow> bool" where
  "registry_ok G \<longleftrightarrow> 0 \<notin># image_mset rs_ID G \<and> (\<forall>i. count (image_mset rs_ID G) i \<le> 1)"

definition serves :: "string \<Rightarrow> RegisteredService \<Rightarrow> bool" where
  "serves consumer s \<longleftrightarrow> GetFirstValue (rs_Properties s) ''ServiceName'' = consumer"

definition services_of :: "registry \<Rightarrow> string \<Rightarrow> registry" where
  "services_of G consumer = filter_mset (serves consumer) G"

text \<open>A nil slice of services is ranged over like an empty one.\<close>

definition slice :: "'a list option \<Rightarrow> 'a list" where
  "slice xs = (case xs of None \<Rightarrow> [] | Some ys \<Rightarrow> ys)"

text \<open>
  What the actuator endpoint does, \<open>G\<close> being the registry of a world: a listing gives every
  service; a service without an id is created under a fresh one; an update stores the service
  in place of the one with its id; a deletion removes that one; the answer is the service as
  it is stored. What is written may be limited to records that satisfy \<open>ok\<close>.
\<close>

definition registry_laws :: "(RegisteredService \<Rightarrow> bool) \<Rightarrow> 'w apiClient \<Rightarrow> ('w \<Rightarrow> registry) \<Rightarrow> bool" where
  "registry_laws ok C G \<longleftrightarrow>
     (\<forall>w ss w1. ac_ListServices C w = (Inr ss, w1) \<longrightarrow> G w1 = G w \<and> mset (slice ss) = G w) \<and>
     (\<forall>s w p w1. ac_CreateService C s w = (Inr p, w1) \<and> ok s \<and> rs_ID s = 0 \<longrightarrow>
        (\<exists>i. i \<noteq> 0 \<and> i \<notin># image_mset rs_ID (G w) \<and> p = s\<lparr>rs_ID := i\<rparr> \<and> G w1 = add_mset p (G w))) \<and>
     (\<forall>s w p w1. ac_UpdateService C s w = (Inr p, w1) \<and> ok s \<longrightarrow>
        p = s \<and> rs_ID s \<in># image_mset rs_ID (G w) \<and>
        G w1 = add_mset s (filter_mset (\<lambda>t. rs_ID t \<noteq> rs_ID s) (G w))) \<and>
     (\<forall>i w w1. ac_DeleteService C i w = (None, w1) \<longrightarrow> G w1 = filter_mset (\<lambda>t. rs_ID t \<noteq> i) (G w))"

lemma registry_okD:
  assumes "registry_ok G" "s \<in># G" "t \<in># G" "rs_ID s = rs_ID t"
  shows "s = t"
proof (rule ccontr)
  assume ne: "s \<noteq> t"
  from assms(2) obtain G1 where G1: "G = add_mset s G1" by (metis multi_member_split)
  with assms(3) ne obtain G2 where "G1 = add_mset t G2" by (metis insert_noteq_member multi_member_split)
  with G1 assms(4) have "count (image_mset rs_ID G) (rs_ID s) \<ge> 2" by simp
  with assms(1) show False by (metis registry_ok_def not_less_eq_eq numeral_2_eq_2 One_nat_def)
qed

lemma registry_ok_add:
  assumes "registry_ok G" "rs_ID s \<noteq> 0" "rs_ID s \<notin># image_mset rs_ID G"
  shows "registry_ok (add_mset s G)"
  using assms by (auto simp: registry_ok_def not_in_iff)

lemma registry_ok_filter: "registry_ok G \<Longrightarrow> registry_ok (filter_mset P G)"
proof (unfold registry_ok_def, elim conjE, intro conjI allI)
  assume "0 \<notin># image_mset rs_ID G" "\<forall>i. count (image_mset rs_ID G) i \<le> 1"
  then show "0 \<notin># image_mset rs_ID (filter_mset P G)" by auto
  fix i
  have "image_mset rs_ID (filter_mset P G) \<subseteq># image_mset rs_ID G"
    by (simp add: image_mset_subseteq_mono)
  then show "count (image_mset rs_ID (filter_mset P G)) i \<le> 1"
    using \<open>\<forall>i. count (image_mset rs_ID G) i \<le> 1\<close> by (meson le_trans mset_subset_eq_count)
qed

text \<open>The service with an id out of the registry: its consumer loses it, no other one does.\<close>

lemma services_of_remove:
  assumes "registry_ok G" "s \<in># G" "c \<noteq> GetFirstValue (rs_Properties s) ''ServiceName''"
  shows "services_of (filter_mset (\<lambda>t. rs_ID t \<noteq> rs_ID s) G) c = services_of G c"
proof -
  have "rs_ID t \<noteq> rs_ID s" if "t \<in># G" "serves c t" for t
    using registry_okD [OF assms(1) that(1) assms(2)] that assms(3) by (auto simp: serves_def)
  then show ?thesis
    by (auto simp: services_of_def filter_filter_mset conj_commute intro!: filter_mset_cong)
qed

end
