(* ===== verification/CasMapper.thy ===== *)
theory CasMapper imports CasInterfaces begin

text \<open>
  internal/registration/cas/mapper.go: what a registration becomes in the CAS registry and
  what is published of a registered service. The global configuration is an effect, since it
  is read from the cluster on every call.
\<close>

section \<open>The service mapper\<close>

definition fqdnKey :: string where "fqdnKey = ''fqdn''"

record 'w serviceMapper =
  sm_globalConfigRepo :: "'w globalConfigRepo"
  sm_casBasePath :: string

definition newServiceMapper :: "'w globalConfigRepo \<Rightarrow> string \<Rightarrow> 'w serviceMapper" where
  "newServiceMapper repo path = \<lparr>sm_globalConfigRepo = repo, sm_casBasePath = path\<rparr>"

definition ValidateRegistration :: "Registration \<Rightarrow> go_error option" where
  "ValidateRegistration reg =
     (if TrimSpace (reg_Consumer reg) = [] then Some (Errorf ''consumer must not be empty'')
      else if reg_Protocol reg \<in> {ProtocolCAS, ProtocolOIDC, ProtocolOAuth} then None
      else Some (Errorf (''unsupported protocol '' @ quote (reg_Protocol reg))))"

section \<open>Pieces of a service record\<close>

definition templateName :: "protocol \<Rightarrow> bool \<Rightarrow> string" where
  "templateName protocol hasLogoutURL =
     (let baseTemplates = [''BaseService'', ''DefaultAttributeReleasePolicy'']
      in if protocol = ProtocolCAS then Join (baseTemplates @ [''AllowProxyPolicy'']) '',''
         else if protocol = ProtocolOIDC \<or> protocol = ProtocolOAuth then
           (let bt = (if hasLogoutURL then baseTemplates @ [''WithLogoutURI''] else baseTemplates)
            in Join (bt @ [''DefaultOAuthService'']) '','')
         else Join baseTemplates '','')"

definition serviceClass :: "protocol \<Rightarrow> string" where
  "serviceClass protocol =
     (if protocol = ProtocolCAS then casRegisteredServiceClass
      else if protocol = ProtocolOIDC then oidcRegisteredServiceClass
      else if protocol = ProtocolOAuth then oauthRegisteredServiceClass
      else [])"

definition escapeDots :: "string \<Rightarrow> string" where
  "escapeDots v = ReplaceAll CHR ''.'' ''[.]'' v"

definition hashClientSecret :: "string \<Rightarrow> string" where
  "hashClientSecret secret = hex_string (Sum256 secret)"

definition serviceId :: "RegisteredService option \<Rightarrow> int64" where
  "serviceId existing = (case existing of None \<Rightarrow> 0 | Some s \<Rightarrow> rs_ID s)"

definition newSetParam :: "(string \<rightharpoonup> string) \<Rightarrow> string \<Rightarrow> StringCollection option" where
  "newSetParam params sourceKey =
     (let raw = TrimSpace (map_get params sourceKey)
      in if raw = [] then None
         else
           (let parts = Split CHR '','' raw;
                vals = filter (\<lambda>v. v \<noteq> []) (map TrimSpace parts)
            in if vals = [] then None else Some (NewStringCollection hashSetClass vals)))"

definition logoutURLForRegistration :: "Registration \<Rightarrow> string \<Rightarrow> string" where
  "logoutURLForRegistration reg fqdn =
     (let logoutPath = path_Join [TrimSpace (reg_Consumer reg), TrimSpace (reg_LogoutURL reg)]
      in ''https://'' @ fqdn @ ''/'' @ logoutPath)"

definition registrationServiceID :: "string \<Rightarrow> string \<Rightarrow> string" where
  "registrationServiceID fqdn serviceName =
     ''^https://((?i)'' @ escapeDots fqdn @ '')(:443)?/'' @ serviceName @ ''(/.*)?''"

definition resolveClientID :: "Registration \<Rightarrow> RegisteredService option \<Rightarrow> string" where
  "resolveClientID reg existing =
     (let clientID = TrimSpace (map_get (reg_Params reg) ''clientId'')
      in if clientID \<noteq> [] then clientID
         else case existing of
                Some s \<Rightarrow> if TrimSpace (rs_ClientID s) \<noteq> [] then rs_ClientID s else reg_Consumer reg
              | None \<Rightarrow> reg_Consumer reg)"

definition addOIDCFields ::
    "RegisteredService \<Rightarrow> Registration \<Rightarrow> RegisteredService option \<Rightarrow> string \<Rightarrow> RegisteredService" where
  "addOIDCFields service reg existing clientSecret =
     service\<lparr>rs_ClientID := resolveClientID reg existing,
             rs_ClientSecret := hashClientSecret clientSecret,
             rs_Scopes := newSetParam (reg_Params reg) ''scopes'',
             rs_SupportedGrantTypes := newSetParam (reg_Params reg) ''supportedGrantTypes'',
             rs_SupportedResponseTypes := newSetParam (reg_Params reg) ''supportedResponseTypes''\<rparr>"

definition addOAuthFields ::
    "RegisteredService \<Rightarrow> Registration \<Rightarrow> RegisteredService option \<Rightarrow> string \<Rightarrow> RegisteredService" where
  "addOAuthFields service reg existing clientSecret =
     (addOIDCFields service reg existing clientSecret)
       \<lparr>rs_Audience := newSetParam (reg_Params reg) ''audience''\<rparr>"

section \<open>Building payload and result\<close>

definition getFQDN :: "'w serviceMapper \<Rightarrow> ('w, string result) io" where
  "getFQDN m w =
     (case GetGlobalConfig (sm_globalConfigRepo m) w of
        (Inl err, w1) \<Rightarrow> (Inl (Wrapf ''failed to get global config: '' err), w1)
      | (Inr cfg, w1) \<Rightarrow>
          (case cfg fqdnKey of
             None \<Rightarrow> (Inl (Errorf (''global config does not contain key '' @ quote fqdnKey)), w1)
           | Some fqdn \<Rightarrow> (Inr fqdn, w1)))"

text \<open>The record of a registration for a known fully qualified domain name.\<close>

definition service_properties :: "Registration \<Rightarrow> string \<Rightarrow> RegisteredServiceProperties" where
  "service_properties reg fqdn =
     (let p0 = NewRegisteredServiceProperties;
          put = (\<lambda>k v p. p\<lparr>rsps_Entries := fmupd k (NewRegisteredServiceProperty [v]) (rsps_Entries p)\<rparr>)
      in put ''LogoutUrl'' (logoutURLForRegistration reg fqdn)
           (put ''ServiceName'' (reg_Consumer reg)
             (put ''Fqdn'' (escapeDots fqdn)
               (put ''ServiceClass'' (serviceClass (reg_Protocol reg)) p0))))"

definition service_for ::
    "string \<Rightarrow> Registration \<Rightarrow> RegisteredService option \<Rightarrow> string \<Rightarrow> RegisteredService" where
  "service_for fqdn reg existing clientSecret =
     (let service = zero_RegisteredService
            \<lparr>rs_ID := serviceId existing,
             rs_Class := serviceClass (reg_Protocol reg),
             rs_TemplateName := templateName (reg_Protocol reg) (reg_LogoutURL reg \<noteq> []),
             rs_Name := reg_Consumer reg,
             rs_ServiceID := registrationServiceID fqdn (reg_Consumer reg),
             rs_Properties := Some (service_properties reg fqdn)\<rparr>
      in if reg_Protocol reg = ProtocolCAS then service
         else if reg_Protocol reg = ProtocolOIDC then addOIDCFields service reg existing clientSecret
         else if reg_Protocol reg = ProtocolOAuth then addOAuthFields service reg existing clientSecret
         else service)"

definition BuildServicePayload ::
    "'w serviceMapper \<Rightarrow> Registration \<Rightarrow> RegisteredService option \<Rightarrow> RegisteredService list \<Rightarrow> string \<Rightarrow>
     ('w, RegisteredService result) io" where
  "BuildServicePayload m reg existing services clientSecret w =
     (case getFQDN m w of
        (Inl err, w1) \<Rightarrow> (Inl (Wrapf ''failed to get fqdn: '' err), w1)
      | (Inr fqdn, w1) \<Rightarrow> (Inr (service_for fqdn reg existing clientSecret), w1))"

text \<open>The published result; the base URL is that of the CAS behind the domain name.\<close>

definition result_for ::
    "string \<Rightarrow> string \<Rightarrow> Registration \<Rightarrow> RegisteredService \<Rightarrow> string \<Rightarrow> RegistrationResult" where
  "result_for casBasePath fqdn reg service clientSecret =
     (let baseURL = ''https://'' @ fqdn @ ''/'' @ TrimLeft CHR ''/'' casBasePath;
          result = \<lparr>rr_Protocol = reg_Protocol reg,
                    rr_RegistrationID = show_int64 (rs_ID service),
                    rr_OIDC = None, rr_OAuth = None, rr_CAS = None\<rparr>
      in if reg_Protocol reg = ProtocolCAS then
           result\<lparr>rr_CAS := Some \<lparr>cas_ServiceID = rs_ServiceID service\<rparr>\<rparr>
         else if reg_Protocol reg = ProtocolOIDC then
           result\<lparr>rr_OIDC := Some
             \<lparr>oidc_ClientID = rs_ClientID service,
              oidc_ClientSecret = clientSecret,
              oidc_IssuerURL = TrimRight CHR ''/'' casBasePath @ ''/oidc''\<rparr>\<rparr>
         else if reg_Protocol reg = ProtocolOAuth then
           (let baseURL' = TrimRight CHR ''/'' baseURL
            in result\<lparr>rr_OAuth := Some
                 \<lparr>oauth_ClientID = rs_ClientID service,
                  oauth_ClientSecret = clientSecret,
                  oauth_AuthURL = baseURL' @ ''/oauth2.0/authorize'',
                  oauth_TokenURL = baseURL' @ ''/oauth2.0/accessToken''\<rparr>\<rparr>)
         else result)"

definition BuildRegistrationResult ::
    "'w serviceMapper \<Rightarrow> Registration \<Rightarrow> RegisteredService \<Rightarrow> string \<Rightarrow> ('w, RegistrationResult result) io" where
  "BuildRegistrationResult m reg service clientSecret w =
     (case getFQDN m w of
        (Inl err, w1) \<Rightarrow> (Inl (Wrapf ''failed to get fqdn: '' err), w1)
      | (Inr fqdn, w1) \<Rightarrow> (Inr (result_for (sm_casBasePath m) fqdn reg service clientSecret), w1))"

text \<open>The mapper behind the interface.\<close>

definition serviceMapper_registrationMapper :: "'w serviceMapper \<Rightarrow> 'w registrationMapper" where
  "serviceMapper_registrationMapper m =
     \<lparr>rm_ValidateRegistration = ValidateRegistration,
      rm_BuildServicePayload = BuildServicePayload m,
      rm_BuildRegistrationResult = BuildRegistrationResult m\<rparr>"

lemmas mapper_defs [go_defs] =
  getFQDN_def BuildServicePayload_def BuildRegistrationResult_def serviceMapper_registrationMapper_def

section \<open>Facts about the pieces\<close>

lemma service_for_simps [simp]:
  "rs_ID (service_for fqdn reg ex sec) = serviceId ex"
  "rs_Class (service_for fqdn reg ex sec) = serviceClass (reg_Protocol reg)"
  "rs_Name (service_for fqdn reg ex sec) = reg_Consumer reg"
  "rs_ServiceID (service_for fqdn reg ex sec) = registrationServiceID fqdn (reg_Consumer reg)"
  "rs_LogoutURL (service_for fqdn reg ex sec) = []"
  "rs_TemplateName (service_for fqdn reg ex sec) = templateName (reg_Protocol reg) (reg_LogoutURL reg \<noteq> [])"
  "rs_Properties (service_for fqdn reg ex sec) = Some (service_properties reg fqdn)"
  by (simp_all add: service_for_def addOIDCFields_def addOAuthFields_def Let_def zero_RegisteredService_def)

lemma service_for_ClientSecret:
  "rs_ClientSecret (service_for fqdn reg ex sec) =
     (if reg_Protocol reg \<in> {ProtocolOIDC, ProtocolOAuth} then hashClientSecret sec else [])"
  by (simp add: service_for_def addOIDCFields_def addOAuthFields_def Let_def zero_RegisteredService_def)

lemma service_for_ClientID:
  "rs_ClientID (service_for fqdn reg ex sec) =
     (if reg_Protocol reg \<in> {ProtocolOIDC, ProtocolOAuth} then resolveClientID reg ex else [])"
  by (simp add: service_for_def addOIDCFields_def addOAuthFields_def Let_def zero_RegisteredService_def)

lemma service_properties_lookup:
  "fmlookup (rsps_Entries (service_properties reg fqdn)) k =
     (if k = ''LogoutUrl'' then Some (NewRegisteredServiceProperty [logoutURLForRegistration reg fqdn])
      else if k = ''ServiceName'' then Some (NewRegisteredServiceProperty [reg_Consumer reg])
      else if k = ''Fqdn'' then Some (NewRegisteredServiceProperty [escapeDots fqdn])
      else if k = ''ServiceClass'' then Some (NewRegisteredServiceProperty [serviceClass (reg_Protocol reg)])
      else None)"
  by (simp add: service_properties_def Let_def NewRegisteredServiceProperties_def)

lemma service_properties_ServiceName [simp]:
  "GetFirstValue (Some (service_properties reg fqdn)) ''ServiceName'' = reg_Consumer reg"
  by (simp add: GetFirstValue_def service_properties_lookup NewRegisteredServiceProperty_def
      NewStringCollection_def)

lemma service_for_entries_ok: "entries_ok (service_for fqdn reg ex sec)"
  by (simp add: entries_ok_def fmlookup_dom'_iff [symmetric] flip: fmlookup_dom_iff)
     (simp add: fmdom_notI service_properties_lookup classJSONKey_def)

lemma BuildServicePayload_Inr:
  "BuildServicePayload m reg ex svcs sec w = (Inr s, w1) \<longleftrightarrow>
     (\<exists>fqdn. getFQDN m w = (Inr fqdn, w1) \<and> s = service_for fqdn reg ex sec)"
  by (auto simp: BuildServicePayload_def split: prod.splits sum.splits)

lemma BuildRegistrationResult_Inr:
  "BuildRegistrationResult m reg s sec w = (Inr rr, w1) \<longleftrightarrow>
     (\<exists>fqdn. getFQDN m w = (Inr fqdn, w1) \<and> rr = result_for (sm_casBasePath m) fqdn reg s sec)"
  by (auto simp: BuildRegistrationResult_def split: prod.splits sum.splits)

lemma result_for_simps [simp]:
  "rr_Protocol (result_for p fqdn reg s sec) = reg_Protocol reg"
  "rr_RegistrationID (result_for p fqdn reg s sec) = show_int64 (rs_ID s)"
  by (simp_all add: result_for_def Let_def)

lemma result_for_secret:
  "result_secret (result_for p fqdn reg s sec) =
     (if reg_Protocol reg \<in> {ProtocolOIDC, ProtocolOAuth} then Some sec else None)"
  by (simp add: result_for_def Let_def result_secret_def)

section \<open>The contract\<close>

interpretation sm: registration_mapper "serviceMapper_registrationMapper m" for m :: "'w serviceMapper"
proof unfold_locales
  fix reg
  show "rm_ValidateRegistration (serviceMapper_registrationMapper m) reg = None \<longleftrightarrow> valid_registration reg"
    by (simp add: serviceMapper_registrationMapper_def ValidateRegistration_def
        valid_registration_def supportedProtocols_def)
qed (auto simp: serviceMapper_registrationMapper_def BuildServicePayload_Inr
      BuildRegistrationResult_Inr existing_id_def serviceId_def service_for_ClientSecret
      hashClientSecret_def result_for_secret split: if_splits)

section \<open>Properties of the mapping\<close>


text \<open>C28: Registering again changes nothing: the record built for a registration whose service is
  already as the operator wrote it, with the id CAS gave it, is that service.\<close>

theorem registering_again_changes_nothing:
  assumes "TrimSpace (reg_Consumer reg) \<noteq> []"
  shows "service_for fqdn reg (Some ((service_for fqdn reg ex sec)\<lparr>rs_ID := i\<rparr>)) sec =
         (service_for fqdn reg ex sec)\<lparr>rs_ID := i\<rparr>"
proof -
  have r: "resolveClientID reg (Some p) = resolveClientID reg ex" if "rs_ClientID p = resolveClientID reg ex" for p
    using that assms by (auto simp: resolveClientID_def Let_def split: option.splits)
  then show ?thesis
    by (auto simp: service_for_def addOIDCFields_def addOAuthFields_def serviceId_def Let_def)
qed

lemma registering_again_changes_nothing_witness:
  "(let reg = \<lparr>reg_Protocol = ''OIDC'', reg_Consumer = ''c'', reg_LogoutURL = [], reg_Params = Map.empty\<rparr>;
        s = (service_for ''ces'' reg None ''sec'')\<lparr>rs_ID := 7\<rparr>
    in service_for ''ces'' reg (Some s) ''sec'' = s)"
  using registering_again_changes_nothing
    [of "\<lparr>reg_Protocol = ''OIDC'', reg_Consumer = ''c'', reg_LogoutURL = [], reg_Params = Map.empty\<rparr>" "''ces''" 7 None "''sec''"]
  by (simp add: TrimSpace_visible visible_def)

lemma newSetParam_norm [simp]: "map_option sc_norm (newSetParam ps k) = newSetParam ps k"
  by (simp add: newSetParam_def Let_def sc_norm_def NewStringCollection_def hashSetClass_def)

lemma service_properties_norm [simp]: "rsps_norm (service_properties reg fqdn) = service_properties reg fqdn"
proof -
  have "fmmap rsp_norm (rsps_Entries (service_properties reg fqdn)) = rsps_Entries (service_properties reg fqdn)"
    by (rule fmap_ext)
      (simp add: service_properties_lookup rsp_norm_def sc_norm_def NewRegisteredServiceProperty_def
        NewStringCollection_def linkedHashSetClass_def hashSetClass_def)
  then show ?thesis by (simp add: rsps_norm_def)
qed

lemma service_for_norm: "rs_norm ((service_for fqdn reg ex sec)\<lparr>rs_ID := i\<rparr>) = (service_for fqdn reg ex sec)\<lparr>rs_ID := i\<rparr>"
  by (simp add: rs_norm_def service_for_def addOIDCFields_def addOAuthFields_def Let_def zero_RegisteredService_def)

text \<open>What the operator writes it reads back: the JSON of a service record it built decodes to
  that record, whatever the registration, the domain name and the id.\<close>

lemma written_service_reads_back:
  "unmarshal_service zero_RegisteredService (RegisteredService_json ((service_for fqdn reg ex sec)\<lparr>rs_ID := i\<rparr>)) =
     Inr ((service_for fqdn reg ex sec)\<lparr>rs_ID := i\<rparr>)"
proof -
  have "entries_ok ((service_for fqdn reg ex sec)\<lparr>rs_ID := i\<rparr>)"
    using service_for_entries_ok [of fqdn reg ex sec] by (simp add: entries_ok_def)
  moreover have "rs_norm ((service_for fqdn reg ex sec)\<lparr>rs_ID := i\<rparr>) = (service_for fqdn reg ex sec)\<lparr>rs_ID := i\<rparr>"
    by (rule service_for_norm)
  ultimately show ?thesis using service_roundtrip by metis
qed

text \<open>A set parameter lists its values separated by commas: joined values of visible characters
  without a comma come back as they are and in order, in a Java hash set.\<close>

lemma set_parameter_values:
  assumes "vs \<noteq> []" "\<forall>v\<in>set vs. v \<noteq> [] \<and> CHR '','' \<notin> set v \<and> (\<forall>c\<in>set v. visible c)"
  shows "newSetParam [k \<mapsto> Join vs '',''] k = Some (NewStringCollection hashSetClass vs)"
proof -
  have vis: "\<forall>c\<in>set (Join vs '',''). visible c"
    using assms(2) set_Join [where xs = vs and sep = "'',''"] by (auto simp: visible_def)
  have ne: "Join vs '','' \<noteq> []" using assms by (cases vs; cases "tl vs") auto
  have sp: "Split CHR '','' (Join vs '','') = vs" using assms by (intro Split_Join) auto
  have "map TrimSpace vs = vs" using assms(2) by (induction vs) (auto simp: TrimSpace_visible)
  moreover have "filter (\<lambda>v. v \<noteq> []) vs = vs" using assms(2) by (simp add: filter_id_conv)
  ultimately show ?thesis
    using assms(1) ne sp by (simp add: newSetParam_def TrimSpace_visible [OF vis])
qed


end
