(* ===== verification/ServiceText.thy ===== *)
theory ServiceText imports JsonText CasMapper begin

text \<open>
  The text of a service record: what the client sends to CAS. A record whose strings are ASCII
  is read back from its text as it is, and the mapper's records have ASCII strings when the
  registration, the domain name and the client id CAS keeps have.
\<close>

section \<open>ASCII strings\<close>

definition plain :: "string \<Rightarrow> bool" where
  "plain s \<longleftrightarrow> list_all is_ascii s"

lemma plain_simps [simp]:
  "plain []" "plain (c # s) \<longleftrightarrow> is_ascii c \<and> plain s" "plain (s @ t) \<longleftrightarrow> plain s \<and> plain t"
  by (simp_all add: plain_def)

lemma is_ascii_Char [simp]: "is_ascii (Char b0 b1 b2 b3 b4 b5 b6 b7) \<longleftrightarrow> \<not> b7"
  by (cases b0; cases b1; cases b2; cases b3; cases b4; cases b5; cases b6; cases b7) (simp_all add: is_ascii_def)

lemma plain_subset: "plain s \<Longrightarrow> set t \<subseteq> set s \<Longrightarrow> plain t"
  by (auto simp: plain_def list_all_iff)

lemma plain_TrimSpace: "plain s \<Longrightarrow> plain (TrimSpace s)"
  using plain_subset set_TrimSpace by blast

lemma plain_Join: "\<forall>x\<in>set xs. plain x \<Longrightarrow> plain sep \<Longrightarrow> plain (Join xs sep)"
  by (induction xs sep rule: Join.induct) auto

lemma plain_Split: "plain s \<Longrightarrow> p \<in> set (Split c s) \<Longrightarrow> plain p"
proof (induction s arbitrary: p)
  case (Cons x xs)
  then show ?case by (auto split: if_splits list.splits)
qed simp

lemma plain_ReplaceAll: "plain s \<Longrightarrow> plain new \<Longrightarrow> plain (ReplaceAll c new s)"
  by (induction s) (auto simp: ReplaceAll_def)

lemma plain_clean_elems:
  "\<forall>e\<in>set st \<union> set es. plain e \<Longrightarrow> \<forall>e\<in>set (clean_elems r st es). plain e"
proof
  fix e
  assume p: "\<forall>e\<in>set st \<union> set es. plain e" and "e \<in> set (clean_elems r st es)"
  with clean_elems_ok have "e \<in> set st \<or> e = ''..'' \<or> e \<in> set es" by blast
  moreover have "plain ''..''" by simp
  ultimately show "plain e" using p by blast
qed

lemma plain_Clean:
  assumes "plain s"
  shows "plain (Clean s)"
proof -
  have "\<forall>e\<in>set [] \<union> set (Split CHR ''/'' s). plain e" using plain_Split [OF assms] by auto
  then have "plain (Join (clean_elems r [] (Split CHR ''/'' s)) ''/'')" for r
    using plain_clean_elems [of "[]" "Split CHR ''/'' s" r] by (intro plain_Join) simp_all
  then show ?thesis by (simp add: Clean_def Let_def)
qed

lemma plain_path_Join: "\<forall>x\<in>set xs. plain x \<Longrightarrow> plain (path_Join xs)"
  using plain_Clean [OF plain_Join [of "filter (\<lambda>e. e \<noteq> []) xs" "''/''"]] by (simp add: path_Join_def Let_def)

lemma hex_digit_ascii: "n < 16 \<Longrightarrow> is_ascii (hex_digit n)"
  by (simp add: hex_digit_def is_ascii_def)

lemma plain_hex_string: "plain (hex_string bs)"
proof (induction bs)
  case (Cons b bs)
  have "(of_char b :: nat) div 16 < 16" by (rule less_mult_imp_div_less) simp
  then show ?case using Cons by (simp add: hex_string_def hex_byte_def hex_digit_ascii)
qed (simp add: hex_string_def)

section \<open>Trees\<close>

fun plain_json :: "json \<Rightarrow> bool" where
  "plain_json (JStr s) \<longleftrightarrow> plain s"
| "plain_json (JArr js) \<longleftrightarrow> list_all plain_json js"
| "plain_json (JObj ms) \<longleftrightarrow> list_all (\<lambda>(k, j). plain k \<and> plain_json j) ms"
| "plain_json _ \<longleftrightarrow> True"

lemma utf8_plain: "plain_json j \<Longrightarrow> utf8_json j = j"
proof (induction j)
  case (JArr js)
  then show ?case by (auto simp: list_all_iff intro: map_idI)
next
  case (JObj ms)
  have "\<forall>m\<in>set ms. (\<lambda>(k, j). (to_utf8 k, utf8_json j)) m = m"
    using JObj by (fastforce simp: list_all_iff plain_def to_utf8_ascii)
  then show ?case by (simp add: map_idI)
qed (simp_all add: plain_def to_utf8_ascii)

lemma parse_plain:
  assumes "numbers_ok j" "plain_json j"
  shows "parse_json (print_json j) = Some j"
  using parse_print [OF assms(1)] utf8_plain [OF assms(2)] by simp

section \<open>Numbers\<close>

lemma show_nat_no_zero: "n \<noteq> 0 \<Longrightarrow> hd (show_nat n) \<noteq> CHR ''0''"
proof (induction n rule: show_nat.induct)
  case (1 n)
  have "digit_char d \<noteq> CHR ''0''" if "d \<noteq> 0" "d < 10" for d
  proof
    assume "digit_char d = CHR ''0''"
    then have "(of_char (digit_char d) :: nat) = 48" by simp
    with that show False by (simp add: digit_char_def)
  qed
  with 1 show ?case by (subst show_nat.simps) (auto simp: hd_append)
qed

lemma takeWhile_digits [simp]:
  "takeWhile is_digit (show_nat n) = show_nat n" "dropWhile is_digit (show_nat n) = []"
  using show_nat_digits [of n] by (simp_all add: list_all_iff takeWhile_eq_all_conv dropWhile_eq_Nil_conv)

lemma number_show: "number_text (show_int64 w)"
proof -
  have digits: "list_all num_char (show_nat n)" for n
    using show_nat_digits [of n] by (simp add: list_all_iff num_char_def)
  have zero: "hd (show_nat n) = CHR ''0'' \<longrightarrow> show_nat n = ''0''" for n
  proof (cases "n = 0")
    case True
    then show ?thesis by (simp add: show_nat.simps digit_char_def char_of_def bit_Suc_0_iff)
  next
    case False
    with show_nat_no_zero show ?thesis by blast
  qed
  have c: "\<exists>c cs. show_nat n = c # cs \<and> c \<noteq> CHR ''-''" for n
  proof (cases "show_nat n")
    case (Cons c cs)
    then show ?thesis using show_nat_hd [OF Cons] by (auto simp: is_digit_def)
  qed simp
  have "(case show_nat n of [] \<Rightarrow> [] | c # cs \<Rightarrow> if c = CHR ''-'' then cs else show_nat n) = show_nat n" for n
    using c [of n] by auto
  then have "number_text (show_nat n)" for n
    using digits [of n] zero [of n] by (simp add: number_text_def valid_number_def Let_def)
  moreover have "number_text (CHR ''-'' # show_nat n)" for n
    using digits [of n] zero [of n]
    by (simp add: number_text_def valid_number_def Let_def num_char_def)
  ultimately show ?thesis by (simp add: show_int64_def show_int_def)
qed

section \<open>Service records\<close>

definition plain_service :: "RegisteredService \<Rightarrow> bool" where
  "plain_service s \<longleftrightarrow> plain_json (RegisteredService_json s)"

lemma member_of_sorted:
  "(k, v) \<in> set (sorted_list_of_fmap m) \<Longrightarrow> fmlookup m k = Some v"
  by (auto simp: sorted_list_of_fmap_def)

lemma collection_numbers [simp]: "numbers_ok (StringCollection_MarshalJSON c)"
  by (cases "sc_Values c") (auto simp: StringCollection_MarshalJSON_def strings_json_def list_all_iff Let_def)

lemma properties_numbers [simp]: "numbers_ok (RegisteredServiceProperties_MarshalJSON p)"
proof -
  have "numbers_ok j" if "(k, j) \<in> set (sorted_list_of_fmap (fmupd classJSONKey (JStr (rsps_Class p)) fmempty
      ++\<^sub>f fmmap RegisteredServiceProperty_json (rsps_Entries p)))" for k j
    using member_of_sorted [OF that]
    by (auto simp: RegisteredServiceProperty_json_def split: if_splits)
  then show ?thesis by (auto simp: RegisteredServiceProperties_MarshalJSON_def Let_def list_all_iff)
qed

lemma numbers_omit [simp]:
  "list_all (\<lambda>(k, j). numbers_ok j) (omit_string n v)"
  "list_all (\<lambda>(k, j). numbers_ok j) (keep_string n v)"
  "list_all (\<lambda>(k, j). numbers_ok j) (omit_int64 n i)"
  "(\<And>x. numbers_ok (f x)) \<Longrightarrow> list_all (\<lambda>(k, j). numbers_ok j) (omit_nil n f p)"
  by (auto simp: omit_string_def keep_string_def omit_int64_def omit_nil_def number_show split: option.split)

lemma service_numbers [simp]: "numbers_ok (RegisteredService_json s)"
  by (simp add: RegisteredService_json_def RegisteredService_members_def)

lemma plain_omit_members:
  "list_all (\<lambda>(k, j). plain k \<and> plain_json j) (omit_string n v) \<longleftrightarrow> v = [] \<or> plain n \<and> plain v"
  "list_all (\<lambda>(k, j). plain k \<and> plain_json j) (keep_string n v) \<longleftrightarrow> plain n \<and> plain v"
  "list_all (\<lambda>(k, j). plain k \<and> plain_json j) (omit_int64 n i) \<longleftrightarrow> i = 0 \<or> plain n"
  "list_all (\<lambda>(k, j). plain k \<and> plain_json j) (omit_nil n f p) \<longleftrightarrow>
     (p = None \<or> plain n) \<and> (case p of None \<Rightarrow> True | Some x \<Rightarrow> plain_json (f x))"
  by (auto simp: omit_string_def keep_string_def omit_int64_def omit_nil_def split: option.split)

text \<open>The text of an ASCII record parses to its tree.\<close>

lemma service_text:
  "plain_service s \<Longrightarrow> parse_json (print_json (RegisteredService_json s)) = Some (RegisteredService_json s)"
  by (simp add: parse_plain plain_service_def)

text \<open>C23: The text json.Marshal prints of any service record is a JSON document: json.Unmarshal
  parses it, with the fuel it is given, to the very tree that was printed, only with the bytes of
  its strings that are not UTF-8 replaced; and an ASCII record is decoded from its text as it was,
  with the empty classes of its collections filled in.\<close>

theorem service_text_reads_back:
  assumes "entries_ok s"
  shows "parse_json (print_json (RegisteredService_json s)) = Some (utf8_json (RegisteredService_json s)) \<and>
    (plain_service s \<longrightarrow>
       map_option (unmarshal_service zero_RegisteredService) (parse_json (print_json (RegisteredService_json s))) =
         Some (Inr (rs_norm s)))"
  using parse_print [OF service_numbers] service_text service_roundtrip [OF assms] by simp

lemma service_text_reads_back_witness:
  "map_option (unmarshal_service zero_RegisteredService)
     (parse_json (print_json (RegisteredService_json (zero_RegisteredService\<lparr>rs_ID := 7, rs_Name := ''redmine''\<rparr>)))) =
   Some (Inr (zero_RegisteredService\<lparr>rs_ID := 7, rs_Name := ''redmine''\<rparr>))"
proof -
  let ?s = "zero_RegisteredService\<lparr>rs_ID := 7, rs_Name := ''redmine''\<rparr>"
  have "entries_ok ?s" "rs_norm ?s = ?s"
    by (simp_all add: entries_ok_def rs_norm_def zero_RegisteredService_def)
  moreover have "plain_service ?s"
    by (simp add: plain_service_def RegisteredService_json_def RegisteredService_members_def
        plain_omit_members zero_RegisteredService_def)
  ultimately show ?thesis
    using service_text_reads_back [of ?s, THEN conjunct2] by (simp only: simp_thms)
qed

text \<open>Which strings of a record have to be ASCII.\<close>

fun plain_values :: "string list option \<Rightarrow> bool" where
  "plain_values None \<longleftrightarrow> True"
| "plain_values (Some vs) \<longleftrightarrow> list_all plain vs"

definition plain_collection :: "StringCollection option \<Rightarrow> bool" where
  "plain_collection c = (case c of None \<Rightarrow> True | Some x \<Rightarrow> plain (sc_Class x) \<and> plain_values (sc_Values x))"

lemma plain_collection_json:
  "plain_json (StringCollection_MarshalJSON x) \<longleftrightarrow> plain (sc_Class x) \<and> plain_values (sc_Values x)"
  by (cases "sc_Values x") (auto simp: StringCollection_MarshalJSON_def strings_json_def list_all_iff hashSetClass_def Let_def)

lemma plain_properties:
  assumes "plain (rsps_Class p)"
    and "\<And>k q. fmlookup (rsps_Entries p) k = Some q \<Longrightarrow>
      plain k \<and> plain (rsp_Class q) \<and> plain_collection (Some (rsp_Values q))"
  shows "plain_json (RegisteredServiceProperties_MarshalJSON p)"
proof -
  have "plain k \<and> plain_json j" if "(k, j) \<in> set (sorted_list_of_fmap (fmupd classJSONKey (JStr (rsps_Class p)) fmempty
      ++\<^sub>f fmmap RegisteredServiceProperty_json (rsps_Entries p)))" for k j
    using member_of_sorted [OF that] assms
    by (auto simp: RegisteredServiceProperty_json_def plain_collection_json plain_collection_def classJSONKey_def
        split: if_splits)
  then show ?thesis by (auto simp: RegisteredServiceProperties_MarshalJSON_def Let_def list_all_iff)
qed

lemma plain_service_iff:
  "plain_service s \<longleftrightarrow>
     plain (rs_Class s) \<and> plain (rs_TemplateName s) \<and> plain (rs_Name s) \<and> plain (rs_ServiceID s) \<and>
     plain (rs_LogoutURL s) \<and>
     (case rs_Properties s of None \<Rightarrow> True | Some p \<Rightarrow> plain_json (RegisteredServiceProperties_MarshalJSON p)) \<and>
     plain (rs_ClientID s) \<and> plain (rs_ClientSecret s) \<and> plain_collection (rs_Scopes s) \<and>
     plain_collection (rs_SupportedGrantTypes s) \<and> plain_collection (rs_SupportedResponseTypes s) \<and>
     plain_collection (rs_Audience s)"
proof -
  have e: "(v = [] \<or> plain v) = plain v" for v by auto
  have c: "(case c of None \<Rightarrow> True | Some x \<Rightarrow> plain_json (StringCollection_MarshalJSON x)) = plain_collection c" for c
    by (simp add: plain_collection_def plain_collection_json split: option.split)
  show ?thesis
    by (simp add: plain_service_def RegisteredService_json_def RegisteredService_members_def
        plain_omit_members e c)
qed

lemma plain_service_ID [simp]: "plain_service (s\<lparr>rs_ID := i\<rparr>) \<longleftrightarrow> plain_service s"
  by (simp add: plain_service_iff)

section \<open>The mapper's records\<close>

definition plain_registration :: "Registration \<Rightarrow> bool" where
  "plain_registration reg \<longleftrightarrow>
     plain (reg_Consumer reg) \<and> plain (reg_LogoutURL reg) \<and> (\<forall>k v. reg_Params reg k = Some v \<longrightarrow> plain v)"

lemma plain_param: "plain_registration reg \<Longrightarrow> plain (map_get (reg_Params reg) k)"
  by (auto simp: plain_registration_def map_get_def split: option.split)

lemma plain_newSetParam:
  assumes "plain_registration reg"
  shows "plain_collection (newSetParam (reg_Params reg) k)"
proof -
  have "plain v" if "v \<in> set (map TrimSpace (Split CHR '','' (TrimSpace (map_get (reg_Params reg) k))))" for v
    using that plain_Split plain_TrimSpace plain_param [OF assms, of k] by auto
  then show ?thesis
    by (auto simp: newSetParam_def Let_def plain_collection_def NewStringCollection_def hashSetClass_def list_all_iff)
qed

lemma plain_texts:
  "plain (serviceClass p)" "plain (templateName p b)" "plain ''java.util.HashMap''"
  "plain ''java.util.LinkedHashSet''" "plain servicePropertyClass"
  by (simp_all add: serviceClass_def templateName_def cas_class_defs Let_def)

lemma plain_property:
  "plain v \<Longrightarrow> plain (rsp_Class (NewRegisteredServiceProperty [v])) \<and>
     plain_collection (Some (rsp_Values (NewRegisteredServiceProperty [v])))"
  by (simp add: NewRegisteredServiceProperty_def NewStringCollection_def plain_collection_def
      linkedHashSetClass_def plain_texts)

lemma plain_service_properties:
  assumes "plain_registration reg" "plain fqdn"
  shows "plain_json (RegisteredServiceProperties_MarshalJSON (service_properties reg fqdn))"
proof -
  have "plain (escapeDots fqdn)" "plain (logoutURLForRegistration reg fqdn)" "plain (reg_Consumer reg)"
    using assms
    by (auto simp: escapeDots_def logoutURLForRegistration_def plain_registration_def Let_def
        intro!: plain_ReplaceAll plain_path_Join plain_TrimSpace)
  note p = plain_property [OF this(1)] plain_property [OF this(2)] plain_property [OF this(3)]
    plain_property [OF plain_texts(1)]
  show ?thesis
  proof (rule plain_properties)
    show "plain (rsps_Class (service_properties reg fqdn))"
      by (simp add: service_properties_def Let_def NewRegisteredServiceProperties_def hashMapClass_def)
  next
    fix k q
    assume "fmlookup (rsps_Entries (service_properties reg fqdn)) k = Some q"
    then show "plain k \<and> plain (rsp_Class q) \<and> plain_collection (Some (rsp_Values q))"
      unfolding service_properties_lookup using p by (auto split: if_splits)
  qed
qed

lemma plain_resolveClientID:
  assumes "plain_registration reg" "\<And>s. ex = Some s \<Longrightarrow> plain (rs_ClientID s)"
  shows "plain (resolveClientID reg ex)"
  using assms plain_TrimSpace [OF plain_param [OF assms(1)]]
  by (auto simp: resolveClientID_def Let_def plain_registration_def split: option.split)

lemma plain_service_for:
  assumes "plain_registration reg" "plain fqdn" "\<And>s. ex = Some s \<Longrightarrow> plain_service s"
  shows "plain_service (service_for fqdn reg ex sec)"
proof -
  have id: "plain (resolveClientID reg ex)"
    using plain_resolveClientID [OF assms(1)] assms(3) by (auto simp: plain_service_iff)
  have "plain (registrationServiceID fqdn (reg_Consumer reg))"
    using assms(1,2) by (auto simp: registrationServiceID_def escapeDots_def plain_registration_def
        intro!: plain_ReplaceAll)
  moreover have "plain (reg_Consumer reg)" using assms(1) by (simp add: plain_registration_def)
  ultimately show ?thesis
    using id plain_service_properties [OF assms(1,2)] plain_newSetParam [OF assms(1)] plain_texts(1,2) plain_hex_string
    by (simp add: plain_service_iff service_for_def Let_def addOIDCFields_def addOAuthFields_def
        zero_RegisteredService_def plain_collection_def hashClientSecret_def)
qed

end
