(* ===== verification/CasClient.thy ===== *)
theory CasClient imports CasInterfaces begin

text \<open>
  internal/registration/cas/client.go: the HTTP client of the CAS actuator endpoint
  registeredServices. The network is an effect; net/url is an argument, since the operator
  only asks whether a text is a URL, for its path and for its text. Requests are built and
  answers are judged exactly as the code does; what the server does with a request is left
  open.
\<close>

section \<open>HTTP as the client sees it\<close>

record url =
  url_Path :: string
  url_Text :: string

record httpRequest =
  rq_Method :: string
  rq_URL :: url
  rq_Body :: "string option"
  rq_BasicAuth :: "(string \<times> string) option"
  rq_Header :: "string \<rightharpoonup> string"

text \<open>The body is what io.ReadAll gives on it.\<close>

record httpResponse =
  rp_StatusCode :: int
  rp_Body :: "string result"

record 'w httpClient =
  hc_Timeout :: int64
  hc_Do :: "httpRequest \<Rightarrow> ('w, httpResponse result) io"

text \<open>net/url, and the client http.Client with a given timeout.\<close>

record 'w netLib =
  url_Parse :: "string \<Rightarrow> url result"
  url_ParseRequestURI :: "string \<Rightarrow> url result"
  http_Client :: "int64 \<Rightarrow> 'w httpClient"

definition StatusOK :: int where "StatusOK = 200"
definition StatusCreated :: int where "StatusCreated = 201"
definition StatusNoContent :: int where "StatusNoContent = 204"
definition StatusNotFound :: int where "StatusNotFound = 404"

lemmas status_defs [go_consts] =
  StatusOK_def StatusCreated_def StatusNoContent_def StatusNotFound_def

text \<open>http.NewRequestWithContext for the methods used here: it fails when the URL does not parse.\<close>

definition NewRequest :: "'w netLib \<Rightarrow> string \<Rightarrow> string \<Rightarrow> string option \<Rightarrow> httpRequest result" where
  "NewRequest N method u body =
     (case url_Parse N u of
        Inl err \<Rightarrow> Inl err
      | Inr parsed \<Rightarrow>
          Inr \<lparr>rq_Method = method, rq_URL = parsed, rq_Body = body, rq_BasicAuth = None,
               rq_Header = Map.empty\<rparr>)"

definition SetHeader :: "string \<Rightarrow> string \<Rightarrow> httpRequest \<Rightarrow> httpRequest" where
  "SetHeader k v req = req\<lparr>rq_Header := (rq_Header req)(k \<mapsto> v)\<rparr>"

definition SetBasicAuth :: "string \<Rightarrow> string \<Rightarrow> httpRequest \<Rightarrow> httpRequest" where
  "SetBasicAuth user pass req = req\<lparr>rq_BasicAuth := Some (user, pass)\<rparr>"

section \<open>The client\<close>

definition registeredServicesPath :: string where
  "registeredServicesPath = ''/actuator/registeredServices''"
definition contentTypeJSON :: string where "contentTypeJSON = ''application/json''"

text \<open>Durations are nanoseconds.\<close>

definition defaultClientTimeout :: int64 where "defaultClientTimeout = 10 * 1000000000"

record ClientConfig =
  cc_BaseURL :: string
  cc_Username :: string
  cc_Password :: string
  cc_Timeout :: int64

record 'w Client =
  cl_cfg :: ClientConfig
  cl_httpClient :: "'w httpClient"

definition NewClient ::
    "'w netLib \<Rightarrow> ClientConfig \<Rightarrow> 'w httpClient option \<Rightarrow> 'w Client result" where
  "NewClient N cfg0 httpClient =
     (let cfg = cfg0\<lparr>cc_BaseURL := TrimRight CHR ''/'' (TrimSpace (cc_BaseURL cfg0))\<rparr>
      in if cc_BaseURL cfg = [] then Inl (Errorf ''base URL must not be empty'')
         else
           (case url_ParseRequestURI N (cc_BaseURL cfg) of
              Inl err \<Rightarrow> Inl (Wrapf (''invalid base URL '' @ quote (cc_BaseURL cfg) @ '': '') err)
            | Inr _ \<Rightarrow>
                if TrimSpace (cc_Username cfg) = [] then Inl (Errorf ''username must not be empty'')
                else if TrimSpace (cc_Password cfg) = [] then Inl (Errorf ''password must not be empty'')
                else
                  (let hc = (case httpClient of
                               Some c \<Rightarrow> c
                             | None \<Rightarrow>
                                 http_Client N (if sint (cc_Timeout cfg) \<le> 0 then defaultClientTimeout
                                                else cc_Timeout cfg))
                   in Inr \<lparr>cl_cfg = cfg, cl_httpClient = hc\<rparr>)))"

definition BaseURL :: "'w Client \<Rightarrow> string" where
  "BaseURL c = cc_BaseURL (cl_cfg c)"

text \<open>
  One exchange. A transport error and an error while reading the body are wrapped; a status
  that is not expected is an \<open>*apiError\<close>.
\<close>

definition do_request :: "'w Client \<Rightarrow> httpRequest \<Rightarrow> int list \<Rightarrow> ('w, string result) io" where
  "do_request c req0 expectedStatusCodes w =
     (let req = SetHeader ''Accept'' contentTypeJSON
                  (SetBasicAuth (cc_Username (cl_cfg c)) (cc_Password (cl_cfg c)) req0);
          line = rq_Method req @ '' '' @ url_Text (rq_URL req)
      in case hc_Do (cl_httpClient c) req w of
           (Inl err, w1) \<Rightarrow> (Inl (Wrapf (''request '' @ line @ '' failed: '') err), w1)
         | (Inr resp, w1) \<Rightarrow>
             (case rp_Body resp of
                Inl err \<Rightarrow> (Inl (Wrapf (''failed to read '' @ line @ '' response: '') err), w1)
              | Inr body \<Rightarrow>
                  if rp_StatusCode resp \<in> set expectedStatusCodes then (Inr body, w1)
                  else (Inl (ApiErr \<lparr>ae_Method = rq_Method req,
                                     ae_URL = url_Text (rq_URL req),
                                     ae_StatusCode = rp_StatusCode resp,
                                     ae_Body = TrimSpace body\<rparr>), w1)))"

definition errorAs :: "go_error \<Rightarrow> apiError option" where
  "errorAs err = (case err of ApiErr e \<Rightarrow> Some e | _ \<Rightarrow> None)"

definition ListServices :: "'w netLib \<Rightarrow> 'w Client \<Rightarrow> ('w, RegisteredService list option result) io" where
  "ListServices N c w =
     (case NewRequest N ''GET'' (cc_BaseURL (cl_cfg c) @ registeredServicesPath) None of
        Inl err \<Rightarrow> (Inl err, w)
      | Inr req \<Rightarrow>
          (case do_request c req [StatusOK] w of
             (Inl err, w1) \<Rightarrow> (Inl err, w1)
           | (Inr body, w1) \<Rightarrow>
               (case parse_json body of
                  None \<Rightarrow> (Inl (Wrapf ''failed to decode list services response: '' syntax_error), w1)
                | Some j \<Rightarrow>
                    (wrap_err ''failed to decode list services response: ''
                       (registeredServicesList_UnmarshalJSON j), w1))))"

text \<open>json.Marshal of a RegisteredService cannot fail: every field has an encoding.\<close>

definition writeService ::
    "'w netLib \<Rightarrow> 'w Client \<Rightarrow> string \<Rightarrow> RegisteredService \<Rightarrow> ('w, RegisteredService result) io" where
  "writeService N c method service w =
     (let payload = print_json (RegisteredService_json service)
      in case NewRequest N method (cc_BaseURL (cl_cfg c) @ registeredServicesPath) (Some payload) of
           Inl err \<Rightarrow> (Inl err, w)
         | Inr req \<Rightarrow>
             (case do_request c (SetHeader ''Content-Type'' contentTypeJSON req)
                     [StatusOK, StatusCreated] w of
                (Inl err, w1) \<Rightarrow> (Inl err, w1)
              | (Inr body, w1) \<Rightarrow>
                  if body = [] then (Inr service, w1)
                  else
                    (let failure = ''failed to decode '' @ ToLower method @ '' response: ''
                     in case parse_json body of
                          None \<Rightarrow> (Inl (Wrapf failure syntax_error), w1)
                        | Some j \<Rightarrow> (wrap_err failure (unmarshal_service zero_RegisteredService j), w1))))"

definition CreateService ::
    "'w netLib \<Rightarrow> 'w Client \<Rightarrow> RegisteredService \<Rightarrow> ('w, RegisteredService result) io" where
  "CreateService N c service = writeService N c ''POST'' service"

definition UpdateService ::
    "'w netLib \<Rightarrow> 'w Client \<Rightarrow> RegisteredService \<Rightarrow> ('w, RegisteredService result) io" where
  "UpdateService N c service = writeService N c ''PUT'' service"

definition DeleteService :: "'w netLib \<Rightarrow> 'w Client \<Rightarrow> int64 \<Rightarrow> ('w, go_error option) io" where
  "DeleteService N c i w =
     (case NewRequest N ''DELETE''
             (cc_BaseURL (cl_cfg c) @ registeredServicesPath @ ''/'' @ show_int64 i) None of
        Inl err \<Rightarrow> (Some err, w)
      | Inr req \<Rightarrow>
          (case do_request c (SetHeader ''Content-Type'' contentTypeJSON req)
                  [StatusOK, StatusNoContent, StatusNotFound] w of
             (Inl err, w1) \<Rightarrow>
               (case errorAs err of
                  Some apiErr \<Rightarrow>
                    if ae_StatusCode apiErr = StatusNotFound then (None, w1) else (Some err, w1)
                | None \<Rightarrow> (Some err, w1))
           | (Inr body, w1) \<Rightarrow> (None, w1)))"

text \<open>The client behind the interface.\<close>

definition Client_apiClient :: "'w netLib \<Rightarrow> 'w Client \<Rightarrow> 'w apiClient" where
  "Client_apiClient N c =
     \<lparr>ac_BaseURL = BaseURL c,
      ac_ListServices = ListServices N c,
      ac_CreateService = CreateService N c,
      ac_UpdateService = UpdateService N c,
      ac_DeleteService = DeleteService N c\<rparr>"

section \<open>Facts about one exchange\<close>

text \<open>The request the server gets: credentials and the accepted type are always set.\<close>

definition sent_request :: "'w Client \<Rightarrow> httpRequest \<Rightarrow> httpRequest" where
  "sent_request c req =
     SetHeader ''Accept'' contentTypeJSON
       (SetBasicAuth (cc_Username (cl_cfg c)) (cc_Password (cl_cfg c)) req)"

lemma do_request_Inr:
  "do_request c req codes w = (Inr body, w1) \<longleftrightarrow>
     (\<exists>resp. hc_Do (cl_httpClient c) (sent_request c req) w = (Inr resp, w1) \<and>
             rp_Body resp = Inr body \<and> rp_StatusCode resp \<in> set codes)"
  by (auto simp: do_request_def sent_request_def Let_def split: prod.splits sum.splits if_splits)

lemma do_request_world: "snd (do_request c req codes w) = snd (hc_Do (cl_httpClient c) (sent_request c req) w)"
  by (auto simp: do_request_def sent_request_def Let_def split: prod.splits sum.splits)

lemma do_request_ApiErr:
  "do_request c req codes w = (Inl (ApiErr e), w1) \<Longrightarrow> ae_StatusCode e \<notin> set codes"
  by (auto simp: do_request_def Let_def split: prod.splits sum.splits if_splits)

lemma NewRequest_Inr:
  "NewRequest N m u b = Inr req \<longleftrightarrow>
     (\<exists>p. url_Parse N u = Inr p \<and>
        req = \<lparr>rq_Method = m, rq_URL = p, rq_Body = b, rq_BasicAuth = None, rq_Header = Map.empty\<rparr>)"
  by (auto simp: NewRequest_def split: sum.splits)

text \<open>The branch of DeleteService for an error of status 404 is never taken.\<close>

lemma DeleteService_404_dead:
  assumes "do_request c req [StatusOK, StatusNoContent, StatusNotFound] w = (Inl err, w1)"
  shows "(case errorAs err of
            Some apiErr \<Rightarrow> if ae_StatusCode apiErr = StatusNotFound then (None, w1) else (Some err, w1)
          | None \<Rightarrow> (Some err, w1)) = (Some err, w1)"
  using assms by (cases err) (auto simp: errorAs_def dest: do_request_ApiErr)

lemma DeleteService_eq:
  "DeleteService N c i w =
     (case NewRequest N ''DELETE''
             (cc_BaseURL (cl_cfg c) @ registeredServicesPath @ ''/'' @ show_int64 i) None of
        Inl err \<Rightarrow> (Some err, w)
      | Inr req \<Rightarrow>
          (case do_request c (SetHeader ''Content-Type'' contentTypeJSON req)
                  [StatusOK, StatusNoContent, StatusNotFound] w of
             (Inl err, w1) \<Rightarrow> (Some err, w1)
           | (Inr body, w1) \<Rightarrow> (None, w1)))"
  by (auto simp: DeleteService_def DeleteService_404_dead split: sum.splits prod.splits)

lemma DeleteService_None:
  "DeleteService N c i w = (None, w1) \<longleftrightarrow>
     (\<exists>req body. NewRequest N ''DELETE''
             (cc_BaseURL (cl_cfg c) @ registeredServicesPath @ ''/'' @ show_int64 i) None = Inr req \<and>
        do_request c (SetHeader ''Content-Type'' contentTypeJSON req) [StatusOK, StatusNoContent, StatusNotFound] w =
          (Inr body, w1))"
  by (auto simp: DeleteService_eq split: sum.splits prod.splits)

text \<open>What NewClient accepts.\<close>

lemma NewClient_Inr:
  assumes "NewClient N cfg hc = Inr c"
  shows "BaseURL c = TrimRight CHR ''/'' (TrimSpace (cc_BaseURL cfg))"
    and "BaseURL c \<noteq> []"
    and "\<exists>u. url_ParseRequestURI N (BaseURL c) = Inr u"
    and "cl_cfg c = cfg\<lparr>cc_BaseURL := BaseURL c\<rparr>"
    and "TrimSpace (cc_Username cfg) \<noteq> []"
    and "TrimSpace (cc_Password cfg) \<noteq> []"
    and "cl_httpClient c =
           (case hc of Some h \<Rightarrow> h
            | None \<Rightarrow> http_Client N (if sint (cc_Timeout cfg) \<le> 0 then defaultClientTimeout
                                    else cc_Timeout cfg))"
  using assms by (auto simp: NewClient_def BaseURL_def Let_def split: if_splits sum.splits option.splits)

end
