(* ===== verification/CasBackend.thy ===== *)
theory CasBackend imports CasMapper CasClient begin

text \<open>
  internal/registration/cas/cas_service_registration_backend.go: the backend that keeps one
  CAS service per consumer. It lists the services, finds the consumer's by the property
  ServiceName, settles the client secret and creates or updates the service; deletion needs
  the service's numeric id. The source of random bytes is an effect, as is every call of the
  API client.
\<close>

section \<open>The backend\<close>

record 'w CASServiceRegistrationBackend =
  be_client :: "'w apiClient"
  be_mapper :: "'w registrationMapper"
  be_randomRead :: "nat \<Rightarrow> ('w, bytes result) io"

text \<open>A nil client is \<open>None\<close>; the mapper gets the path of the base URL.\<close>

definition NewCASServiceRegistrationBackend ::
    "'w netLib \<Rightarrow> (nat \<Rightarrow> ('w, bytes result) io) \<Rightarrow> 'w globalConfigRepo \<Rightarrow> 'w apiClient option \<Rightarrow>
     'w CASServiceRegistrationBackend result" where
  "NewCASServiceRegistrationBackend N randomRead repo client =
     (case client of
        None \<Rightarrow> Inl (Errorf ''client must not be nil'')
      | Some c \<Rightarrow>
          (case url_ParseRequestURI N (ac_BaseURL c) of
             Inl err \<Rightarrow> Inl (Wrapf (''invalid base URL '' @ quote (ac_BaseURL c) @ '': '') err)
           | Inr casBaseUrl \<Rightarrow>
               Inr \<lparr>be_client = c,
                    be_mapper = serviceMapper_registrationMapper (newServiceMapper repo (url_Path casBaseUrl)),
                    be_randomRead = randomRead\<rparr>))"

text \<open>The loop over the services, with the match found so far.\<close>

fun findService_loop ::
    "RegisteredService option \<Rightarrow> RegisteredService list \<Rightarrow> string \<Rightarrow> RegisteredService option result" where
  "findService_loop match [] consumer = Inr match"
| "findService_loop match (s # ss) consumer =
     (if GetFirstValue (rs_Properties s) ''ServiceName'' \<noteq> consumer then
        findService_loop match ss consumer
      else if match \<noteq> None then
        Inl (Errorf (''multiple Cas services found for consumer '' @ quote consumer))
      else findService_loop (Some s) ss consumer)"

definition findServiceByConsumer ::
    "RegisteredService list \<Rightarrow> string \<Rightarrow> RegisteredService option result" where
  "findServiceByConsumer services consumer = findService_loop None services consumer"

definition generateClientSecret :: "'w CASServiceRegistrationBackend \<Rightarrow> ('w, string result) io" where
  "generateClientSecret b w =
     (case be_randomRead b 32 w of
        (Inl err, w1) \<Rightarrow> (Inl (Wrapf ''failed to generate client secret: '' err), w1)
      | (Inr bs, w1) \<Rightarrow> (Inr (EncodeToString bs), w1))"

definition resolveClientSecret ::
    "'w CASServiceRegistrationBackend \<Rightarrow> Registration \<Rightarrow> RegistrationData \<Rightarrow> ('w, string result) io" where
  "resolveClientSecret b reg existingData w =
     (if reg_Protocol reg = ProtocolCAS then (Inr [], w)
      else
        (case ClientSecret existingData (reg_Protocol reg) of
           (existingClientSecret, ok) \<Rightarrow>
             if \<not> ok then (Inl (Errorf (''unsupported protocol '' @ quote (reg_Protocol reg))), w)
             else if existingClientSecret \<noteq> [] then (Inr existingClientSecret, w)
             else generateClientSecret b w))"

definition Upsert ::
    "'w CASServiceRegistrationBackend \<Rightarrow> Registration \<Rightarrow> RegistrationData \<Rightarrow>
     ('w, RegistrationResult result) io" where
  "Upsert b reg existingData w =
     (case rm_ValidateRegistration (be_mapper b) reg of
        Some err \<Rightarrow> (Inl err, w)
      | None \<Rightarrow>
     (case ac_ListServices (be_client b) w of
        (Inl err, w1) \<Rightarrow> (Inl (Wrapf ''failed to list Cas services: '' err), w1)
      | (Inr services, w1) \<Rightarrow>
     (case findServiceByConsumer (slice services) (reg_Consumer reg) of
        Inl err \<Rightarrow> (Inl err, w1)
      | Inr existing \<Rightarrow>
     (case resolveClientSecret b reg existingData w1 of
        (Inl err, w2) \<Rightarrow> (Inl err, w2)
      | (Inr clientSecret, w2) \<Rightarrow>
     (case rm_BuildServicePayload (be_mapper b) reg existing (slice services) clientSecret w2 of
        (Inl err, w3) \<Rightarrow> (Inl err, w3)
      | (Inr service, w3) \<Rightarrow>
     (case (if existing = None then
              wrapping (''failed to create Cas service for consumer '' @ quote (reg_Consumer reg) @ '': '')
                (ac_CreateService (be_client b) service) w3
            else
              wrapping (''failed to update Cas service for consumer '' @ quote (reg_Consumer reg) @ '': '')
                (ac_UpdateService (be_client b) service) w3) of
        (Inl err, w4) \<Rightarrow> (Inl err, w4)
      | (Inr persisted, w4) \<Rightarrow>
          rm_BuildRegistrationResult (be_mapper b) reg persisted clientSecret w4))))))"

definition Delete :: "'w CASServiceRegistrationBackend \<Rightarrow> Registration \<Rightarrow> ('w, go_error option) io" where
  "Delete b reg w =
     (if TrimSpace (reg_Consumer reg) = [] then (Some (Errorf ''consumer must not be empty''), w)
      else
     (case ac_ListServices (be_client b) w of
        (Inl err, w1) \<Rightarrow> (Some (Wrapf ''failed to list Cas services: '' err), w1)
      | (Inr services, w1) \<Rightarrow>
     (case findServiceByConsumer (slice services) (reg_Consumer reg) of
        Inl err \<Rightarrow> (Some err, w1)
      | Inr None \<Rightarrow> (None, w1)
      | Inr (Some existing) \<Rightarrow>
          if rs_ID existing = 0 then
            (Some (Errorf (''cas-service for consumer '' @ quote (reg_Consumer reg) @ '' has no numeric id'')), w1)
          else
            (case ac_DeleteService (be_client b) (rs_ID existing) w1 of
               (Some err, w2) \<Rightarrow>
                 (Some (Wrapf (''failed to delete Cas service for consumer '' @ quote (reg_Consumer reg) @ '': '') err), w2)
             | (None, w2) \<Rightarrow> (None, w2)))))"

text \<open>The backend behind the interface serviceRegistrationBackend.\<close>

definition backend_interface :: "'w CASServiceRegistrationBackend \<Rightarrow> 'w serviceRegistrationBackend" where
  "backend_interface b = \<lparr>sb_Upsert = Upsert b, sb_Delete = Delete b\<rparr>"

section \<open>Finding the consumer's service\<close>

lemma findService_loop_eq:
  "findService_loop match ss consumer =
     (case (match, filter (serves consumer) ss) of
        (m, []) \<Rightarrow> Inr m
      | (None, [s]) \<Rightarrow> Inr (Some s)
      | _ \<Rightarrow> Inl (Errorf (''multiple Cas services found for consumer '' @ quote consumer)))"
  by (induction ss arbitrary: match) (auto simp: serves_def split: list.splits option.splits)

lemma findServiceByConsumer_eq:
  "findServiceByConsumer ss consumer =
     (case filter (serves consumer) ss of
        [] \<Rightarrow> Inr None
      | [s] \<Rightarrow> Inr (Some s)
      | _ \<Rightarrow> Inl (Errorf (''multiple Cas services found for consumer '' @ quote consumer)))"
  by (simp add: findServiceByConsumer_def findService_loop_eq)

lemma findServiceByConsumer_Some:
  "findServiceByConsumer ss c = Inr (Some s) \<longleftrightarrow> filter (serves c) ss = [s]"
  by (auto simp: findServiceByConsumer_eq split: list.splits)

lemma findServiceByConsumer_None:
  "findServiceByConsumer ss c = Inr None \<longleftrightarrow> (\<forall>s\<in>set ss. \<not> serves c s)"
  unfolding filter_empty_conv [symmetric] by (auto simp: findServiceByConsumer_eq split: list.splits)

section \<open>The client secret\<close>

lemma resolveClientSecret_Inr:
  "resolveClientSecret b reg d w = (Inr sec, w') \<longleftrightarrow>
     (if reg_Protocol reg = ProtocolCAS then sec = [] \<and> w' = w
      else reg_Protocol reg \<in> {ProtocolOIDC, ProtocolOAuth} \<and>
           (if fst (ClientSecret d (reg_Protocol reg)) \<noteq> []
            then sec = fst (ClientSecret d (reg_Protocol reg)) \<and> w' = w
            else \<exists>bs. be_randomRead b 32 w = (Inr bs, w') \<and> sec = EncodeToString bs))"
  by (cases "ClientSecret d (reg_Protocol reg)")
     (auto simp: resolveClientSecret_def generateClientSecret_def ClientSecret_def
       split: prod.splits sum.splits if_splits)

text \<open>A client secret is trimmed: what is published is read back as it is.\<close>

lemma resolveClientSecret_trimmed:
  assumes "resolveClientSecret b reg d w = (Inr sec, w')"
  shows "TrimSpace sec = sec"
  using assms by (auto simp: resolveClientSecret_Inr ClientSecret_trimmed split: if_splits)

text \<open>A protocol with a secret gets one that is not empty, when the random source gives what it is asked for.\<close>

lemma resolveClientSecret_nonempty:
  assumes "resolveClientSecret b reg d w = (Inr sec, w')" "reg_Protocol reg \<in> {ProtocolOIDC, ProtocolOAuth}"
    and "\<And>bs w1. be_randomRead b 32 w = (Inr bs, w1) \<Longrightarrow> length bs = 32"
  shows "sec \<noteq> []"
proof -
  have "EncodeToString bs \<noteq> []" if "length bs = 32" for bs
    using length_EncodeToString [of bs] that by auto
  with assms show ?thesis by (auto simp: resolveClientSecret_Inr split: if_splits)
qed

section \<open>Upsert, step by step\<close>

definition write_service ::
    "'w CASServiceRegistrationBackend \<Rightarrow> RegisteredService option \<Rightarrow> RegisteredService \<Rightarrow>
     ('w, RegisteredService result) io" where
  "write_service b existing service =
     (if existing = None then ac_CreateService (be_client b) service
      else ac_UpdateService (be_client b) service)"

text \<open>A successful Upsert is exactly this sequence of successful steps.\<close>

lemma Upsert_Inr:
  "Upsert b reg d w = (Inr rr, w') \<longleftrightarrow>
     (\<exists>services w1 existing sec w2 service w3 persisted w4.
        rm_ValidateRegistration (be_mapper b) reg = None \<and>
        ac_ListServices (be_client b) w = (Inr services, w1) \<and>
        findServiceByConsumer (slice services) (reg_Consumer reg) = Inr existing \<and>
        resolveClientSecret b reg d w1 = (Inr sec, w2) \<and>
        rm_BuildServicePayload (be_mapper b) reg existing (slice services) sec w2 = (Inr service, w3) \<and>
        write_service b existing service w3 = (Inr persisted, w4) \<and>
        rm_BuildRegistrationResult (be_mapper b) reg persisted sec w4 = (Inr rr, w'))"
  by (auto simp: Upsert_def write_service_def split: option.splits prod.splits sum.splits if_splits)

text \<open>A successful Delete: nothing to delete, or the service with its id.\<close>

lemma Delete_None:
  "Delete b reg w = (None, w') \<longleftrightarrow>
     (TrimSpace (reg_Consumer reg) \<noteq> [] \<and>
      (\<exists>services w1. ac_ListServices (be_client b) w = (Inr services, w1) \<and>
         (findServiceByConsumer (slice services) (reg_Consumer reg) = Inr None \<and> w' = w1 \<or>
          (\<exists>s. findServiceByConsumer (slice services) (reg_Consumer reg) = Inr (Some s) \<and>
               rs_ID s \<noteq> 0 \<and> ac_DeleteService (be_client b) (rs_ID s) w1 = (None, w')))))"
  by (auto simp: Delete_def split: option.splits prod.splits sum.splits if_splits)

section \<open>From the mapper's contract\<close>

context registration_mapper
begin

lemma upsert_valid_reg:
  assumes "Upsert b reg d w = (Inr rr, w')" "be_mapper b = M"
  shows "valid_registration reg"
  using assms by (auto simp: Upsert_Inr validate)

lemma upsert_result_protocol:
  assumes "Upsert b reg d w = (Inr rr, w')" "be_mapper b = M"
  shows "rr_Protocol rr = reg_Protocol reg"
  using assms(1) unfolding Upsert_Inr assms(2) by (auto dest: result_protocol)

text \<open>The published secret: none for CAS, the trimmed one the backend resolved otherwise.\<close>

lemma upsert_result_secret:
  assumes "Upsert b reg d w = (Inr rr, w')" "be_mapper b = M"
  shows "\<exists>sec w1 w2. resolveClientSecret b reg d w1 = (Inr sec, w2) \<and>
     result_secret rr = (if reg_Protocol reg \<in> {ProtocolOIDC, ProtocolOAuth} then Some sec else None)"
  using assms(1) unfolding Upsert_Inr assms(2) by (elim exE conjE) (drule result_secret, blast)

lemma upsert_secret_present:
  assumes "Upsert b reg d w = (Inr rr, w')" "be_mapper b = M"
    and "reg_Protocol reg \<in> {ProtocolOIDC, ProtocolOAuth}"
    and "\<And>v bs w1. be_randomRead b 32 v = (Inr bs, w1) \<Longrightarrow> length bs = 32"
  shows "\<exists>sec. result_secret rr = Some sec \<and> TrimSpace sec \<noteq> []"
proof -
  obtain sec w1 w2 where s: "resolveClientSecret b reg d w1 = (Inr sec, w2)" "result_secret rr = Some sec"
    using upsert_result_secret [OF assms(1,2)] assms(3) by auto
  moreover have "sec \<noteq> []" using resolveClientSecret_nonempty [OF s(1) assms(3)] assms(4) by blast
  ultimately show ?thesis using resolveClientSecret_trimmed [OF s(1)] by simp
qed

lemma upsert_keeps_secret:
  assumes "Upsert b reg d w = (Inr rr, w')" "be_mapper b = M"
    and "fst (ClientSecret d (reg_Protocol reg)) \<noteq> []"
  shows "result_secret rr = Some (fst (ClientSecret d (reg_Protocol reg)))"
proof -
  from assms(3) have p: "reg_Protocol reg \<in> {ProtocolOIDC, ProtocolOAuth}"
    by (auto simp: ClientSecret_def split: if_splits)
  with upsert_result_secret [OF assms(1,2)] assms(3) show ?thesis
    by (auto simp: resolveClientSecret_Inr split: if_splits)
qed

text \<open>The payload that is written: id, consumer and hashed secret.\<close>

lemma upsert_writes:
  assumes "Upsert b reg d w = (Inr rr, w')" "be_mapper b = M"
  shows "\<exists>services w1 existing service w3 persisted w4.
     ac_ListServices (be_client b) w = (Inr services, w1) \<and>
     findServiceByConsumer (slice services) (reg_Consumer reg) = Inr existing \<and>
     write_service b existing service w3 = (Inr persisted, w4) \<and>
     rs_ID service = existing_id existing \<and> serves (reg_Consumer reg) service \<and>
     rr_RegistrationID rr = show_int64 (rs_ID persisted)"
proof -
  from assms obtain services w1 existing sec w2 service w3 persisted w4 where
    s: "ac_ListServices (be_client b) w = (Inr services, w1)"
      "findServiceByConsumer (slice services) (reg_Consumer reg) = Inr existing"
      "rm_BuildServicePayload M reg existing (slice services) sec w2 = (Inr service, w3)"
      "write_service b existing service w3 = (Inr persisted, w4)"
      "rm_BuildRegistrationResult M reg persisted sec w4 = (Inr rr, w')"
    by (auto simp: Upsert_Inr)
  have "rs_ID service = existing_id existing" "serves (reg_Consumer reg) service"
    "rr_RegistrationID rr = show_int64 (rs_ID persisted)"
    using payload_id [OF s(3)] payload_consumer [OF s(3)] result_id [OF s(5)] by (simp_all add: serves_def)
  with s(1,2,4) show ?thesis by blast
qed

end

section \<open>The contract of the backend\<close>

text \<open>
  Every effect of the backend keeps \<open>I\<close>: the API client, the reads of the configuration and
  the random source do not touch the rest of the world.
\<close>

definition keeps :: "('w \<Rightarrow> bool) \<Rightarrow> ('w, 'a) io \<Rightarrow> bool" where
  "keeps I m \<longleftrightarrow> (\<forall>w. I w \<longrightarrow> I (snd (m w)))"

lemma keepsD: "keeps I m \<Longrightarrow> m w = (x, w') \<Longrightarrow> I w \<Longrightarrow> I w'"
  by (metis keeps_def snd_conv)

definition effects_keep :: "'w CASServiceRegistrationBackend \<Rightarrow> ('w \<Rightarrow> bool) \<Rightarrow> bool" where
  "effects_keep b I \<longleftrightarrow>
     keeps I (ac_ListServices (be_client b)) \<and>
     (\<forall>s. keeps I (ac_CreateService (be_client b) s)) \<and>
     (\<forall>s. keeps I (ac_UpdateService (be_client b) s)) \<and>
     (\<forall>i. keeps I (ac_DeleteService (be_client b) i)) \<and>
     (\<forall>reg ex ss sec. keeps I (rm_BuildServicePayload (be_mapper b) reg ex ss sec)) \<and>
     (\<forall>reg s sec. keeps I (rm_BuildRegistrationResult (be_mapper b) reg s sec)) \<and>
     (\<forall>n. keeps I (be_randomRead b n))"

lemma resolveClientSecret_keeps:
  assumes "effects_keep b I"
  shows "keeps I (resolveClientSecret b reg d)"
  using assms
  by (auto simp: keeps_def effects_keep_def resolveClientSecret_def generateClientSecret_def
      split: prod.splits sum.splits) (metis snd_conv)+

lemma effects_keepD:
  assumes "effects_keep b I"
  shows "ac_ListServices (be_client b) w = (r1, w') \<Longrightarrow> I w \<Longrightarrow> I w'"
    "ac_CreateService (be_client b) s w = (r2, w') \<Longrightarrow> I w \<Longrightarrow> I w'"
    "ac_UpdateService (be_client b) s w = (r3, w') \<Longrightarrow> I w \<Longrightarrow> I w'"
    "ac_DeleteService (be_client b) i w = (r4, w') \<Longrightarrow> I w \<Longrightarrow> I w'"
    "rm_BuildServicePayload (be_mapper b) reg ex ss sec w = (r5, w') \<Longrightarrow> I w \<Longrightarrow> I w'"
    "rm_BuildRegistrationResult (be_mapper b) reg s sec w = (r6, w') \<Longrightarrow> I w \<Longrightarrow> I w'"
    "resolveClientSecret b reg d w = (r7, w') \<Longrightarrow> I w \<Longrightarrow> I w'"
  by (insert assms resolveClientSecret_keeps [OF assms, of reg d], unfold effects_keep_def, elim conjE, metis keepsD)+

lemma Upsert_keeps:
  assumes "effects_keep b I"
  shows "keeps I (Upsert b reg d)"
  unfolding keeps_def Upsert_def wrapping_def
  by (auto split: option.splits prod.splits sum.splits if_splits
      dest: effects_keepD [OF assms] intro!: effects_keepD(6) [OF assms prod.collapse [symmetric]])

lemma Delete_keeps:
  assumes "effects_keep b I"
  shows "keeps I (Delete b reg)"
  using assms unfolding keeps_def Delete_def effects_keep_def
  by (auto split: option.splits prod.splits sum.splits if_splits) (metis snd_conv)+

text \<open>The backend as main wires it: the service mapper, any API client and random source.\<close>

definition cas_backend ::
    "'w apiClient \<Rightarrow> 'w serviceMapper \<Rightarrow> (nat \<Rightarrow> ('w, bytes result) io) \<Rightarrow> 'w CASServiceRegistrationBackend" where
  "cas_backend C m R =
     \<lparr>be_client = C, be_mapper = serviceMapper_registrationMapper m, be_randomRead = R\<rparr>"

lemma cas_backend_mapper [simp]: "be_mapper (cas_backend C m R) = serviceMapper_registrationMapper m"
  by (simp add: cas_backend_def)

interpretation cas: service_backend "backend_interface (cas_backend C m R)"
    "\<lambda>w. effects_keep (cas_backend C m R) I \<and> I w"
  for C :: "'w apiClient" and m :: "'w serviceMapper" and R :: "nat \<Rightarrow> ('w, bytes result) io" and I
proof unfold_locales
  fix w reg d
  assume a: "effects_keep (cas_backend C m R) I \<and> I w"
  show "effects_keep (cas_backend C m R) I \<and> I (snd (sb_Upsert (backend_interface (cas_backend C m R)) reg d w))"
    using a Upsert_keeps [of "cas_backend C m R" I] by (simp add: backend_interface_def keeps_def)
  show "effects_keep (cas_backend C m R) I \<and> I (snd (sb_Delete (backend_interface (cas_backend C m R)) reg w))"
    using a Delete_keeps [of "cas_backend C m R" I] by (simp add: backend_interface_def keeps_def)
next
  fix w reg d rr w'
  assume u: "sb_Upsert (backend_interface (cas_backend C m R)) reg d w = (Inr rr, w')"
  then have u': "Upsert (cas_backend C m R) reg d w = (Inr rr, w')" by (simp add: backend_interface_def)
  show "valid_registration reg" using sm.upsert_valid_reg [OF u'] by simp
  show "rr_Protocol rr = reg_Protocol reg" using sm.upsert_result_protocol [OF u'] by simp
  show "fst (ClientSecret d (reg_Protocol reg)) \<noteq> [] \<Longrightarrow>
      result_secret rr = Some (fst (ClientSecret d (reg_Protocol reg)))"
    using sm.upsert_keeps_secret [OF u'] by simp
qed

section \<open>The registry\<close>

text \<open>The configuration and the random source are not the registry.\<close>

definition config_apart ::
    "'w serviceMapper \<Rightarrow> (nat \<Rightarrow> ('w, bytes result) io) \<Rightarrow> ('w \<Rightarrow> 'x) \<Rightarrow> bool" where
  "config_apart m R G \<longleftrightarrow>
     (\<forall>w r w1. GetGlobalConfig (sm_globalConfigRepo m) w = (r, w1) \<longrightarrow> G w1 = G w) \<and>
     (\<forall>n w r w1. R n w = (r, w1) \<longrightarrow> G w1 = G w)"

lemma config_apart_getFQDN:
  assumes "config_apart m R G" "getFQDN m w = (r, w1)"
  shows "G w1 = G w"
  using assms by (auto simp: config_apart_def getFQDN_def split: prod.splits sum.splits option.splits)

lemma config_apart_secret:
  assumes "config_apart m R G" "resolveClientSecret (cas_backend C m R) reg d w = (r, w1)"
  shows "G w1 = G w"
  using assms
  by (auto simp: config_apart_def resolveClientSecret_def generateClientSecret_def cas_backend_def
      split: prod.splits sum.splits option.splits if_splits)

lemma findService_registry:
  assumes "mset ss = G"
  shows "findServiceByConsumer ss c = Inr (Some s) \<longleftrightarrow> services_of G c = {#s#}"
    "findServiceByConsumer ss c = Inr None \<longleftrightarrow> services_of G c = {#}"
  using assms
  by (auto simp: findServiceByConsumer_Some findServiceByConsumer_None services_of_def
      filter_empty_conv simp flip: mset_filter)

text \<open>
  The records an Upsert can write for a registration satisfy \<open>ok\<close>: those built for a domain name
  the configuration gives, and over a service of the registry or none.
\<close>

definition writes_ok :: "(RegisteredService \<Rightarrow> bool) \<Rightarrow> 'w serviceMapper \<Rightarrow> Registration \<Rightarrow> registry \<Rightarrow> bool" where
  "writes_ok ok m reg H \<longleftrightarrow>
     (\<forall>fqdn ex sec w w1. getFQDN m w = (Inr fqdn, w1) \<longrightarrow> (\<forall>s. ex = Some s \<longrightarrow> s \<in># H) \<longrightarrow>
        ok (service_for fqdn reg ex sec))"

lemma writes_ok_True [simp]: "writes_ok (\<lambda>s. True) m reg H"
  by (simp add: writes_ok_def)

text \<open>What a successful Upsert writes into the registry.\<close>

lemma Upsert_registry:
  assumes laws: "registry_laws valid C G" "config_apart m R G" and ok: "registry_ok (G w)" "writes_ok valid m reg (G w)"
    and run: "Upsert (cas_backend C m R) reg d w = (Inr rr, w')"
  obtains ex fqdn sec p fqdn' where
    "services_of (G w) (reg_Consumer reg) = (case ex of None \<Rightarrow> {#} | Some s \<Rightarrow> {#s#})"
    "p = (service_for fqdn reg ex sec)\<lparr>rs_ID := rs_ID p\<rparr>"
    "rs_ID p \<noteq> 0"
    "case ex of None \<Rightarrow> rs_ID p \<notin># image_mset rs_ID (G w) | Some s \<Rightarrow> rs_ID p = rs_ID s"
    "G w' = add_mset p (case ex of None \<Rightarrow> G w | Some s \<Rightarrow> filter_mset (\<lambda>t. rs_ID t \<noteq> rs_ID s) (G w))"
    "rr = result_for (sm_casBasePath m) fqdn' reg p sec"
    "valid_registration reg"
proof -
  let ?b = "cas_backend C m R"
  have parts: "be_client ?b = C" "be_mapper ?b = serviceMapper_registrationMapper m"
    by (simp_all add: cas_backend_def)
  from run obtain services w1 ex sec w2 service w3 p w4 where
    l: "ac_ListServices C w = (Inr services, w1)" and
    f: "findServiceByConsumer (slice services) (reg_Consumer reg) = Inr ex" and
    s: "resolveClientSecret ?b reg d w1 = (Inr sec, w2)" and
    bp: "BuildServicePayload m reg ex (slice services) sec w2 = (Inr service, w3)" and
    wr: "write_service ?b ex service w3 = (Inr p, w4)" and
    br: "BuildRegistrationResult m reg p sec w4 = (Inr rr, w')"
    unfolding Upsert_Inr parts serviceMapper_registrationMapper_def by auto
  from bp obtain fqdn where q: "getFQDN m w2 = (Inr fqdn, w3)" "service = service_for fqdn reg ex sec"
    by (auto simp: BuildServicePayload_Inr)
  from br obtain fqdn' where q': "getFQDN m w4 = (Inr fqdn', w')"
      "rr = result_for (sm_casBasePath m) fqdn' reg p sec"
    by (auto simp: BuildRegistrationResult_Inr)
  have "G w1 = G w" and ms: "mset (slice services) = G w"
    using laws(1) l unfolding registry_laws_def by blast+
  then have G3: "G w3 = G w"
    using config_apart_secret [OF laws(2) s] config_apart_getFQDN [OF laws(2) q(1)] by simp
  have G4: "G w' = G w4" using config_apart_getFQDN [OF laws(2) q'(1)] .
  have v: "valid_registration reg" using sm.upsert_valid_reg [OF run] by simp
  have "t \<in># G w" if "ex = Some t" for t
  proof -
    have "t \<in># services_of (G w) (reg_Consumer reg)" using f that findService_registry(1) [OF ms] by simp
    then show ?thesis by (simp add: services_of_def)
  qed
  then have wf: "valid service" using ok(2) q unfolding writes_ok_def by blast
  show ?thesis
  proof (cases ex)
    case None
    then have "ac_CreateService C service w3 = (Inr p, w4)" "rs_ID service = 0"
      using wr q(2) by (simp_all add: write_service_def parts serviceId_def)
    then obtain i where "i \<noteq> 0" "i \<notin># image_mset rs_ID (G w3)" "p = service\<lparr>rs_ID := i\<rparr>"
      "G w4 = add_mset p (G w3)"
      using laws(1) wf unfolding registry_laws_def by blast
    with that [of None p fqdn sec fqdn'] None f q q' G3 G4 v show ?thesis
      by (simp add: findService_registry(2) [OF ms])
  next
    case (Some t)
    then have "ac_UpdateService C service w3 = (Inr p, w4)" "rs_ID service = rs_ID t"
      using wr q(2) by (simp_all add: write_service_def parts serviceId_def)
    then have "p = service" "rs_ID service \<in># image_mset rs_ID (G w3)"
      "G w4 = add_mset service (filter_mset (\<lambda>x. rs_ID x \<noteq> rs_ID service) (G w3))"
      using laws(1) wf unfolding registry_laws_def by blast+
    moreover from this(2) G3 ok(1) have "rs_ID service \<noteq> 0" by (metis registry_ok_def)
    ultimately show ?thesis
      using that [of "Some t" p fqdn sec fqdn'] Some f q q' G3 G4 v \<open>rs_ID service = rs_ID t\<close>
      by (simp add: findService_registry(1) [OF ms])
  qed
qed

text \<open>
  So the consumer has exactly one service, everybody else what they had, and ids stay
  distinct.
\<close>

lemma Upsert_services:
  assumes laws: "registry_laws valid C G" "config_apart m R G" and ok: "registry_ok (G w)" "writes_ok valid m reg (G w)"
    and run: "Upsert (cas_backend C m R) reg d w = (Inr rr, w')"
  obtains ex fqdn sec p where
    "services_of (G w) (reg_Consumer reg) = (case ex of None \<Rightarrow> {#} | Some s \<Rightarrow> {#s#})"
    "registry_ok (G w')"
    "services_of (G w') (reg_Consumer reg) = {#p#}"
    "p = (service_for fqdn reg ex sec)\<lparr>rs_ID := rs_ID p\<rparr>"
    "rr_RegistrationID rr = show_int64 (rs_ID p)"
    "case ex of None \<Rightarrow> rs_ID p \<notin># image_mset rs_ID (G w) | Some s \<Rightarrow> rs_ID p = rs_ID s"
    "\<And>c. c \<noteq> reg_Consumer reg \<Longrightarrow> services_of (G w') c = services_of (G w) c"
proof -
  obtain ex fqdn sec p fqdn' where u:
    "services_of (G w) (reg_Consumer reg) = (case ex of None \<Rightarrow> {#} | Some s \<Rightarrow> {#s#})"
    "p = (service_for fqdn reg ex sec)\<lparr>rs_ID := rs_ID p\<rparr>" "rs_ID p \<noteq> 0"
    "case ex of None \<Rightarrow> rs_ID p \<notin># image_mset rs_ID (G w) | Some s \<Rightarrow> rs_ID p = rs_ID s"
    "G w' = add_mset p (case ex of None \<Rightarrow> G w | Some s \<Rightarrow> filter_mset (\<lambda>t. rs_ID t \<noteq> rs_ID s) (G w))"
    "rr = result_for (sm_casBasePath m) fqdn' reg p sec" "valid_registration reg"
    using Upsert_registry [OF laws ok run] .
  have props: "rs_Properties p = Some (service_properties reg fqdn)"
    by (subst u(2)) simp
  then have sp: "serves c p \<longleftrightarrow> c = reg_Consumer reg" for c by (auto simp: serves_def)
  define H where "H = (case ex of None \<Rightarrow> G w | Some s \<Rightarrow> filter_mset (\<lambda>t. rs_ID t \<noteq> rs_ID s) (G w))"
  have H: "G w' = add_mset p H" using u(5) by (simp add: H_def)
  have old: "t \<in># G w \<and> GetFirstValue (rs_Properties t) ''ServiceName'' = reg_Consumer reg" if "ex = Some t" for t
  proof -
    have "t \<in># services_of (G w) (reg_Consumer reg)" using u(1) that by simp
    then show ?thesis by (simp add: services_of_def serves_def)
  qed
  have "rs_ID p \<notin># image_mset rs_ID H" using u(4) by (auto simp: H_def split: option.splits)
  moreover have "registry_ok H" using ok(1) registry_ok_filter by (auto simp: H_def split: option.splits)
  ultimately have R: "registry_ok (G w')" using u(3) registry_ok_add H by simp
  have other: "services_of (G w') c = services_of (G w) c" if "c \<noteq> reg_Consumer reg" for c
    using that sp [of c] old services_of_remove [OF ok(1)]
    by (auto simp: H H_def services_of_def split: option.splits)
  have "services_of H (reg_Consumer reg) = {#}"
  proof (cases ex)
    case None
    then show ?thesis using u(1) by (simp add: H_def)
  next
    case (Some t)
    then have "services_of H (reg_Consumer reg) = filter_mset (\<lambda>x. rs_ID x \<noteq> rs_ID t) (services_of (G w) (reg_Consumer reg))"
      by (simp add: H_def services_of_def filter_filter_mset conj_commute)
    then show ?thesis using u(1) Some by simp
  qed
  then have one: "services_of (G w') (reg_Consumer reg) = {#p#}"
    using sp by (simp add: H services_of_def)
  show ?thesis using that [OF u(1) R one u(2) _ u(4) other] u(6) by simp
qed

text \<open>A successful Delete leaves the consumer without a service.\<close>

lemma Delete_services:
  assumes laws: "registry_laws valid C G" and ok: "registry_ok (G w)"
    and run: "Delete (cas_backend C m R) reg w = (None, w')"
  shows "registry_ok (G w') \<and> services_of (G w') (reg_Consumer reg) = {#} \<and>
     (c \<noteq> reg_Consumer reg \<longrightarrow> services_of (G w') c = services_of (G w) c)"
proof -
  have C: "be_client (cas_backend C m R) = C" by (simp add: cas_backend_def)
  from run obtain services w1 where l: "ac_ListServices C w = (Inr services, w1)" and
    alt: "findServiceByConsumer (slice services) (reg_Consumer reg) = Inr None \<and> w' = w1 \<or>
      (\<exists>s. findServiceByConsumer (slice services) (reg_Consumer reg) = Inr (Some s) \<and>
           rs_ID s \<noteq> 0 \<and> ac_DeleteService C (rs_ID s) w1 = (None, w'))"
    unfolding Delete_None C by blast
  have G1: "G w1 = G w" and ms: "mset (slice services) = G w"
    using laws(1) l unfolding registry_laws_def by blast+
  from alt show ?thesis
  proof
    assume "findServiceByConsumer (slice services) (reg_Consumer reg) = Inr None \<and> w' = w1"
    then show ?thesis using ok G1 by (simp add: findService_registry(2) [OF ms])
  next
    assume "\<exists>s. findServiceByConsumer (slice services) (reg_Consumer reg) = Inr (Some s) \<and>
           rs_ID s \<noteq> 0 \<and> ac_DeleteService C (rs_ID s) w1 = (None, w')"
    then obtain s where s: "services_of (G w) (reg_Consumer reg) = {#s#}"
        "ac_DeleteService C (rs_ID s) w1 = (None, w')"
      by (auto simp: findService_registry(1) [OF ms])
    then have G': "G w' = filter_mset (\<lambda>t. rs_ID t \<noteq> rs_ID s) (G w)"
      using laws(1) G1 unfolding registry_laws_def by metis
    have "s \<in># services_of (G w) (reg_Consumer reg)" using s(1) by simp
    then have m: "s \<in># G w" "GetFirstValue (rs_Properties s) ''ServiceName'' = reg_Consumer reg"
      by (simp_all add: services_of_def serves_def)
    have "services_of (G w') (reg_Consumer reg) =
        filter_mset (\<lambda>t. rs_ID t \<noteq> rs_ID s) (services_of (G w) (reg_Consumer reg))"
      by (simp add: G' services_of_def filter_filter_mset conj_commute)
    then show ?thesis
      using s(1) services_of_remove [OF ok m(1)] m(2) registry_ok_filter [OF ok] by (auto simp: G')
  qed
qed

end
