(* ===== verification/CasServer.thy ===== *)
theory CasServer imports ServiceText CasBackend begin

text \<open>
  The client against a server that speaks JSON: what the actuator endpoint does with the
  requests and how it answers, in terms of the texts that go over the wire, and the result
  that the client then is the registry interface the backend relies on. The server is not code
  of the repository; its behaviour is a hypothesis. It is limited to records with ASCII
  strings, because of the replacement of other bytes on the way.
\<close>

section \<open>The server\<close>

text \<open>A record that one encoding and decoding gives back.\<close>

definition readable :: "RegisteredService \<Rightarrow> bool" where
  "readable s \<longleftrightarrow> entries_ok s \<and> rs_norm s = s \<and> plain_service s"

lemma readable_ID [simp]: "readable (s\<lparr>rs_ID := i\<rparr>) \<longleftrightarrow> readable s"
proof -
  have "rs_norm (s\<lparr>rs_ID := i\<rparr>) = (rs_norm s)\<lparr>rs_ID := i\<rparr>" by (simp add: rs_norm_def)
  moreover have "(rs_norm s)\<lparr>rs_ID := i\<rparr> = s\<lparr>rs_ID := i\<rparr> \<longleftrightarrow> rs_norm s = s"
    by (cases s) (auto simp: rs_norm_def)
  ultimately show ?thesis by (simp add: readable_def entries_ok_def)
qed

definition service_text_of :: "RegisteredService \<Rightarrow> string" where
  "service_text_of s = print_json (RegisteredService_json s)"

text \<open>What a reader of the text takes it for.\<close>

definition reads_service :: "string \<Rightarrow> RegisteredService \<Rightarrow> bool" where
  "reads_service t s \<longleftrightarrow>
     (\<exists>j. parse_json t = Some j \<and> unmarshal_service zero_RegisteredService j = Inr s)"

lemma readable_text: "readable s \<Longrightarrow> reads_service (service_text_of s) s"
  by (auto simp: readable_def reads_service_def service_text_of_def service_text service_roundtrip)

text \<open>The listing in the three forms of CAS.\<close>

definition listing_texts :: "RegisteredService list \<Rightarrow> string set" where
  "listing_texts ss =
     (let arr = JArr (map RegisteredService_json ss)
      in {print_json arr, print_json (JObj [(''services'', arr)])} \<union>
         {print_json (JArr [JStr cl, arr]) |cl. plain cl})"

text \<open>The answer to a request of the client: its status is one of those and its body can be read.\<close>

definition answered :: "'w Client \<Rightarrow> httpRequest \<Rightarrow> int set \<Rightarrow> 'w \<Rightarrow> string \<Rightarrow> 'w \<Rightarrow> bool" where
  "answered c req codes w body w1 \<longleftrightarrow>
     (\<exists>resp. hc_Do (cl_httpClient c) (sent_request c req) w = (Inr resp, w1) \<and>
        rp_Body resp = Inr body \<and> rp_StatusCode resp \<in> codes)"

definition endpoint :: "'w Client \<Rightarrow> string" where
  "endpoint c = cc_BaseURL (cl_cfg c) @ ''/actuator/registeredServices''"

text \<open>
  GET lists the services; POST stores the record of its text under a fresh id and answers with
  it; PUT stores it in place of the one with its id and answers with it or with nothing;
  DELETE removes the one with the id at the end of the address. \<open>G\<close> is the registry.
\<close>

definition lists_services :: "'w netLib \<Rightarrow> 'w Client \<Rightarrow> ('w \<Rightarrow> registry) \<Rightarrow> bool" where
  "lists_services N c G \<longleftrightarrow>
     (\<forall>req w body w1. NewRequest N ''GET'' (endpoint c) None = Inr req \<and> answered c req {200} w body w1 \<longrightarrow>
        G w1 = G w \<and> (\<exists>ss. mset ss = G w \<and> (\<forall>s\<in>set ss. readable s) \<and> body \<in> listing_texts ss))"

definition creates_services :: "'w netLib \<Rightarrow> 'w Client \<Rightarrow> ('w \<Rightarrow> registry) \<Rightarrow> bool" where
  "creates_services N c G \<longleftrightarrow>
     (\<forall>t s req w body w1. NewRequest N ''POST'' (endpoint c) (Some t) = Inr req \<and> reads_service t s \<and> rs_ID s = 0 \<and>
        answered c (SetHeader ''Content-Type'' ''application/json'' req) {200, 201} w body w1 \<longrightarrow>
        (\<exists>i. i \<noteq> 0 \<and> i \<notin># image_mset rs_ID (G w) \<and> body = service_text_of (s\<lparr>rs_ID := i\<rparr>) \<and>
           G w1 = add_mset (s\<lparr>rs_ID := i\<rparr>) (G w)))"

definition updates_services :: "'w netLib \<Rightarrow> 'w Client \<Rightarrow> ('w \<Rightarrow> registry) \<Rightarrow> bool" where
  "updates_services N c G \<longleftrightarrow>
     (\<forall>t s req w body w1. NewRequest N ''PUT'' (endpoint c) (Some t) = Inr req \<and> reads_service t s \<and>
        answered c (SetHeader ''Content-Type'' ''application/json'' req) {200, 201} w body w1 \<longrightarrow>
        rs_ID s \<in># image_mset rs_ID (G w) \<and> (body = [] \<or> body = service_text_of s) \<and>
        G w1 = add_mset s (filter_mset (\<lambda>t. rs_ID t \<noteq> rs_ID s) (G w)))"

definition deletes_services :: "'w netLib \<Rightarrow> 'w Client \<Rightarrow> ('w \<Rightarrow> registry) \<Rightarrow> bool" where
  "deletes_services N c G \<longleftrightarrow>
     (\<forall>i req w body w1. NewRequest N ''DELETE'' (endpoint c @ ''/'' @ show_int64 i) None = Inr req \<and>
        answered c (SetHeader ''Content-Type'' ''application/json'' req) {200, 204, 404} w body w1 \<longrightarrow>
        G w1 = filter_mset (\<lambda>t. rs_ID t \<noteq> i) (G w))"

definition cas_server :: "'w netLib \<Rightarrow> 'w Client \<Rightarrow> ('w \<Rightarrow> registry) \<Rightarrow> bool" where
  "cas_server N c G \<longleftrightarrow>
     lists_services N c G \<and> creates_services N c G \<and> updates_services N c G \<and> deletes_services N c G"

section \<open>The client over it\<close>

lemma do_request_answered:
  "do_request c req codes w = (Inr body, w1) \<longleftrightarrow> answered c req (set codes) w body w1"
  by (simp add: do_request_Inr answered_def)

lemma listing_read:
  assumes "\<forall>s\<in>set ss. readable s" "body \<in> listing_texts ss"
  shows "\<exists>j. parse_json body = Some j \<and> registeredServicesList_UnmarshalJSON j = Inr (Some ss)"
proof -
  let ?arr = "JArr (map RegisteredService_json ss)"
  have n: "map rs_norm ss = ss" using assms(1) by (simp add: readable_def map_idI)
  have e: "\<forall>s\<in>set ss. entries_ok s" using assms(1) by (simp add: readable_def)
  have p: "plain_json ?arr" "numbers_ok ?arr"
    using assms(1) by (auto simp: readable_def plain_service_def list_all_iff)
  note l = listing_all_forms [OF e, unfolded n]
  have "\<exists>j. body = print_json j \<and> numbers_ok j \<and> plain_json j \<and>
      registeredServicesList_UnmarshalJSON j = Inr (Some ss)"
  proof -
    from assms(2) consider "body = print_json ?arr" | "body = print_json (JObj [(''services'', ?arr)])"
      | cl where "body = print_json (JArr [JStr cl, ?arr])" "plain cl"
      unfolding listing_texts_def Let_def by blast
    then show ?thesis
    proof cases
      case 1
      with p l show ?thesis by blast
    next
      case 2
      have "numbers_ok (JObj [(''services'', ?arr)])" "plain_json (JObj [(''services'', ?arr)])"
        using p by simp_all
      with 2 l show ?thesis by blast
    next
      case (3 cl)
      have "numbers_ok (JArr [JStr cl, ?arr])" "plain_json (JArr [JStr cl, ?arr])"
        using p 3(2) by simp_all
      with 3(1) l show ?thesis by blast
    qed
  qed
  then show ?thesis using parse_plain by blast
qed

lemma ListServices_answer:
  assumes "cas_server N c G" "ListServices N c w = (Inr ss, w1)"
  shows "G w1 = G w \<and> mset (slice ss) = G w"
proof -
  from assms(2) obtain req body j where
    r: "NewRequest N ''GET'' (endpoint c) None = Inr req" "answered c req {200} w body w1"
    and j: "parse_json body = Some j" "registeredServicesList_UnmarshalJSON j = Inr ss"
    by (auto simp: ListServices_def endpoint_def registeredServicesPath_def do_request_answered StatusOK_def
        split: sum.splits prod.splits option.splits)
  from assms(1) have "lists_services N c G" by (simp add: cas_server_def)
  with r obtain us where us: "G w1 = G w" "mset us = G w" "\<forall>s\<in>set us. readable s" "body \<in> listing_texts us"
    unfolding lists_services_def by metis
  from listing_read [OF us(3,4)] j have "ss = Some us" by auto
  with us show ?thesis by (simp add: slice_def)
qed

lemma writeService_answer:
  assumes "writeService N c method s w = (Inr p, w1)"
  obtains req body where "NewRequest N method (endpoint c) (Some (service_text_of s)) = Inr req"
    "answered c (SetHeader ''Content-Type'' ''application/json'' req) {200, 201} w body w1"
    "body = [] \<and> p = s \<or> body \<noteq> [] \<and> reads_service body p"
  using assms
  by (auto simp: writeService_def endpoint_def registeredServicesPath_def do_request_answered status_defs
      service_text_of_def reads_service_def contentTypeJSON_def Let_def
      split: sum.splits prod.splits option.splits if_splits)

lemma reads_service_unique: "reads_service t s \<Longrightarrow> reads_service t u \<Longrightarrow> s = u"
  by (auto simp: reads_service_def)

lemma service_text_ne [simp]: "service_text_of s \<noteq> []"
  by (simp add: service_text_of_def RegisteredService_json_def)

lemma CreateService_answer:
  assumes "cas_server N c G" "CreateService N c s w = (Inr p, w1)" "readable s" "rs_ID s = 0"
  shows "\<exists>i. i \<noteq> 0 \<and> i \<notin># image_mset rs_ID (G w) \<and> p = s\<lparr>rs_ID := i\<rparr> \<and> G w1 = add_mset p (G w)"
proof -
  from writeService_answer [OF assms(2) [unfolded CreateService_def]] obtain req body where
    r: "NewRequest N ''POST'' (endpoint c) (Some (service_text_of s)) = Inr req"
      "answered c (SetHeader ''Content-Type'' ''application/json'' req) {200, 201} w body w1"
    and p: "body = [] \<and> p = s \<or> body \<noteq> [] \<and> reads_service body p" by metis
  from assms(1) have "creates_services N c G" by (simp add: cas_server_def)
  with r readable_text [OF assms(3)] assms(4) obtain i where
    i: "i \<noteq> 0" "i \<notin># image_mset rs_ID (G w)" "body = service_text_of (s\<lparr>rs_ID := i\<rparr>)"
      "G w1 = add_mset (s\<lparr>rs_ID := i\<rparr>) (G w)"
    unfolding creates_services_def by metis
  have "reads_service body (s\<lparr>rs_ID := i\<rparr>)" using readable_text [of "s\<lparr>rs_ID := i\<rparr>"] assms(3) i(3) by simp
  with p i(3) reads_service_unique have "p = s\<lparr>rs_ID := i\<rparr>" by auto
  with i show ?thesis by blast
qed

lemma UpdateService_answer:
  assumes "cas_server N c G" "UpdateService N c s w = (Inr p, w1)" "readable s"
  shows "p = s \<and> rs_ID s \<in># image_mset rs_ID (G w) \<and>
    G w1 = add_mset s (filter_mset (\<lambda>t. rs_ID t \<noteq> rs_ID s) (G w))"
proof -
  from writeService_answer [OF assms(2) [unfolded UpdateService_def]] obtain req body where
    r: "NewRequest N ''PUT'' (endpoint c) (Some (service_text_of s)) = Inr req"
      "answered c (SetHeader ''Content-Type'' ''application/json'' req) {200, 201} w body w1"
    and p: "body = [] \<and> p = s \<or> body \<noteq> [] \<and> reads_service body p" by metis
  from assms(1) have "updates_services N c G" by (simp add: cas_server_def)
  with r readable_text [OF assms(3)] have
    u: "rs_ID s \<in># image_mset rs_ID (G w)" "body = [] \<or> body = service_text_of s"
      "G w1 = add_mset s (filter_mset (\<lambda>t. rs_ID t \<noteq> rs_ID s) (G w))"
    unfolding updates_services_def by metis+
  with p readable_text [OF assms(3)] reads_service_unique have "p = s" by auto
  with u show ?thesis by blast
qed

lemma DeleteService_answer:
  assumes "cas_server N c G" "DeleteService N c i w = (None, w1)"
  shows "G w1 = filter_mset (\<lambda>t. rs_ID t \<noteq> i) (G w)"
proof -
  from assms(2) obtain req body where "NewRequest N ''DELETE'' (endpoint c @ ''/'' @ show_int64 i) None = Inr req"
    "answered c (SetHeader ''Content-Type'' ''application/json'' req) {200, 204, 404} w body w1"
    unfolding DeleteService_None
    by (auto simp: endpoint_def registeredServicesPath_def do_request_answered status_defs contentTypeJSON_def)
  moreover from assms(1) have "deletes_services N c G" by (simp add: cas_server_def)
  ultimately show ?thesis unfolding deletes_services_def by metis
qed

lemma client_registry_laws:
  assumes "cas_server N c G"
  shows "registry_laws readable (Client_apiClient N c) G"
proof -
  have f: "ac_ListServices (Client_apiClient N c) = ListServices N c"
    "ac_CreateService (Client_apiClient N c) = CreateService N c"
    "ac_UpdateService (Client_apiClient N c) = UpdateService N c"
    "ac_DeleteService (Client_apiClient N c) = DeleteService N c"
    by (simp_all add: Client_apiClient_def)
  show ?thesis
    unfolding registry_laws_def f
    by (intro conjI allI impI; (elim conjE)?)
      (rule ListServices_answer [OF assms, THEN conjunct1] ListServices_answer [OF assms, THEN conjunct2]
        CreateService_answer [OF assms] UpdateService_answer [OF assms, THEN conjunct1]
        UpdateService_answer [OF assms, THEN conjunct2, THEN conjunct1]
        UpdateService_answer [OF assms, THEN conjunct2, THEN conjunct2] DeleteService_answer [OF assms]; assumption)+
qed

section \<open>What the backend writes\<close>

lemma readable_service_for:
  assumes "plain_registration reg" "plain fqdn" "\<And>s. ex = Some s \<Longrightarrow> readable s"
  shows "readable (service_for fqdn reg ex sec)"
proof -
  have "plain_service (service_for fqdn reg ex sec)"
    using plain_service_for [OF assms(1,2)] assms(3) by (simp add: readable_def)
  moreover have "entries_ok ((service_for fqdn reg ex sec)\<lparr>rs_ID := 0\<rparr>)"
    using service_for_entries_ok [of fqdn reg ex sec] by (simp add: entries_ok_def)
  ultimately have "readable ((service_for fqdn reg ex sec)\<lparr>rs_ID := 0\<rparr>)"
    unfolding readable_def plain_service_ID using service_for_norm by blast
  then show ?thesis by simp
qed

lemma writes_readable:
  assumes "plain_registration reg" "\<forall>s\<in>#H. readable s"
    and "\<And>w fqdn w1. getFQDN m w = (Inr fqdn, w1) \<Longrightarrow> plain fqdn"
  shows "writes_ok readable m reg H"
  using readable_service_for [OF assms(1)] assms(2,3) unfolding writes_ok_def by blast

end
