(* ===== verification/StatusPatcher.thy ===== *)
theory StatusPatcher imports CtrlInterfaces begin

text \<open>
  internal/controller/authregistration_status_patcher.go: every change of an
  AuthRegistration's status. The change is made on the object in memory first; the API server
  is asked to store it only when the status differs from the one before.
\<close>

section \<open>Patching\<close>

text \<open>The mutate function sees the world: setting a condition reads the clock.\<close>

definition patchStatus ::
    "'w kube \<Rightarrow> authRegistration \<Rightarrow> ('w \<Rightarrow> authRegistrationStatus \<Rightarrow> authRegistrationStatus) \<Rightarrow> 'w patch" where
  "patchStatus K ar mutate w =
     (let arBeforePatch = ar;
          ar1 = ar\<lparr>ar_Status := mutate w (ar_Status ar)\<rparr>
      in if StatusDeepEqual K (ar_Status arBeforePatch) (ar_Status ar1) then ((None, ar1), w)
         else
           (case PatchAuthRegistrationStatus K arBeforePatch ar1 w of
              (Inl err, w1) \<Rightarrow> ((Some err, ar1), w1)
            | (Inr ar2, w1) \<Rightarrow> ((None, ar2), w1)))"

text \<open>A condition as the code writes it: without transition time and generation.\<close>

definition new_condition :: "string \<Rightarrow> string \<Rightarrow> string \<Rightarrow> string \<Rightarrow> condition" where
  "new_condition ty st reason msg =
     \<lparr>co_Type = ty, co_Status = st, co_ObservedGeneration = 0, co_LastTransitionTime = 0,
      co_Reason = reason, co_Message = msg\<rparr>"

definition patchCondition :: "'w kube \<Rightarrow> authRegistration \<Rightarrow> condition \<Rightarrow> 'w patch" where
  "patchCondition K ar cond w =
     (if co_Type cond = [] then ((Some (Errorf ''condition type must not be empty''), ar), w)
      else
        patchStatus K ar
          (\<lambda>w' status. status\<lparr>st_Conditions :=
             SetStatusCondition K (st_Conditions status)
               (cond\<lparr>co_ObservedGeneration := ar_Generation ar\<rparr>) w'\<rparr>) w)"

definition PatchResolvedSecretRef :: "'w kube \<Rightarrow> authRegistration \<Rightarrow> string \<Rightarrow> 'w patch" where
  "PatchResolvedSecretRef K ar resolvedSecretRef =
     patchStatus K ar (\<lambda>w' status. status\<lparr>st_ResolvedSecretRef := resolvedSecretRef\<rparr>)"

text \<open>
  The two conditions of a failure are patched one after the other; the first error ends it.
  Each step goes on with the object the step before left behind the pointer.
\<close>

definition PatchInvalidSpec :: "'w kube \<Rightarrow> authRegistration \<Rightarrow> go_error \<Rightarrow> 'w patch" where
  "PatchInvalidSpec K ar invalidSpecErr w =
     (case PatchResolvedSecretRef K ar [] w of
        ((Some err, ar1), w1) \<Rightarrow>
          ((Some (Wrapf ''failed to clear resolved secret reference: '' err), ar1), w1)
      | ((None, ar1), w1) \<Rightarrow>
          (case patchCondition K ar1
                  (new_condition ConditionCredentialsPublished ConditionFalse ''InvalidSpec''
                     (error_text invalidSpecErr)) w1 of
             ((Some err, ar2), w2) \<Rightarrow> ((Some err, ar2), w2)
           | ((None, ar2), w2) \<Rightarrow>
               patchCondition K ar2
                 (new_condition ConditionCompleted ConditionFalse ''InvalidSpec''
                    ''Registration is blocked because the resource specification is invalid'') w2))"

definition PatchSecretReconcileFailed ::
    "'w kube \<Rightarrow> authRegistration \<Rightarrow> string \<Rightarrow> go_error \<Rightarrow> 'w patch" where
  "PatchSecretReconcileFailed K ar resolvedSecretRef secretErr w =
     (case patchCondition K ar
             (new_condition ConditionCredentialsPublished ConditionFalse ''SecretReconcileFailed''
                (''Failed to reconcile Secret '' @ quote resolvedSecretRef @ '': '' @ error_text secretErr)) w of
        ((Some err, ar1), w1) \<Rightarrow> ((Some err, ar1), w1)
      | ((None, ar1), w1) \<Rightarrow>
          patchCondition K ar1
            (new_condition ConditionCompleted ConditionFalse ''Blocked''
               ''Registration is blocked until Secret reconciliation succeeds'') w1)"

definition PatchCredentialsPublished :: "'w kube \<Rightarrow> authRegistration \<Rightarrow> 'w patch" where
  "PatchCredentialsPublished K ar =
     patchCondition K ar
       (new_condition ConditionCredentialsPublished ConditionTrue ''SecretReconciled''
          ''Credentials Secret is ready'')"

definition PatchRegistrationFailed :: "'w kube \<Rightarrow> authRegistration \<Rightarrow> go_error \<Rightarrow> 'w patch" where
  "PatchRegistrationFailed K ar registrationErr =
     patchCondition K ar
       (new_condition ConditionCompleted ConditionFalse ''RegistrationFailed''
          (''Failed to register service in backend: '' @ error_text registrationErr))"

definition PatchRegistrationSucceeded :: "'w kube \<Rightarrow> authRegistration \<Rightarrow> 'w patch" where
  "PatchRegistrationSucceeded K ar =
     patchCondition K ar
       (new_condition ConditionCompleted ConditionTrue ''RegistrationSucceeded''
          ''Service registration was reconciled successfully'')"

definition authRegistrationStatusPatcher :: "'w kube \<Rightarrow> 'w statusPatcher" where
  "authRegistrationStatusPatcher K =
     \<lparr>sp_PatchResolvedSecretRef = PatchResolvedSecretRef K,
      sp_PatchInvalidSpec = PatchInvalidSpec K,
      sp_PatchSecretReconcileFailed = PatchSecretReconcileFailed K,
      sp_PatchCredentialsPublished = PatchCredentialsPublished K,
      sp_PatchRegistrationFailed = PatchRegistrationFailed K,
      sp_PatchRegistrationSucceeded = PatchRegistrationSucceeded K\<rparr>"

section \<open>The contract\<close>

text \<open>The caller's object is the stored one, and the API behaves as documented.\<close>

definition synced_with :: "'w kube \<Rightarrow> 'w kube_view \<Rightarrow> authRegistration \<Rightarrow> 'w \<Rightarrow> bool" where
  "synced_with K V ar w \<longleftrightarrow>
     status_laws K V \<and> status_equal_law K \<and> condition_laws K \<and> view_ar V w (ar_key ar) = Some ar"

lemma patchStatus_ok:
  assumes "synced_with K V ar w" "patchStatus K ar mutate w = ((None, ar'), w')"
  shows "synced_with K V ar' w' \<and> view_secret V w' = view_secret V w \<and> same_object ar ar' \<and>
     ar_Status ar' = mutate w (ar_Status ar)"
proof (cases "ar_Status ar = mutate w (ar_Status ar)")
  case True
  then show ?thesis
    using assms by (auto simp: patchStatus_def synced_with_def status_equal_law_def Let_def ar_key_def)
next
  case False
  then obtain p: "PatchAuthRegistrationStatus K ar (ar\<lparr>ar_Status := mutate w (ar_Status ar)\<rparr>) w = (Inr ar', w')"
    using assms
    by (auto simp: patchStatus_def synced_with_def status_equal_law_def Let_def split: prod.splits sum.splits)
  have "status_laws K V" using assms(1) by (simp add: synced_with_def)
  with p have st: "view_ar V w' = (view_ar V w)(ar_key (ar\<lparr>ar_Status := mutate w (ar_Status ar)\<rparr>) \<mapsto> ar')"
      "view_secret V w' = view_secret V w"
      "same_object (ar\<lparr>ar_Status := mutate w (ar_Status ar)\<rparr>) ar'"
      "ar_Status ar' = mutate w (ar_Status ar)"
    by (auto simp: status_laws_def)
  then have "same_object ar ar'" by (simp add: same_object_def)
  with st assms(1) show ?thesis
    by (auto simp: synced_with_def same_object_def ar_key_def)
qed

lemma patchCondition_sets:
  assumes "ty \<noteq> []"
  shows "sets_condition (synced_with K V) (view_secret V) (patchCondition K ar (new_condition ty st reason msg)) ar ty st"
  unfolding sets_condition_def
proof (intro allI impI)
  fix w ar' w'
  assume a: "synced_with K V ar w \<and> patchCondition K ar (new_condition ty st reason msg) w = ((None, ar'), w')"
  define c where "c = (new_condition ty st reason msg)\<lparr>co_ObservedGeneration := ar_Generation ar\<rparr>"
  have c: "co_Type c = ty" "co_Status c = st" "co_ObservedGeneration c = ar_Generation ar"
    by (simp_all add: c_def new_condition_def)
  from a assms have p: "patchStatus K ar
      (\<lambda>w' status. status\<lparr>st_Conditions := SetStatusCondition K (st_Conditions status) c w'\<rparr>) w = ((None, ar'), w')"
    by (simp add: patchCondition_def new_condition_def c_def)
  from patchStatus_ok [OF conjunct1 [OF a] p]
  have ok: "synced_with K V ar' w'" "view_secret V w' = view_secret V w" "same_object ar ar'"
    "ar_Status ar' = (ar_Status ar)\<lparr>st_Conditions := SetStatusCondition K (st_Conditions (ar_Status ar)) c w\<rparr>"
    by simp_all
  moreover have cl: "condition_laws K" using a by (simp add: synced_with_def)
  then obtain c' where "find_condition (SetStatusCondition K (st_Conditions (ar_Status ar)) c w) ty = Some c'"
    "same_content c' c" using c(1) unfolding condition_laws_def by metis
  moreover from cl have "\<forall>ty'. ty' \<noteq> ty \<longrightarrow>
      find_condition (SetStatusCondition K (st_Conditions (ar_Status ar)) c w) ty' =
      find_condition (st_Conditions (ar_Status ar)) ty'"
    using c(1) unfolding condition_laws_def by metis
  ultimately show "synced_with K V ar' w' \<and> view_secret V w' = view_secret V w \<and> same_object ar ar' \<and> has_condition ar' ty st \<and>
        st_ResolvedSecretRef (ar_Status ar') = st_ResolvedSecretRef (ar_Status ar) \<and>
        (\<forall>ty'. ty' \<noteq> ty \<longrightarrow>
           find_condition (st_Conditions (ar_Status ar')) ty' = find_condition (st_Conditions (ar_Status ar)) ty')"
    using c by (simp add: has_condition_def same_content_def same_object_def)
qed

interpretation asp: status_patcher "authRegistrationStatusPatcher K" "synced_with K V"
    "view_secret V"
  for K :: "'w kube" and V :: "'w kube_view"
proof unfold_locales
  fix ar w n ar' w'
  assume "synced_with K V ar w"
    "sp_PatchResolvedSecretRef (authRegistrationStatusPatcher K) ar n w = ((None, ar'), w')"
  then show "synced_with K V ar' w' \<and> view_secret V w' = view_secret V w \<and> same_object ar ar' \<and>
      ar_Status ar' = (ar_Status ar)\<lparr>st_ResolvedSecretRef := n\<rparr>"
    using patchStatus_ok by (fastforce simp: authRegistrationStatusPatcher_def PatchResolvedSecretRef_def)
qed (simp_all add: authRegistrationStatusPatcher_def PatchCredentialsPublished_def
      PatchRegistrationFailed_def PatchRegistrationSucceeded_def patchCondition_sets)

text \<open>The patch of an invalid specification: reference cleared, both conditions false.\<close>

lemma PatchInvalidSpec_ok:
  assumes "synced_with K V ar w" "PatchInvalidSpec K ar err w = ((None, ar'), w')"
  shows "synced_with K V ar' w'" "view_secret V w' = view_secret V w" "same_object ar ar'"
    "st_ResolvedSecretRef (ar_Status ar') = []"
    "has_condition ar' ConditionCredentialsPublished ConditionFalse"
    "has_condition ar' ConditionCompleted ConditionFalse"
proof -
  let ?c1 = "new_condition ConditionCredentialsPublished ConditionFalse ''InvalidSpec'' (error_text err)"
  let ?c2 = "new_condition ConditionCompleted ConditionFalse ''InvalidSpec''
      ''Registration is blocked because the resource specification is invalid''"
  from assms(2) obtain ar1 w1 ar2 w2 where
    p1: "PatchResolvedSecretRef K ar [] w = ((None, ar1), w1)" and
    p2: "patchCondition K ar1 ?c1 w1 = ((None, ar2), w2)" and
    p3: "patchCondition K ar2 ?c2 w2 = ((None, ar'), w')"
    by (auto simp: PatchInvalidSpec_def split: prod.splits option.splits)
  have 1: "synced_with K V ar1 w1" "view_secret V w1 = view_secret V w" "same_object ar ar1"
    "st_ResolvedSecretRef (ar_Status ar1) = []"
    using patchStatus_ok [OF assms(1) p1 [unfolded PatchResolvedSecretRef_def]] by simp_all
  have 2: "synced_with K V ar2 w2 \<and> view_secret V w2 = view_secret V w1 \<and> same_object ar1 ar2 \<and>
      has_condition ar2 ConditionCredentialsPublished ConditionFalse \<and>
      st_ResolvedSecretRef (ar_Status ar2) = st_ResolvedSecretRef (ar_Status ar1)"
    using patchCondition_sets [of ConditionCredentialsPublished K V ar1] 1(1) p2 condition_types_distinct(3)
    unfolding sets_condition_def by blast
  have 3: "synced_with K V ar' w' \<and> view_secret V w' = view_secret V w2 \<and> same_object ar2 ar' \<and>
      has_condition ar' ConditionCompleted ConditionFalse \<and>
      st_ResolvedSecretRef (ar_Status ar') = st_ResolvedSecretRef (ar_Status ar2) \<and>
      find_condition (st_Conditions (ar_Status ar')) ConditionCredentialsPublished =
        find_condition (st_Conditions (ar_Status ar2)) ConditionCredentialsPublished"
    using patchCondition_sets [of ConditionCompleted K V ar2] 2 p3 condition_types_distinct(1,4)
    unfolding sets_condition_def by blast
  show "synced_with K V ar' w'" "view_secret V w' = view_secret V w"
    "st_ResolvedSecretRef (ar_Status ar') = []" "has_condition ar' ConditionCompleted ConditionFalse"
    using 1 2 3 by simp_all
  show "same_object ar ar'" using 1 2 3 by (blast intro: same_object_trans)
  show "has_condition ar' ConditionCredentialsPublished ConditionFalse"
    using 2 3 by (simp add: has_condition_def same_object_def)
qed

text \<open>A condition that has been set is not set again: the second patch changes and calls nothing.\<close>

lemma patchCondition_again:
  assumes "synced_with K V ar w" "patchCondition K ar cond w = ((None, ar'), w')"
  shows "patchCondition K ar' cond w' = ((None, ar'), w')"
proof -
  define c where "c = cond\<lparr>co_ObservedGeneration := ar_Generation ar\<rparr>"
  from assms(2) have ne: "co_Type cond \<noteq> []" and
    p: "patchStatus K ar (\<lambda>w' status. status\<lparr>st_Conditions := SetStatusCondition K (st_Conditions status) c w'\<rparr>) w =
        ((None, ar'), w')"
    by (auto simp: patchCondition_def c_def split: if_splits)
  from patchStatus_ok [OF assms(1) p]
  have ok: "synced_with K V ar' w'" "same_object ar ar'"
    "ar_Status ar' = (ar_Status ar)\<lparr>st_Conditions := SetStatusCondition K (st_Conditions (ar_Status ar)) c w\<rparr>"
    by simp_all
  have laws: "condition_laws K" "status_equal_law K" using assms(1) by (simp_all add: synced_with_def)
  obtain c' where "find_condition (st_Conditions (ar_Status ar')) (co_Type c) = Some c'" "same_content c' c"
    using laws(1) ok(3) unfolding condition_laws_def
    by (metis (no_types, lifting) authRegistrationStatus.select_convs(2) authRegistrationStatus.surjective
        authRegistrationStatus.update_convs(2))
  then have "SetStatusCondition K (st_Conditions (ar_Status ar')) c w' = st_Conditions (ar_Status ar')"
    using laws(1) unfolding condition_laws_def by blast
  moreover have "cond\<lparr>co_ObservedGeneration := ar_Generation ar'\<rparr> = c"
    using ok(2) by (simp add: c_def same_object_def)
  ultimately show ?thesis
    using ne laws(2) by (simp add: patchCondition_def patchStatus_def status_equal_law_def Let_def)
qed

end
