(* ===== verification/SecretReconciler.thy ===== *)
theory SecretReconciler imports CtrlInterfaces begin

text \<open>
  internal/controller/secret_reconciler.go: the credentials secret. A missing secret is
  created with an owner reference; an existing one gets the type, labels and data it should
  have on top of what it holds, and is written only when that changes it.
\<close>

section \<open>Reconciling the secret\<close>

definition authRegistrationNameLabelKey :: string where
  "authRegistrationNameLabelKey = ''k8s.cloudogu.com/auth-registration''"
definition SecretTypeOpaque :: string where "SecretTypeOpaque = ''Opaque''"

text \<open>maps.Copy: what the source map holds wins, everything else stays.\<close>

definition maps_Copy :: "(string \<rightharpoonup> 'v) \<Rightarrow> (string \<rightharpoonup> 'v) \<Rightarrow> (string \<rightharpoonup> 'v)" where
  "maps_Copy dst src = dst ++ src"

definition buildDesiredSecret :: "RegistrationResult \<Rightarrow> authRegistration \<Rightarrow> string \<Rightarrow> secret" where
  "buildDesiredSecret res ar secretName =
     \<lparr>sec_Name = secretName,
      sec_Namespace = ar_Namespace ar,
      sec_Labels = Some [authRegistrationNameLabelKey \<mapsto> ar_Name ar],
      sec_Annotations = Some Map.empty,
      sec_Type = SecretTypeOpaque,
      sec_Data = Some (maps_Copy Map.empty (GetRegistrationData res)),
      sec_Rest = []\<rparr>"

text \<open>A nil map is replaced by an empty one before the copy.\<close>

definition copy_into :: "(string \<rightharpoonup> 'v) option \<Rightarrow> (string \<rightharpoonup> 'v) option \<Rightarrow> (string \<rightharpoonup> 'v) option" where
  "copy_into dst src =
     Some (maps_Copy (case dst of None \<Rightarrow> Map.empty | Some m \<Rightarrow> m)
                     (case src of None \<Rightarrow> Map.empty | Some m \<Rightarrow> m))"

definition updated_secret :: "secret \<Rightarrow> secret \<Rightarrow> secret" where
  "updated_secret currentSecret desiredSecret =
     currentSecret\<lparr>sec_Type := sec_Type desiredSecret,
                   sec_Labels := copy_into (sec_Labels currentSecret) (sec_Labels desiredSecret),
                   sec_Annotations := copy_into (sec_Annotations currentSecret) (sec_Annotations desiredSecret),
                   sec_Data := copy_into (sec_Data currentSecret) (sec_Data desiredSecret)\<rparr>"

definition ReconcileSecret ::
    "'w kube \<Rightarrow> RegistrationResult \<Rightarrow> authRegistration \<Rightarrow> string \<Rightarrow> bool \<Rightarrow> ('w, go_error option) io" where
  "ReconcileSecret K registrationResult ar secretName isControllerManagedSecret w =
     (let desiredSecret = buildDesiredSecret registrationResult ar secretName;
          secretObjectKey = \<lparr>nn_Namespace = ar_Namespace ar, nn_Name = secretName\<rparr>
      in case GetSecret K secretObjectKey w of
           (Inl err, w1) \<Rightarrow>
             if IsNotFound K err then
               (case SetControllerReference K ar desiredSecret of
                  Inl ownerReferenceErr \<Rightarrow> (Some ownerReferenceErr, w1)
                | Inr desiredSecret' \<Rightarrow> CreateSecret K desiredSecret' w1)
             else (Some (Wrapf (''failed to get secret '' @ quote secretName @ '': '') err), w1)
         | (Inr secretBeforeUpdate, w1) \<Rightarrow>
             (case (if isControllerManagedSecret then
                      SetControllerReference K ar (updated_secret secretBeforeUpdate desiredSecret)
                    else Inr (updated_secret secretBeforeUpdate desiredSecret)) of
                Inl ownerReferenceErr \<Rightarrow> (Some ownerReferenceErr, w1)
              | Inr currentSecret \<Rightarrow>
                  if SecretDeepEqual K secretBeforeUpdate currentSecret then (None, w1)
                  else UpdateSecret K currentSecret w1))"

definition authRegistrationSecretReconciler :: "'w kube \<Rightarrow> 'w secretReconciler" where
  "authRegistrationSecretReconciler K = \<lparr>sr_Reconcile = ReconcileSecret K\<rparr>"

section \<open>Facts\<close>

lemma maps_Copy_le: "src \<subseteq>\<^sub>m maps_Copy dst src"
  by (simp add: maps_Copy_def)

lemma maps_Copy_absorb: "src \<subseteq>\<^sub>m dst \<Longrightarrow> maps_Copy dst src = dst"
  by (rule ext) (auto simp: maps_Copy_def map_add_def map_le_def dom_def split: option.splits)

lemma copy_into_some [simp]: "some_map (copy_into dst src) = maps_Copy (some_map dst) (some_map src)"
  by (simp add: copy_into_def some_map_def split: option.splits)

text \<open>What the secret is to hold on top of what it has.\<close>

definition has_desired :: "secret \<Rightarrow> secret \<Rightarrow> bool" where
  "has_desired s d \<longleftrightarrow>
     sec_Type s = sec_Type d \<and> some_map (sec_Labels d) \<subseteq>\<^sub>m some_map (sec_Labels s) \<and>
     some_map (sec_Annotations d) \<subseteq>\<^sub>m some_map (sec_Annotations s) \<and>
     some_map (sec_Data d) \<subseteq>\<^sub>m some_map (sec_Data s)"

lemma updated_secret_has: "has_desired (updated_secret s d) d"
  by (simp add: has_desired_def updated_secret_def maps_Copy_le)

lemma has_desired_refl: "has_desired s s"
  by (simp add: has_desired_def)

lemma has_desired_stored: "stored_as s s' \<Longrightarrow> has_desired s' d \<longleftrightarrow> has_desired s d"
  by (simp add: has_desired_def stored_as_def)

lemma has_desired_norm: "has_desired (sec_norm s) d \<longleftrightarrow> has_desired s d"
  by (simp add: has_desired_def sec_norm_def)

text \<open>Nothing to add: the update leaves the secret as it is, up to nil maps.\<close>

lemma updated_secret_absorb:
  assumes "has_desired s d"
  shows "sec_norm (updated_secret s d) = sec_norm s"
  using assms
  by (simp add: has_desired_def updated_secret_def sec_norm_def maps_Copy_absorb)

lemma updated_secret_key [simp]: "sec_key (updated_secret s d) = sec_key s"
  by (simp add: updated_secret_def sec_key_def)

lemma desired_secret_simps [simp]:
  "sec_key (buildDesiredSecret rr ar n) = \<lparr>nn_Namespace = ar_Namespace ar, nn_Name = n\<rparr>"
  "sec_Data (buildDesiredSecret rr ar n) = Some (GetRegistrationData rr)"
  by (simp_all add: buildDesiredSecret_def sec_key_def maps_Copy_def)

section \<open>The contract\<close>

definition secret_world :: "'w kube \<Rightarrow> 'w kube_view \<Rightarrow> bool" where
  "secret_world K V \<longleftrightarrow> read_laws K V \<and> secret_write_laws K V \<and> owner_laws K \<and> secret_equal_law K"

text \<open>The secret after a run: the one before, if any, with what it should have on top.\<close>

definition data_of :: "secret option \<Rightarrow> RegistrationData" where
  "data_of so = (case so of None \<Rightarrow> Map.empty | Some s \<Rightarrow> some_map (sec_Data s))"

definition labels_of :: "secret option \<Rightarrow> string \<rightharpoonup> string" where
  "labels_of so = (case so of None \<Rightarrow> Map.empty | Some s \<Rightarrow> some_map (sec_Labels s))"

lemma of_simps [simp]:
  "data_of None = Map.empty" "data_of (Some s) = some_map (sec_Data s)"
  "labels_of None = Map.empty" "labels_of (Some s) = some_map (sec_Labels s)"
  by (simp_all add: data_of_def labels_of_def)

definition merged :: "secret option \<Rightarrow> secret \<Rightarrow> secret \<Rightarrow> bool" where
  "merged so d s \<longleftrightarrow>
     sec_key s = sec_key d \<and> sec_Type s = sec_Type d \<and>
     some_map (sec_Data s) = data_of so ++ some_map (sec_Data d) \<and>
     some_map (sec_Labels s) = labels_of so ++ some_map (sec_Labels d)"

lemma merged_stored: "stored_as s s' \<Longrightarrow> merged so d s \<Longrightarrow> merged so d s'"
  by (simp add: stored_as_def merged_def)

lemma merged_new: "merged None d d"
  by (simp add: merged_def)

lemma merged_updated: "sec_key s = sec_key d \<Longrightarrow> merged (Some s) d (updated_secret s d)"
  by (simp add: merged_def) (simp add: updated_secret_def maps_Copy_def)

lemma merged_norm:
  assumes "sec_norm s = sec_norm s'" "merged so d s'"
  shows "merged so d s"
proof -
  have "sec_key (sec_norm s) = sec_key s" "sec_Type (sec_norm s) = sec_Type s"
    "sec_Data (sec_norm s) = Some (some_map (sec_Data s))"
    "sec_Labels (sec_norm s) = Some (some_map (sec_Labels s))" for s
    by (simp_all add: sec_norm_def sec_key_def)
  with assms show ?thesis unfolding merged_def by (metis option.inject)
qed

text \<open>A run, once the read has given its answer.\<close>

lemma ReconcileSecret_eq:
  assumes "d = buildDesiredSecret rr ar n" "GetSecret K (sec_key d) w = (g, w1)"
  shows "ReconcileSecret K rr ar n managed w =
      (case g of
         Inl err \<Rightarrow>
           if IsNotFound K err then
             (case SetControllerReference K ar d of Inl e \<Rightarrow> (Some e, w1) | Inr d' \<Rightarrow> CreateSecret K d' w1)
           else (Some (Wrapf (''failed to get secret '' @ quote n @ '': '') err), w1)
       | Inr s \<Rightarrow>
           (case (if managed then SetControllerReference K ar (updated_secret s d) else Inr (updated_secret s d)) of
              Inl e \<Rightarrow> (Some e, w1)
            | Inr s' \<Rightarrow> if SecretDeepEqual K s s' then (None, w1) else UpdateSecret K s' w1))"
  using assms by (simp add: ReconcileSecret_def Let_def split: sum.splits)

text \<open>
  A run without an error leaves the secret with everything it should have on top of what it
  had, and nothing else changed: no other secret and no AuthRegistration.
\<close>

lemma ReconcileSecret_ok:
  assumes W: "secret_world K V"
    and run: "ReconcileSecret K rr ar n managed w = (None, w')"
    and d: "d = buildDesiredSecret rr ar n"
  shows "\<exists>s. view_secret V w' = (view_secret V w)(sec_key d \<mapsto> s) \<and> merged (view_secret V w (sec_key d)) d s"
    and "view_ar V w' = view_ar V w"
proof -
  from W have laws: "read_laws K V" "secret_write_laws K V" "owner_laws K" "secret_equal_law K"
    by (simp_all add: secret_world_def)
  obtain g w1 where get: "GetSecret K (sec_key d) w = (g, w1)" by (cases "GetSecret K (sec_key d) w")
  note run' = run [unfolded ReconcileSecret_eq [OF d get]]
  note rd = read_lawsD [OF laws(1) get]
  have ow: "stored_as s s'" if "SetControllerReference K ar s = Inr s'" for s s'
    using laws(3) that unfolding owner_laws_def by blast
  have wr: "view_ar V w' = view_ar V w \<and>
      (\<exists>s'. view_secret V w' = (view_secret V w)(sec_key d \<mapsto> s') \<and> merged so d s')"
    if "CreateSecret K s w1 = (None, w') \<or> UpdateSecret K s w1 = (None, w')" "merged so d s" for s so
  proof -
    from secret_write_lawsD [OF laws(2) that(1)] rd(1,2) obtain s' where "stored_as s s'"
      "view_ar V w' = view_ar V w" "view_secret V w' = (view_secret V w)(sec_key s \<mapsto> s')" by auto
    moreover have "merged so d s'" using \<open>stored_as s s'\<close> that(2) by (rule merged_stored)
    moreover have "sec_key s = sec_key d" using that(2) by (simp add: merged_def)
    ultimately show ?thesis by auto
  qed
  have goal: "view_ar V w' = view_ar V w \<and>
      (\<exists>s. view_secret V w' = (view_secret V w)(sec_key d \<mapsto> s) \<and> merged (view_secret V w (sec_key d)) d s)"
  proof (cases g)
    case (Inl err)
    with run' obtain d' where d': "IsNotFound K err" "SetControllerReference K ar d = Inr d'"
      "CreateSecret K d' w1 = (None, w')" by (auto split: if_splits sum.splits)
    have "view_secret V w (sec_key d) = None" using rd(5) Inl d'(1) by blast
    with wr [of d' None] merged_stored [OF ow [OF d'(2)] merged_new] d'(3) show ?thesis by simp
  next
    case (Inr s)
    define m where "m = (if managed then SetControllerReference K ar (updated_secret s d) else Inr (updated_secret s d))"
    from run' Inr obtain s1 where m: "m = Inr s1"
      and s1: "if SecretDeepEqual K s s1 then w' = w1 else UpdateSecret K s1 w1 = (None, w')"
      by (cases m) (auto simp: m_def split: if_splits)
    have st: "stored_as (updated_secret s d) s1" using m ow by (auto simp: m_def stored_as_def split: if_splits)
    have old: "view_secret V w (sec_key d) = Some s" "sec_key s = sec_key d" using rd(3,4) Inr by blast+
    have mg: "merged (Some s) d s1" using merged_stored [OF st merged_updated [OF old(2)]] .
    show ?thesis
    proof (cases "SecretDeepEqual K s s1")
      case True
      then have "sec_norm s = sec_norm s1" "w' = w1" using laws(4) s1 by (simp_all add: secret_equal_law_def)
      moreover from this(1) mg have "merged (Some s) d s" by (rule merged_norm)
      moreover have "(view_secret V w)(sec_key d \<mapsto> s) = view_secret V w" using old(1) by (simp add: fun_upd_idem)
      ultimately show ?thesis using rd(1,2) old(1) by metis
    next
      case False
      with s1 wr [OF _ mg] old(1) show ?thesis by simp
    qed
  qed
  then show "\<exists>s. view_secret V w' = (view_secret V w)(sec_key d \<mapsto> s) \<and> merged (view_secret V w (sec_key d)) d s"
    "view_ar V w' = view_ar V w" by simp_all
qed

text \<open>The data published at a key.\<close>

definition publishes :: "'w kube_view \<Rightarrow> 'w \<Rightarrow> namespacedName \<Rightarrow> RegistrationData \<Rightarrow> bool" where
  "publishes V w k d \<longleftrightarrow> (\<exists>s. view_secret V w k = Some s \<and> d \<subseteq>\<^sub>m some_map (sec_Data s))"

interpretation asr: secret_reconciler "authRegistrationSecretReconciler K" "\<lambda>w. secret_world K V"
    "publishes V" "\<lambda>w w'. view_ar V w' = view_ar V w"
  for K :: "'w kube" and V :: "'w kube_view"
proof unfold_locales
  fix w rr ar n managed w'
  assume "secret_world K V" "sr_Reconcile (authRegistrationSecretReconciler K) rr ar n managed w = (None, w')"
  then obtain s where "view_secret V w' = (view_secret V w)(\<lparr>nn_Namespace = ar_Namespace ar, nn_Name = n\<rparr> \<mapsto> s)"
    "merged (view_secret V w \<lparr>nn_Namespace = ar_Namespace ar, nn_Name = n\<rparr>) (buildDesiredSecret rr ar n) s"
    "view_ar V w' = view_ar V w"
    using ReconcileSecret_ok [of K V rr ar n managed w w' "buildDesiredSecret rr ar n"]
    by (auto simp: authRegistrationSecretReconciler_def)
  then show "secret_world K V \<and> view_ar V w' = view_ar V w \<and>
      publishes V w' \<lparr>nn_Namespace = ar_Namespace ar, nn_Name = n\<rparr> (GetRegistrationData rr)"
    using \<open>secret_world K V\<close> by (simp add: publishes_def merged_def)
qed

text \<open>
  A second run on a secret that already has everything writes nothing: the only call is the
  read. For a managed secret the owner reference has to be there already.
\<close>

lemma ReconcileSecret_quiet:
  assumes "secret_equal_law K"
    and "GetSecret K \<lparr>nn_Namespace = ar_Namespace ar, nn_Name = n\<rparr> w = (Inr s, w1)"
    and "has_desired s (buildDesiredSecret rr ar n)"
    and "managed \<Longrightarrow> SetControllerReference K ar (updated_secret s (buildDesiredSecret rr ar n)) =
           Inr (updated_secret s (buildDesiredSecret rr ar n))"
  shows "ReconcileSecret K rr ar n managed w = (None, w1)"
  using assms updated_secret_absorb [OF assms(3)]
  by (simp add: ReconcileSecret_def Let_def secret_equal_law_def)

end
