(* ===== verification/Reconciler.thy ===== *)
theory Reconciler imports StatusPatcher SecretReconciler begin

text \<open>
  internal/controller/authregistration_reconciler.go: one reconciliation of an
  AuthRegistration over its four collaborators, and its deletion. The logger is left out; a
  call whose error is only logged goes on as if it had succeeded.
\<close>

section \<open>The reconciler\<close>

record 'w reconciler =
  rc_Client :: "'w kube"
  rc_credentialsSecretReconciler :: "'w secretReconciler"
  rc_statusPatcher :: "'w statusPatcher"
  rc_serviceRegistrationBackend :: "'w serviceRegistrationBackend"

definition newAuthRegistrationReconciler ::
    "'w kube \<Rightarrow> 'w secretReconciler \<Rightarrow> 'w statusPatcher \<Rightarrow> 'w serviceRegistrationBackend \<Rightarrow> 'w reconciler" where
  "newAuthRegistrationReconciler K sr sp backend =
     \<lparr>rc_Client = K, rc_credentialsSecretReconciler = sr, rc_statusPatcher = sp,
      rc_serviceRegistrationBackend = backend\<rparr>"

text \<open>The data of the secret, copied; no data when there is no secret.\<close>

definition readRegistrationData ::
    "'w reconciler \<Rightarrow> string \<Rightarrow> string \<Rightarrow> ('w, RegistrationData result) io" where
  "readRegistrationData r namespace secretName w =
     (case GetSecret (rc_Client r) \<lparr>nn_Namespace = namespace, nn_Name = secretName\<rparr> w of
        (Inl err, w1) \<Rightarrow>
          if IsNotFound (rc_Client r) err then (Inr Map.empty, w1)
          else (Inl (Wrapf (''failed to get secret '' @ quote secretName @ '': '') err), w1)
      | (Inr secret, w1) \<Rightarrow>
          (Inr (case sec_Data secret of None \<Rightarrow> Map.empty | Some d \<Rightarrow> d), w1))"

definition isControllerGeneratedSecret :: "'w kube \<Rightarrow> secret \<Rightarrow> authRegistration \<Rightarrow> bool" where
  "isControllerGeneratedSecret K secret ar = IsControlledBy K secret ar"

definition cleanupObsoleteGeneratedSecret ::
    "'w reconciler \<Rightarrow> authRegistration \<Rightarrow> string \<Rightarrow> string \<Rightarrow> ('w, go_error option) io" where
  "cleanupObsoleteGeneratedSecret r ar previous0 resolvedSecretName w =
     (let previouslyResolvedSecretName = TrimSpace previous0
      in if previouslyResolvedSecretName = [] \<or> previouslyResolvedSecretName = resolvedSecretName
         then (None, w)
         else
           (case GetSecret (rc_Client r)
                   \<lparr>nn_Namespace = ar_Namespace ar, nn_Name = previouslyResolvedSecretName\<rparr> w of
              (Inl err, w1) \<Rightarrow>
                if IsNotFound (rc_Client r) err then (None, w1)
                else (Some (Wrapf (''failed to get previous secret ''
                        @ quote previouslyResolvedSecretName @ '': '') err), w1)
            | (Inr previousSecret, w1) \<Rightarrow>
                if \<not> isControllerGeneratedSecret (rc_Client r) previousSecret ar then (None, w1)
                else
                  (case DeleteSecret (rc_Client r) previousSecret w1 of
                     (Some err, w2) \<Rightarrow>
                       if IsNotFound (rc_Client r) err then (None, w2)
                       else (Some (Wrapf (''failed to delete previous secret ''
                               @ quote previouslyResolvedSecretName @ '': '') err), w2)
                   | (None, w2) \<Rightarrow> (None, w2))))"

text \<open>
  The reconciliation. Every status patch may replace the object, so each step takes the
  object from the one before; the error of a patch that only reports a failure is dropped
  (the code logs it), and the failure itself is returned.
\<close>

definition handleReconcile :: "'w reconciler \<Rightarrow> authRegistration \<Rightarrow> 'w patch" where
  "handleReconcile r ar w =
     (case resolveSecretName ar of
        Inl err \<Rightarrow>
          (case sp_PatchInvalidSpec (rc_statusPatcher r) ar err w of
             ((_, ar1), w1) \<Rightarrow> ((Some (Wrapf ''failed to resolve secret reference: '' err), ar1), w1))
      | Inr (resolvedSecretName, isControllerManagedSecret) \<Rightarrow>
     (let previouslyResolvedSecretName = st_ResolvedSecretRef (ar_Status ar)
      in
     (case readRegistrationData r (ar_Namespace ar) resolvedSecretName w of
        (Inl err, w1) \<Rightarrow> ((Some (Wrapf ''failed to read existing registration data: '' err), ar), w1)
      | (Inr existingData, w1) \<Rightarrow>
     (case sb_Upsert (rc_serviceRegistrationBackend r) (FromAuthRegistration ar) existingData w1 of
        (Inl err, w2) \<Rightarrow>
          (case sp_PatchRegistrationFailed (rc_statusPatcher r) ar err w2 of
             ((_, ar1), w3) \<Rightarrow> ((Some (Wrapf ''failed to upsert service-registration: '' err), ar1), w3))
      | (Inr regResult, w2) \<Rightarrow>
     (case sp_PatchResolvedSecretRef (rc_statusPatcher r) ar resolvedSecretName w2 of
        ((Some err, ar1), w3) \<Rightarrow>
          ((Some (Wrapf ''failed to patch status.resolvedSecretName: '' err), ar1), w3)
      | ((None, ar1), w3) \<Rightarrow>
     (case sr_Reconcile (rc_credentialsSecretReconciler r) regResult ar1 resolvedSecretName
             isControllerManagedSecret w3 of
        (Some err, w4) \<Rightarrow>
          (case sp_PatchSecretReconcileFailed (rc_statusPatcher r) ar1 resolvedSecretName err w4 of
             ((_, ar2), w5) \<Rightarrow> ((Some (Wrapf ''failed to reconcile secret: '' err), ar2), w5))
      | (None, w4) \<Rightarrow>
     (case cleanupObsoleteGeneratedSecret r ar1 previouslyResolvedSecretName resolvedSecretName w4 of
        (Some err, w5) \<Rightarrow>
          ((Some (Wrapf ''failed to cleanup obsolete generated secret: '' err), ar1), w5)
      | (None, w5) \<Rightarrow>
     (case sp_PatchCredentialsPublished (rc_statusPatcher r) ar1 w5 of
        ((Some err, ar2), w6) \<Rightarrow> ((Some (Wrapf ''failed to patch condition: '' err), ar2), w6)
      | ((None, ar2), w6) \<Rightarrow>
     (case sp_PatchRegistrationSucceeded (rc_statusPatcher r) ar2 w6 of
        ((Some err, ar3), w7) \<Rightarrow> ((Some (Wrapf ''failed to patch condition: '' err), ar3), w7)
      | ((None, ar3), w7) \<Rightarrow> ((None, ar3), w7))))))))))"

text \<open>
  Deletion: the backend first, then the finalizer. The result is the error and the object,
  as for every function that works through the pointer.
\<close>

definition handleDeletion :: "'w reconciler \<Rightarrow> authRegistration \<Rightarrow> 'w patch" where
  "handleDeletion r ar w =
     (if \<not> ContainsFinalizer (rc_Client r) ar authRegistrationFinalizer then ((None, ar), w)
      else
        (case sb_Delete (rc_serviceRegistrationBackend r) (FromAuthRegistration ar) w of
           (Some err, w1) \<Rightarrow> ((Some err, ar), w1)
         | (None, w1) \<Rightarrow>
             (case RemoveFinalizer (rc_Client r) ar authRegistrationFinalizer of
                (_, ar1) \<Rightarrow>
                  (case UpdateAuthRegistration (rc_Client r) ar1 w1 of
                     (Inl err, w2) \<Rightarrow> ((Some err, ar1), w2)
                   | (Inr ar2, w2) \<Rightarrow> ((None, ar2), w2)))))"

section \<open>Success, step by step\<close>

lemma handleReconcile_None:
  "handleReconcile r ar w = ((None, ar3), w7) \<longleftrightarrow>
     (\<exists>n managed d w1 rr w2 ar1 w3 w4 w5 ar2 w6.
        resolveSecretName ar = Inr (n, managed) \<and>
        readRegistrationData r (ar_Namespace ar) n w = (Inr d, w1) \<and>
        sb_Upsert (rc_serviceRegistrationBackend r) (FromAuthRegistration ar) d w1 = (Inr rr, w2) \<and>
        sp_PatchResolvedSecretRef (rc_statusPatcher r) ar n w2 = ((None, ar1), w3) \<and>
        sr_Reconcile (rc_credentialsSecretReconciler r) rr ar1 n managed w3 = (None, w4) \<and>
        cleanupObsoleteGeneratedSecret r ar1 (st_ResolvedSecretRef (ar_Status ar)) n w4 = (None, w5) \<and>
        sp_PatchCredentialsPublished (rc_statusPatcher r) ar1 w5 = ((None, ar2), w6) \<and>
        sp_PatchRegistrationSucceeded (rc_statusPatcher r) ar2 w6 = ((None, ar3), w7))"
  by (auto simp: handleReconcile_def Let_def split: sum.splits prod.splits option.splits)

lemma handleDeletion_None:
  "handleDeletion r ar w = ((None, ar'), w') \<longleftrightarrow>
     (if ContainsFinalizer (rc_Client r) ar authRegistrationFinalizer
      then \<exists>w1. sb_Delete (rc_serviceRegistrationBackend r) (FromAuthRegistration ar) w = (None, w1) \<and>
             UpdateAuthRegistration (rc_Client r)
               (snd (RemoveFinalizer (rc_Client r) ar authRegistrationFinalizer)) w1 = (Inr ar', w')
      else ar' = ar \<and> w' = w)"
  by (auto simp: handleDeletion_def split: sum.splits prod.splits option.splits)

section \<open>Reading and cleaning up\<close>

text \<open>The data of the secret stored at a key; none without a secret.\<close>

definition stored_data :: "'w kube_view \<Rightarrow> 'w \<Rightarrow> namespacedName \<Rightarrow> RegistrationData" where
  "stored_data V w k = (case view_secret V w k of None \<Rightarrow> Map.empty | Some s \<Rightarrow> some_map (sec_Data s))"

lemma readRegistrationData_ok:
  assumes "read_laws (rc_Client r) V" "readRegistrationData r ns n w = (Inr d, w1)"
  shows "d = stored_data V w \<lparr>nn_Namespace = ns, nn_Name = n\<rparr>"
    "view_ar V w1 = view_ar V w" "view_secret V w1 = view_secret V w"
proof -
  obtain g where g: "GetSecret (rc_Client r) \<lparr>nn_Namespace = ns, nn_Name = n\<rparr> w = (g, w1)"
    using assms(2) by (auto simp: readRegistrationData_def split: prod.splits sum.splits if_splits)
  note l = read_lawsD [OF assms(1) g]
  show "view_ar V w1 = view_ar V w" "view_secret V w1 = view_secret V w" by (fact l)+
  show "d = stored_data V w \<lparr>nn_Namespace = ns, nn_Name = n\<rparr>"
    using assms(2) g l(3,5)
    by (auto simp: readRegistrationData_def stored_data_def some_map_def split: sum.splits if_splits)
qed

text \<open>
  The cleanup removes at most one secret: the one resolved before, when it is another one
  than the one in use and the object controls it.
\<close>

definition obsolete :: "'w kube \<Rightarrow> 'w kube_view \<Rightarrow> 'w \<Rightarrow> authRegistration \<Rightarrow> string \<Rightarrow> string \<Rightarrow> namespacedName \<Rightarrow> bool" where
  "obsolete K V w ar previous n k \<longleftrightarrow>
     k = \<lparr>nn_Namespace = ar_Namespace ar, nn_Name = TrimSpace previous\<rparr> \<and>
     TrimSpace previous \<noteq> [] \<and> TrimSpace previous \<noteq> n \<and>
     (\<exists>s. view_secret V w k = Some s \<and> IsControlledBy K s ar)"

lemma cleanup_removes:
  assumes "read_laws (rc_Client r) V" "secret_write_laws (rc_Client r) V"
    and run: "cleanupObsoleteGeneratedSecret r ar previous n w = (None, w')"
  shows "view_ar V w' = view_ar V w"
    "view_secret V w' k = (if obsolete (rc_Client r) V w ar previous n k then None else view_secret V w k)"
proof -
  let ?K = "rc_Client r" and ?k = "\<lparr>nn_Namespace = ar_Namespace ar, nn_Name = TrimSpace previous\<rparr>"
  have "view_ar V w' = view_ar V w \<and>
    view_secret V w' k = (if obsolete ?K V w ar previous n k then None else view_secret V w k)"
  proof (cases "TrimSpace previous = [] \<or> TrimSpace previous = n")
    case True
    with run show ?thesis by (auto simp: cleanupObsoleteGeneratedSecret_def obsolete_def Let_def)
  next
    case False
    obtain g w1 where g: "GetSecret ?K ?k w = (g, w1)" by (cases "GetSecret ?K ?k w")
    note rd = read_lawsD [OF assms(1) g]
    show ?thesis
    proof (cases g)
      case (Inl e)
      with run False g have "IsNotFound ?K e" "w' = w1"
        by (auto simp: cleanupObsoleteGeneratedSecret_def Let_def split: if_splits)
      with rd Inl show ?thesis by (auto simp: obsolete_def)
    next
      case (Inr s)
      show ?thesis
      proof (cases "IsControlledBy ?K s ar")
        case c: False
        with run False g Inr have "w' = w1"
          by (simp add: cleanupObsoleteGeneratedSecret_def isControllerGeneratedSecret_def Let_def)
        with rd Inr c show ?thesis by (auto simp: obsolete_def)
      next
        case True
        with run False g Inr obtain x where x: "DeleteSecret ?K s w1 = (x, w')"
            "x = None \<or> (\<exists>e. x = Some e \<and> IsNotFound ?K e)"
          by (auto simp: cleanupObsoleteGeneratedSecret_def isControllerGeneratedSecret_def Let_def
              split: prod.splits option.splits if_splits)
        from secret_delete_lawsD [OF assms(2) x] rd Inr True False show ?thesis by (auto simp: obsolete_def)
      qed
    qed
  qed
  then show "view_ar V w' = view_ar V w"
    "view_secret V w' k = (if obsolete (rc_Client r) V w ar previous n k then None else view_secret V w k)"
    by simp_all
qed

lemma not_obsolete [simp]:
  "\<not> obsolete K V w ar previous n \<lparr>nn_Namespace = ar_Namespace ar, nn_Name = n\<rparr>"
  by (simp add: obsolete_def)

section \<open>The parts together\<close>

text \<open>
  The contracts of the three parts, and what ties them: the parts see the same world, reads
  change nothing, and the cleanup leaves alone the secret in use.
\<close>

definition secret_key :: "authRegistration \<Rightarrow> string \<Rightarrow> namespacedName" where
  "secret_key ar n = \<lparr>nn_Namespace = ar_Namespace ar, nn_Name = n\<rparr>"

lemma secret_key_same: "same_object ar ar' \<Longrightarrow> secret_key ar' n = secret_key ar n"
  by (simp add: same_object_def secret_key_def)

locale reconciler_parts =
  status_patcher P synced frame + secret_reconciler S good holds kept
  for P :: "'w statusPatcher"
    and synced :: "authRegistration \<Rightarrow> 'w \<Rightarrow> bool"
    and frame :: "'w \<Rightarrow> 'f"
    and S :: "'w secretReconciler"
    and good :: "'w \<Rightarrow> bool"
    and holds :: "'w \<Rightarrow> namespacedName \<Rightarrow> RegistrationData \<Rightarrow> bool"
    and kept :: "'w \<Rightarrow> 'w \<Rightarrow> bool" +
  fixes K :: "'w kube"
    and B :: "'w serviceRegistrationBackend"
    and apart :: "authRegistration \<Rightarrow> bool"
  assumes backend: "service_backend B (\<lambda>w. apart ar \<and> synced ar w \<and> good w)"
    and kept_synced: "kept w w' \<Longrightarrow> synced ar w \<Longrightarrow> synced ar w'"
    and frame_good: "frame w' = frame w \<Longrightarrow> good w \<Longrightarrow> good w'"
    and frame_holds: "frame w' = frame w \<Longrightarrow> holds w k d \<Longrightarrow> holds w' k d"
    and reads: "readRegistrationData (newAuthRegistrationReconciler K S P B) ns n w = (Inr d, w') \<Longrightarrow>
        good w \<Longrightarrow> good w' \<and> kept w w'"
    and cleans: "cleanupObsoleteGeneratedSecret (newAuthRegistrationReconciler K S P B) ar prev n w = (None, w') \<Longrightarrow>
        good w \<Longrightarrow> good w' \<and> kept w w' \<and> (holds w (secret_key ar n) d \<longrightarrow> holds w' (secret_key ar n) d)"
begin

text \<open>
  A reconciliation that reports success has reached its goal: the status names the secret
  and has both conditions, for the generation that was reconciled, and the secret holds what
  the backend gave for the registration.
\<close>

lemma reached:
  assumes run: "handleReconcile (newAuthRegistrationReconciler K S P B) ar w = ((None, ar'), w')"
    and start: "synced ar w" "good w" "apart ar"
  shows "\<exists>n managed d w1 rr w2.
     resolveSecretName ar = Inr (n, managed) \<and>
     readRegistrationData (newAuthRegistrationReconciler K S P B) (ar_Namespace ar) n w = (Inr d, w1) \<and>
     sb_Upsert B (FromAuthRegistration ar) d w1 = (Inr rr, w2) \<and>
     holds w' (secret_key ar n) (GetRegistrationData rr) \<and>
     synced ar' w' \<and> good w' \<and> same_object ar ar' \<and> st_ResolvedSecretRef (ar_Status ar') = n \<and>
     has_condition ar' ConditionCredentialsPublished ConditionTrue \<and>
     has_condition ar' ConditionCompleted ConditionTrue"
proof -
  let ?r = "newAuthRegistrationReconciler K S P B"
  have parts: "rc_Client ?r = K" "rc_credentialsSecretReconciler ?r = S" "rc_statusPatcher ?r = P"
    "rc_serviceRegistrationBackend ?r = B" by (simp_all add: newAuthRegistrationReconciler_def)
  from run obtain n managed d w1 rr w2 ar1 w3 w4 w5 ar2 w6 where
    name: "resolveSecretName ar = Inr (n, managed)" and
    rd: "readRegistrationData ?r (ar_Namespace ar) n w = (Inr d, w1)" and
    up: "sb_Upsert B (FromAuthRegistration ar) d w1 = (Inr rr, w2)" and
    ref: "sp_PatchResolvedSecretRef P ar n w2 = ((None, ar1), w3)" and
    sec: "sr_Reconcile S rr ar1 n managed w3 = (None, w4)" and
    cl: "cleanupObsoleteGeneratedSecret ?r ar1 (st_ResolvedSecretRef (ar_Status ar)) n w4 = (None, w5)" and
    cond: "sp_PatchCredentialsPublished P ar1 w5 = ((None, ar2), w6)"
      "sp_PatchRegistrationSucceeded P ar2 w6 = ((None, ar'), w')"
    unfolding handleReconcile_None parts by blast
  have 1: "synced ar w1" "good w1" using reads [OF rd] start kept_synced by blast+
  have 2: "synced ar w2" "good w2"
    using service_backend.upsert_inv [OF backend, of ar w1 "FromAuthRegistration ar" d] 1 start(3) up by simp_all
  have 3: "synced ar1 w3" "frame w3 = frame w2" "same_object ar ar1"
    "st_ResolvedSecretRef (ar_Status ar1) = n"
    using resolved_ref [OF 2(1) ref] by simp_all
  have g3: "good w3" using frame_good [OF 3(2) 2(2)] .
  have 4: "good w4" "kept w3 w4" "holds w4 (secret_key ar1 n) (GetRegistrationData rr)"
    using reconciled [OF g3 sec] by (simp_all add: secret_key_def)
  have 5: "good w5" "kept w4 w5" "holds w5 (secret_key ar1 n) (GetRegistrationData rr)"
    using cleans [OF cl 4(1)] 4(3) by blast+
  have s5: "synced ar1 w5" using 3(1) 4(2) 5(2) kept_synced by blast
  note end_ = both_conditions [OF s5 cond]
  have "good w'" "holds w' (secret_key ar1 n) (GetRegistrationData rr)"
    using frame_good [OF end_(2) 5(1)] frame_holds [OF end_(2) 5(3)] .
  moreover have "same_object ar ar'" using 3(3) end_(3) by (rule same_object_trans)
  ultimately show ?thesis
    using name rd up end_ 3(4) secret_key_same [OF 3(3)] by metis
qed

end

end
