(* ===== verification/Controller.thy ===== *)
theory Controller imports Reconciler begin

text \<open>
  internal/controller/authregistration_controller.go and
  deletion_timestamp_changed_predicate.go: the entry point of a reconciliation, the index
  and the mapping that turn a secret event into reconciliations, and the predicate that lets
  deletions through. Every reconcile.Result of the code is the zero value, so a result is its
  error.
\<close>

section \<open>The controller\<close>

text \<open>The interface authRegistrationReconciler.\<close>

record 'w authRegistrationReconciler =
  arr_handleReconcile :: "authRegistration \<Rightarrow> 'w patch"
  arr_handleDeletion :: "authRegistration \<Rightarrow> 'w patch"

definition reconciler_interface :: "'w reconciler \<Rightarrow> 'w authRegistrationReconciler" where
  "reconciler_interface r =
     \<lparr>arr_handleReconcile = handleReconcile r, arr_handleDeletion = handleDeletion r\<rparr>"

record 'w AuthRegistrationController =
  ctl_Client :: "'w kube"
  ctl_reconciler :: "'w authRegistrationReconciler"

definition NewAuthRegistrationController ::
    "'w kube \<Rightarrow> 'w serviceRegistrationBackend \<Rightarrow> 'w AuthRegistrationController" where
  "NewAuthRegistrationController K backend =
     \<lparr>ctl_Client = K,
      ctl_reconciler = reconciler_interface
        (newAuthRegistrationReconciler K (authRegistrationSecretReconciler K)
           (authRegistrationStatusPatcher K) backend)\<rparr>"

definition Reconcile :: "'w AuthRegistrationController \<Rightarrow> namespacedName \<Rightarrow> ('w, go_error option) io" where
  "Reconcile c req w =
     (case GetAuthRegistration (ctl_Client c) req w of
        (Inl err, w1) \<Rightarrow> (IgnoreNotFound (ctl_Client c) err, w1)
      | (Inr ar, w1) \<Rightarrow>
          if \<not> TimeIsZero (ctl_Client c) (ar_DeletionTimestamp ar) then
            (case arr_handleDeletion (ctl_reconciler c) ar w1 of ((err, _), w2) \<Rightarrow> (err, w2))
          else
            (case AddFinalizer (ctl_Client c) ar authRegistrationFinalizer of
               (finalizersUpdated, ar1) \<Rightarrow>
                 (case (if finalizersUpdated then UpdateAuthRegistration (ctl_Client c) ar1 w1
                        else (Inr ar1, w1)) of
                    (Inl err, w2) \<Rightarrow> (Some err, w2)
                  | (Inr ar2, w2) \<Rightarrow>
                      (case arr_handleReconcile (ctl_reconciler c) ar2 w2 of
                         ((Some err, _), w3) \<Rightarrow> (Some err, w3)
                       | ((None, _), w3) \<Rightarrow> (None, w3)))))"

section \<open>Secret events\<close>

text \<open>
  The objects a watch hands out: an AuthRegistration, a Secret, or something else.
\<close>

datatype object = ObjAuthRegistration authRegistration | ObjSecret secret | ObjOther

text \<open>A nil slice is \<open>None\<close>.\<close>

definition indexAuthRegistrationBySecretName :: "object \<Rightarrow> string list option" where
  "indexAuthRegistrationBySecretName obj =
     (case obj of
        ObjAuthRegistration ar \<Rightarrow>
          (case resolveSecretName ar of
             Inl err \<Rightarrow> None
           | Inr (secretName, _) \<Rightarrow> Some [secretName])
      | _ \<Rightarrow> None)"

definition mapSecretToAuthRegistrations ::
    "'w AuthRegistrationController \<Rightarrow> object \<Rightarrow> ('w, namespacedName list option) io" where
  "mapSecretToAuthRegistrations c obj w =
     (case obj of
        ObjSecret secret \<Rightarrow>
          (case ListAuthRegistrations (ctl_Client c) (sec_Namespace secret)
                  authRegistrationSecretRefField (sec_Name secret) w of
             (Inl err, w1) \<Rightarrow> (None, w1)
           | (Inr items, w1) \<Rightarrow>
               (Some (map (\<lambda>ar. \<lparr>nn_Namespace = ar_Namespace ar, nn_Name = ar_Name ar\<rparr>) items), w1))
      | _ \<Rightarrow> (None, w))"

section \<open>The deletion predicate\<close>

definition deletionTimestampChanged_Update ::
    "'w kube \<Rightarrow> meta_time option \<Rightarrow> meta_time option \<Rightarrow> bool" where
  "deletionTimestampChanged_Update K oldDeletion newDeletion =
     (case (oldDeletion, newDeletion) of
        (None, None) \<Rightarrow> False
      | (None, Some _) \<Rightarrow> True
      | (Some _, None) \<Rightarrow> True
      | (Some t, Some u) \<Rightarrow> \<not> TimeEqual K t u)"

section \<open>The set-up with the manager\<close>

text \<open>
  What SetupWithManager hands to controller-runtime. Durations are nanoseconds; the rate
  limiter is its base and its greatest delay.
\<close>

datatype eventPredicate =
    GenerationChangedPredicate
  | AnnotationChangedPredicate
  | LabelChangedPredicate
  | DeletionTimestampChangedPredicate
  | PredicateOr "eventPredicate list"

record 'w controllerBuilder =
  cb_ForPredicate :: eventPredicate
  cb_RateLimiter :: "int64 \<times> int64"
  cb_WatchSecrets :: "object \<Rightarrow> ('w, namespacedName list option) io"
  cb_Named :: string
  cb_Reconciler :: "namespacedName \<Rightarrow> ('w, go_error option) io"

text \<open>The part of the manager that is used: the field indexer, and Complete of the builder.\<close>

record 'w setupManager =
  mg_IndexField :: "string \<Rightarrow> (object \<Rightarrow> string list option) \<Rightarrow> ('w, go_error option) io"
  mg_Complete :: "'w controllerBuilder \<Rightarrow> ('w, go_error option) io"

definition SetupWithManager ::
    "'w AuthRegistrationController \<Rightarrow> 'w setupManager \<Rightarrow> ('w, go_error option) io" where
  "SetupWithManager c mgr w =
     (let rateLimiter = (1000000000, 120000000000)
      in (case mg_IndexField mgr authRegistrationSecretRefField indexAuthRegistrationBySecretName w of
            (Some err, w1) \<Rightarrow>
              (Some (Wrapf ''failed to index AuthRegistration by secret reference: '' err), w1)
          | (None, w1) \<Rightarrow>
              mg_Complete mgr
                \<lparr>cb_ForPredicate = PredicateOr [GenerationChangedPredicate, AnnotationChangedPredicate,
                   LabelChangedPredicate, DeletionTimestampChangedPredicate],
                 cb_RateLimiter = rateLimiter, cb_WatchSecrets = mapSecretToAuthRegistrations c,
                 cb_Named = ''authregistration'', cb_Reconciler = Reconcile c\<rparr> w1))"

lemma SetupWithManager_success:
  assumes "SetupWithManager c mgr w = (None, w2)"
  shows "\<exists>w1 cb. mg_IndexField mgr authRegistrationSecretRefField indexAuthRegistrationBySecretName w = (None, w1) \<and>
     mg_Complete mgr cb w1 = (None, w2) \<and> cb_Reconciler cb = Reconcile c \<and>
     cb_WatchSecrets cb = mapSecretToAuthRegistrations c"
  using assms by (fastforce simp: SetupWithManager_def Let_def split: prod.splits option.splits)

section \<open>Which objects a secret concerns\<close>

text \<open>
  The field index of the cache: a listing by the index field gives exactly the stored objects
  of the namespace whose index values contain the name.
\<close>

definition index_laws :: "'w kube \<Rightarrow> 'w kube_view \<Rightarrow> bool" where
  "index_laws K V \<longleftrightarrow>
     (\<forall>ns name w items w1.
        ListAuthRegistrations K ns authRegistrationSecretRefField name w = (Inr items, w1) \<longrightarrow>
        set items = {ar. view_ar V w (ar_key ar) = Some ar \<and> ar_Namespace ar = ns \<and>
          (\<exists>names. indexAuthRegistrationBySecretName (ObjAuthRegistration ar) = Some names \<and> name \<in> set names)})"

lemma indexed_name:
  "(\<exists>names. indexAuthRegistrationBySecretName (ObjAuthRegistration ar) = Some names \<and> name \<in> set names) \<longleftrightarrow>
     (\<exists>managed. resolveSecretName ar = Inr (name, managed))"
  by (auto simp: indexAuthRegistrationBySecretName_def split: sum.splits prod.splits)

lemma mapped_requests:
  assumes "index_laws (ctl_Client c) V" "mapSecretToAuthRegistrations c (ObjSecret s) w = (Some reqs, w1)"
  shows "set reqs = {k. \<exists>ar managed. view_ar V w k = Some ar \<and> ar_key ar = k \<and>
     nn_Namespace k = sec_Namespace s \<and> resolveSecretName ar = Inr (sec_Name s, managed)}"
proof -
  from assms(2) obtain items where l: "ListAuthRegistrations (ctl_Client c) (sec_Namespace s)
      authRegistrationSecretRefField (sec_Name s) w = (Inr items, w1)" and r: "reqs = map ar_key items"
    by (auto simp: mapSecretToAuthRegistrations_def ar_key_def split: prod.splits sum.splits)
  have "set items = {ar. view_ar V w (ar_key ar) = Some ar \<and> ar_Namespace ar = sec_Namespace s \<and>
      (\<exists>managed. resolveSecretName ar = Inr (sec_Name s, managed))}"
    using assms(1) l unfolding index_laws_def indexed_name by blast
  then show ?thesis unfolding r by (auto simp: ar_key_def)
qed

end
