(* ===== verification/OperatorSystem.thy ===== *)
theory OperatorSystem imports CasBackend Controller begin

text \<open>
  The operator as main.go wires it: the controller over the status patcher, the secret
  reconciler and the CAS backend. Here the contracts of the parts are put together for the
  code's own definitions, and the results that follow for a whole reconciliation are stated.
\<close>

section \<open>The wiring\<close>

definition operator_reconciler :: "'w kube \<Rightarrow> 'w CASServiceRegistrationBackend \<Rightarrow> 'w reconciler" where
  "operator_reconciler K b =
     newAuthRegistrationReconciler K (authRegistrationSecretReconciler K)
       (authRegistrationStatusPatcher K) (backend_interface b)"

definition operator_controller :: "'w kube \<Rightarrow> 'w CASServiceRegistrationBackend \<Rightarrow> 'w AuthRegistrationController" where
  "operator_controller K b = NewAuthRegistrationController K (backend_interface b)"

lemma operator_controller_simps [simp]:
  "ctl_Client (operator_controller K b) = K"
  "arr_handleReconcile (ctl_reconciler (operator_controller K b)) = handleReconcile (operator_reconciler K b)"
  "arr_handleDeletion (ctl_reconciler (operator_controller K b)) = handleDeletion (operator_reconciler K b)"
  by (simp_all add: operator_controller_def operator_reconciler_def NewAuthRegistrationController_def
      reconciler_interface_def)

lemma operator_reconciler_simps [simp]:
  "rc_Client (operator_reconciler K b) = K"
  "rc_credentialsSecretReconciler (operator_reconciler K b) = authRegistrationSecretReconciler K"
  "rc_statusPatcher (operator_reconciler K b) = authRegistrationStatusPatcher K"
  "rc_serviceRegistrationBackend (operator_reconciler K b) = backend_interface b"
  by (simp_all add: operator_reconciler_def newAuthRegistrationReconciler_def)

section \<open>The contracts together\<close>

text \<open>The CAS registry, the global configuration and the random source are not Kubernetes objects.\<close>

definition kube_apart :: "'w CASServiceRegistrationBackend \<Rightarrow> 'w kube_view \<Rightarrow> bool" where
  "kube_apart b V \<longleftrightarrow> (\<forall>x. effects_keep b (\<lambda>w. (view_ar V w, view_secret V w) = x))"

lemma keeps_views:
  assumes "\<And>x. keeps (\<lambda>w. (view_ar V w, view_secret V w) = x) m"
    and "\<And>w w'. view_ar V w' = view_ar V w \<Longrightarrow> view_secret V w' = view_secret V w \<Longrightarrow> I w \<Longrightarrow> I w'"
  shows "keeps I m"
  using assms unfolding keeps_def by (metis prod.inject)

lemma kube_apart_effects:
  assumes "kube_apart b V" "\<And>w w'. view_ar V w' = view_ar V w \<Longrightarrow> view_secret V w' = view_secret V w \<Longrightarrow> I w \<Longrightarrow> I w'"
  shows "effects_keep b I"
  using assms(1) unfolding kube_apart_def effects_keep_def
  by (auto intro!: keeps_views [of V, OF _ assms(2)])

definition operator_laws :: "'w kube \<Rightarrow> 'w kube_view \<Rightarrow> bool" where
  "operator_laws K V \<longleftrightarrow>
     status_laws K V \<and> status_equal_law K \<and> condition_laws K \<and> read_laws K V \<and> secret_write_laws K V \<and>
     owner_laws K \<and> secret_equal_law K"

lemma operator_laws_D:
  assumes "operator_laws K V"
  shows "read_laws K V" "secret_write_laws K V" "secret_world K V"
    "synced_with K V ar w \<longleftrightarrow> view_ar V w (ar_key ar) = Some ar"
  using assms by (simp_all add: operator_laws_def secret_world_def synced_with_def)

lemma publishes_cong: "view_secret V w' k = view_secret V w k \<Longrightarrow> publishes V w k d \<Longrightarrow> publishes V w' k d"
  by (simp add: publishes_def)

lemma op_axioms:
  fixes K :: "'w kube" and V :: "'w kube_view" and C :: "'w apiClient" and m :: "'w serviceMapper"
    and R :: "nat \<Rightarrow> ('w, bytes result) io"
  shows "reconciler_parts_axioms (authRegistrationStatusPatcher K) (synced_with K V) (view_secret V)
      (authRegistrationSecretReconciler K) (\<lambda>w. secret_world K V) (publishes V) (\<lambda>w w'. view_ar V w' = view_ar V w)
      K (backend_interface (cas_backend C m R))
      (\<lambda>ar. effects_keep (cas_backend C m R) (\<lambda>w. synced_with K V ar w \<and> secret_world K V))"
proof (rule reconciler_parts_axioms.intro)
  fix ar
  show "service_backend (backend_interface (cas_backend C m R))
      (\<lambda>w. effects_keep (cas_backend C m R) (\<lambda>w. synced_with K V ar w \<and> secret_world K V) \<and>
         synced_with K V ar w \<and> secret_world K V)"
    by (rule cas.service_backend_axioms)
next
  fix ar ns n w d w' prev
  let ?r = "newAuthRegistrationReconciler K (authRegistrationSecretReconciler K)
      (authRegistrationStatusPatcher K) (backend_interface (cas_backend C m R))"
  have K: "rc_Client ?r = K" by (simp add: newAuthRegistrationReconciler_def)
  have laws: "read_laws (rc_Client ?r) V" "secret_write_laws (rc_Client ?r) V" if "secret_world K V"
    using that by (simp_all add: secret_world_def K)
  show "secret_world K V \<and> view_ar V w' = view_ar V w"
    if "readRegistrationData ?r ns n w = (Inr d, w')" "secret_world K V"
    using readRegistrationData_ok(2) [OF laws(1)] that by blast
  show "secret_world K V \<and> view_ar V w' = view_ar V w \<and>
      (publishes V w (secret_key ar n) d \<longrightarrow> publishes V w' (secret_key ar n) d)"
    if "cleanupObsoleteGeneratedSecret ?r ar prev n w = (None, w')" "secret_world K V"
  proof -
    note c = cleanup_removes [OF laws [OF that(2)] that(1)]
    from c(2) [of "secret_key ar n"] have "view_secret V w' (secret_key ar n) = view_secret V w (secret_key ar n)"
      by (simp add: secret_key_def)
    with c(1) that(2) publishes_cong [of V w' "secret_key ar n" w] show ?thesis by simp
  qed
qed (simp_all add: synced_with_def publishes_def)

interpretation op: reconciler_parts "authRegistrationStatusPatcher K" "synced_with K V" "view_secret V"
    "authRegistrationSecretReconciler K" "\<lambda>w. secret_world K V" "publishes V" "\<lambda>w w'. view_ar V w' = view_ar V w"
    K "backend_interface (cas_backend C m R)"
    "\<lambda>ar. effects_keep (cas_backend C m R) (\<lambda>w. synced_with K V ar w \<and> secret_world K V)"
  for K :: "'w kube" and V :: "'w kube_view" and C :: "'w apiClient" and m :: "'w serviceMapper"
    and R :: "nat \<Rightarrow> ('w, bytes result) io"
proof (rule reconciler_parts.intro)
  show "reconciler_parts_axioms (authRegistrationStatusPatcher K) (synced_with K V) (view_secret V)
      (authRegistrationSecretReconciler K) (\<lambda>w. secret_world K V) (publishes V) (\<lambda>w w'. view_ar V w' = view_ar V w)
      K (backend_interface (cas_backend C m R))
      (\<lambda>ar. effects_keep (cas_backend C m R) (\<lambda>w. synced_with K V ar w \<and> secret_world K V))"
    by (rule op_axioms)
qed (rule asp.status_patcher_axioms asr.secret_reconciler_axioms)+

section \<open>A whole reconciliation\<close>

text \<open>What the API server and the helper libraries do, for the entry point as well.\<close>

definition controller_laws :: "'w kube \<Rightarrow> 'w kube_view \<Rightarrow> bool" where
  "controller_laws K V \<longleftrightarrow> operator_laws K V \<and> ar_laws K V \<and> finalizer_laws K"

lemma GetAuthRegistration_stored:
  assumes "ar_laws K V" "GetAuthRegistration K k w = (r, w1)" "view_ar V w k = Some ar"
  shows "r = Inr ar \<and> ar_key ar = k \<or> (\<exists>e. r = Inl e \<and> \<not> IsNotFound K e)"
  using ar_laws_getD(3-) [OF assms(1,2)] assms(3) by (cases r) auto

text \<open>
  The entry point on a stored object that is not being deleted: it sees to the finalizer and
  hands the stored object to the reconciler.
\<close>

lemma Reconcile_live:
  assumes laws: "controller_laws K V"
    and stored: "view_ar V w req = Some ar" "TimeIsZero K (ar_DeletionTimestamp ar)"
    and run: "Reconcile (operator_controller K b) req w = (None, w')"
  obtains ar2 w2 ar' where "handleReconcile (operator_reconciler K b) ar2 w2 = ((None, ar'), w')"
    "view_ar V w2 req = Some ar2" "ar_key ar2 = req" "view_secret V w2 = view_secret V w"
    "ar_Spec ar2 = ar_Spec ar" "ar_Name ar2 = ar_Name ar" "ar_Namespace ar2 = ar_Namespace ar"
    "ar_Generation ar2 = ar_Generation ar" "authRegistrationFinalizer \<in> set (ar_Finalizers ar2)"
proof -
  have al: "ar_laws K V" and fl: "finalizer_laws K" using laws by (simp_all add: controller_laws_def)
  obtain r w1 where g: "GetAuthRegistration K req w = (r, w1)" by (cases "GetAuthRegistration K req w")
  note get = ar_laws_getD(1,2) [OF al g]
  from GetAuthRegistration_stored [OF al g stored(1)] run g have r: "r = Inr ar" "ar_key ar = req"
    by (auto simp: Reconcile_def IgnoreNotFound_def)
  show ?thesis
  proof (cases "authRegistrationFinalizer \<in> set (ar_Finalizers ar)")
    case True
    with fl have "AddFinalizer K ar authRegistrationFinalizer = (False, ar)" by (simp add: finalizer_laws_def)
    with run g r stored(2) obtain ar' where "handleReconcile (operator_reconciler K b) ar w1 = ((None, ar'), w')"
      by (auto simp: Reconcile_def split: prod.splits option.splits)
    with that [of ar w1 ar'] get(1,2) r stored(1) True show ?thesis by simp
  next
    case False
    define ar1 where "ar1 = ar\<lparr>ar_Finalizers := ar_Finalizers ar @ [authRegistrationFinalizer]\<rparr>"
    from False fl have "AddFinalizer K ar authRegistrationFinalizer = (True, ar1)"
      by (simp add: finalizer_laws_def ar1_def)
    with run g r stored(2) obtain ar2 w2 ar' where u: "UpdateAuthRegistration K ar1 w1 = (Inr ar2, w2)"
        "handleReconcile (operator_reconciler K b) ar2 w2 = ((None, ar'), w')"
      by (auto simp: Reconcile_def split: prod.splits option.splits sum.splits)
    have "ar_Finalizers ar1 \<noteq> []" by (simp add: ar1_def)
    with ar_laws_updateD [OF al u(1)] have "view_ar V w2 = (view_ar V w1)(ar_key ar1 \<mapsto> ar2)"
      "view_secret V w2 = view_secret V w1" "same_object ar1 ar2" by simp_all
    moreover from this(3) have "ar_Finalizers ar2 = ar_Finalizers ar1" by (simp add: same_object_def)
    moreover have "ar_key ar1 = req" using r by (simp add: ar1_def ar_key_def)
    ultimately show ?thesis
      using get(2) r by (intro that [OF u(2)]) (simp_all add: same_object_def ar1_def ar_key_def)
  qed
qed

lemma resolveSecretName_cong:
  "ar_Spec a = ar_Spec b \<Longrightarrow> ar_Name a = ar_Name b \<Longrightarrow> resolveSecretName a = resolveSecretName b"
  by (simp only: resolveSecretName_def)

lemma reconciliation:
  assumes laws: "controller_laws K V" "kube_apart (cas_backend C m R) V"
    and stored: "view_ar V w req = Some ar" "TimeIsZero K (ar_DeletionTimestamp ar)"
    and run: "Reconcile (operator_controller K (cas_backend C m R)) req w = (None, w')"
  shows "\<exists>n managed w1 rr w2 ar'.
     resolveSecretName ar = Inr (n, managed) \<and>
     Upsert (cas_backend C m R) (FromAuthRegistration ar) (stored_data V w (secret_key ar n)) w1 = (Inr rr, w2) \<and>
     publishes V w' (secret_key ar n) (GetRegistrationData rr) \<and>
     view_ar V w' req = Some ar' \<and> ar_Spec ar' = ar_Spec ar \<and> ar_Generation ar' = ar_Generation ar \<and>
     authRegistrationFinalizer \<in> set (ar_Finalizers ar') \<and> st_ResolvedSecretRef (ar_Status ar') = n \<and>
     has_condition ar' ConditionCredentialsPublished ConditionTrue \<and>
     has_condition ar' ConditionCompleted ConditionTrue"
proof -
  let ?b = "cas_backend C m R"
  obtain ar2 w2 ar' where h: "handleReconcile (operator_reconciler K ?b) ar2 w2 = ((None, ar'), w')"
    and v: "view_ar V w2 req = Some ar2" "ar_key ar2 = req" "view_secret V w2 = view_secret V w"
    and same: "ar_Spec ar2 = ar_Spec ar" "ar_Name ar2 = ar_Name ar" "ar_Namespace ar2 = ar_Namespace ar"
      "ar_Generation ar2 = ar_Generation ar"
    and fin: "authRegistrationFinalizer \<in> set (ar_Finalizers ar2)"
    using Reconcile_live [OF laws(1) stored run] .
  have ol: "operator_laws K V" using laws(1) by (simp add: controller_laws_def)
  have sy: "synced_with K V ar2 w2" using v by (simp add: operator_laws_D(4) [OF ol])
  have ap: "effects_keep ?b (\<lambda>w. synced_with K V ar2 w \<and> secret_world K V)"
    using laws(2) by (rule kube_apart_effects) (simp add: synced_with_def)
  from op.reached [OF h [unfolded operator_reconciler_def] sy operator_laws_D(3) [OF ol] ap]
  obtain n managed d w1 rr w3 where o: "resolveSecretName ar2 = Inr (n, managed)"
    "readRegistrationData (operator_reconciler K ?b) (ar_Namespace ar2) n w2 = (Inr d, w1)"
    "Upsert ?b (FromAuthRegistration ar2) d w1 = (Inr rr, w3)"
    "publishes V w' (secret_key ar2 n) (GetRegistrationData rr)"
    "synced_with K V ar' w'" "same_object ar2 ar'" "st_ResolvedSecretRef (ar_Status ar') = n"
    "has_condition ar' ConditionCredentialsPublished ConditionTrue"
    "has_condition ar' ConditionCompleted ConditionTrue"
    by (auto simp: operator_reconciler_def backend_interface_def)
  have k: "secret_key ar2 n = secret_key ar n" using same by (simp add: secret_key_def)
  have "d = stored_data V w2 (secret_key ar2 n)"
    using readRegistrationData_ok(1) [of "operator_reconciler K ?b", OF _ o(2)] operator_laws_D(1) [OF ol]
    by (simp add: secret_key_def)
  then have "d = stored_data V w (secret_key ar n)" by (simp add: stored_data_def v k)
  moreover have "view_ar V w' req = Some ar'"
    using o(5) v(2) same_object_key [OF o(6)] by (simp add: synced_with_def)
  ultimately show ?thesis
    using o same fin resolveSecretName_cong [OF same(1,2)] FromAuthRegistration_cong [OF same(1)]
    by (auto simp: same_object_def k)
qed

text \<open>The client secret published at a key for a protocol.\<close>

definition published_secret :: "'w kube_view \<Rightarrow> 'w \<Rightarrow> namespacedName \<Rightarrow> protocol \<Rightarrow> string" where
  "published_secret V w k p = fst (ClientSecret (stored_data V w k) p)"

lemma published_secret_result:
  assumes "publishes V w k (GetRegistrationData rr)" "result_secret rr = Some s"
  shows "published_secret V w k (rr_Protocol rr) = TrimSpace s"
proof -
  from assms(1) have "stored_data V w k = stored_data V w k ++ GetRegistrationData rr"
    by (auto simp: publishes_def stored_data_def map_le_def map_add_def dom_def split: option.splits)
  with ClientSecret_published [OF assms(2), of "stored_data V w k"] show ?thesis
    by (simp add: published_secret_def)
qed

section \<open>Deletion\<close>

text \<open>Reading and updating an AuthRegistration does not touch \<open>G\<close>.\<close>

definition kube_keeps :: "'w kube \<Rightarrow> ('w \<Rightarrow> 'x) \<Rightarrow> bool" where
  "kube_keeps K G \<longleftrightarrow>
     (\<forall>k w r w1. GetAuthRegistration K k w = (r, w1) \<longrightarrow> G w1 = G w) \<and>
     (\<forall>ar w r w1. UpdateAuthRegistration K ar w = (r, w1) \<longrightarrow> G w1 = G w)"

text \<open>The entry point on a stored object that is being deleted and has the finalizer.\<close>

lemma Reconcile_deleted:
  assumes laws: "ar_laws K V" "finalizer_laws K"
    and stored: "view_ar V w req = Some ar" "\<not> TimeIsZero K (ar_DeletionTimestamp ar)"
      "authRegistrationFinalizer \<in> set (ar_Finalizers ar)"
  obtains w1 where "snd (GetAuthRegistration K req w) = w1" "view_ar V w1 = view_ar V w"
      "view_secret V w1 = view_secret V w" "ar_key ar = req"
      "Reconcile (operator_controller K b) req w =
         (case Delete b (FromAuthRegistration ar) w1 of
            (Some err, w2) \<Rightarrow> (Some err, w2)
          | (None, w2) \<Rightarrow>
              (case UpdateAuthRegistration K
                      (ar\<lparr>ar_Finalizers := filter (\<lambda>g. g \<noteq> authRegistrationFinalizer) (ar_Finalizers ar)\<rparr>) w2 of
                 (Inl err, w3) \<Rightarrow> (Some err, w3) | (Inr _, w3) \<Rightarrow> (None, w3)))"
  | w1 e where "snd (GetAuthRegistration K req w) = w1" "view_ar V w1 = view_ar V w"
      "view_secret V w1 = view_secret V w" "Reconcile (operator_controller K b) req w = (Some e, w1)"
proof -
  obtain r w1 where g: "GetAuthRegistration K req w = (r, w1)" by (cases "GetAuthRegistration K req w")
  note get = ar_laws_getD(1,2) [OF laws(1) g]
  from GetAuthRegistration_stored [OF laws(1) g stored(1)] show ?thesis
  proof
    assume r: "r = Inr ar \<and> ar_key ar = req"
    have "ContainsFinalizer K ar authRegistrationFinalizer"
      "RemoveFinalizer K ar authRegistrationFinalizer =
         (True, ar\<lparr>ar_Finalizers := filter (\<lambda>g. g \<noteq> authRegistrationFinalizer) (ar_Finalizers ar)\<rparr>)"
      using laws(2) stored(3) by (simp_all add: finalizer_laws_def)
    with that(1) [of w1] g get r stored(2) show ?thesis
      by (simp add: Reconcile_def handleDeletion_def backend_interface_def split: prod.splits option.splits sum.splits)
  next
    assume "\<exists>e. r = Inl e \<and> \<not> IsNotFound K e"
    with that(2) [of w1] g get show ?thesis by (auto simp: Reconcile_def IgnoreNotFound_def)
  qed
qed

lemma Reconcile_deletion_done:
  assumes laws: "ar_laws K V" "finalizer_laws K" "registry_laws valid C G" "kube_keeps K G" "registry_ok (G w)"
    and stored: "view_ar V w req = Some ar" "\<not> TimeIsZero K (ar_DeletionTimestamp ar)"
      "ar_DeletionTimestamp ar \<noteq> None" "authRegistrationFinalizer \<in> set (ar_Finalizers ar)"
    and run: "Reconcile (operator_controller K (cas_backend C m R)) req w = (None, w')"
  shows "services_of (G w') (spec_Consumer (ar_Spec ar)) = {#} \<and>
     (c \<noteq> spec_Consumer (ar_Spec ar) \<longrightarrow> services_of (G w') c = services_of (G w) c) \<and>
     (\<forall>ar'. view_ar V w' req = Some ar' \<longrightarrow> authRegistrationFinalizer \<notin> set (ar_Finalizers ar')) \<and>
     (ar_Finalizers ar = [authRegistrationFinalizer] \<longrightarrow> view_ar V w' req = None)"
proof (rule Reconcile_deleted [OF laws(1,2) stored(1,2,4), of "cas_backend C m R"])
  let ?ar = "ar\<lparr>ar_Finalizers := filter (\<lambda>g. g \<noteq> authRegistrationFinalizer) (ar_Finalizers ar)\<rparr>"
  fix w1
  assume w1: "snd (GetAuthRegistration K req w) = w1" "ar_key ar = req" and
    eq: "Reconcile (operator_controller K (cas_backend C m R)) req w =
      (case Delete (cas_backend C m R) (FromAuthRegistration ar) w1 of
         (Some err, w2) \<Rightarrow> (Some err, w2)
       | (None, w2) \<Rightarrow> (case UpdateAuthRegistration K ?ar w2 of
           (Inl err, w3) \<Rightarrow> (Some err, w3) | (Inr _, w3) \<Rightarrow> (None, w3)))"
  from run eq obtain w2 ar2 where d: "Delete (cas_backend C m R) (FromAuthRegistration ar) w1 = (None, w2)"
      and u: "UpdateAuthRegistration K ?ar w2 = (Inr ar2, w')"
    by (auto split: prod.splits option.splits sum.splits)
  have G1: "G w1 = G w" using laws(4) w1(1) unfolding kube_keeps_def by (metis prod.collapse)
  have G': "G w' = G w2" using laws(4) u unfolding kube_keeps_def by blast
  have key: "ar_key ?ar = req" using w1(2) by (simp add: ar_key_def)
  note v = ar_laws_updateD [OF laws(1) u, unfolded key]
  have "ar_Finalizers ar2 = ar_Finalizers ?ar" using v(3) unfolding same_object_def by simp
  then have "authRegistrationFinalizer \<notin> set (ar_Finalizers ar2)" by simp
  with v(1) stored(3) have "\<forall>ar'. view_ar V w' req = Some ar' \<longrightarrow> authRegistrationFinalizer \<notin> set (ar_Finalizers ar')"
    by auto
  moreover have "ar_Finalizers ar = [authRegistrationFinalizer] \<longrightarrow> view_ar V w' req = None"
    using v(1) stored(3) by auto
  ultimately show ?thesis
    using Delete_services [OF laws(3) laws(5) [folded G1] d, of c] G1 G' by simp
next
  fix w1 e
  assume "Reconcile (operator_controller K (cas_backend C m R)) req w = (Some e, w1)"
  with run show ?thesis by simp
qed

lemma Reconcile_deletion_blocked:
  assumes laws: "ar_laws K V" "finalizer_laws K" "kube_apart (cas_backend C m R) V"
    and stored: "view_ar V w req = Some ar" "\<not> TimeIsZero K (ar_DeletionTimestamp ar)"
      "authRegistrationFinalizer \<in> set (ar_Finalizers ar)"
    and fails: "fst (Delete (cas_backend C m R) (FromAuthRegistration ar) (snd (GetAuthRegistration K req w))) \<noteq> None"
  shows "fst (Reconcile (operator_controller K (cas_backend C m R)) req w) \<noteq> None \<and>
     view_ar V (snd (Reconcile (operator_controller K (cas_backend C m R)) req w)) = view_ar V w \<and>
     view_secret V (snd (Reconcile (operator_controller K (cas_backend C m R)) req w)) = view_secret V w"
proof (rule Reconcile_deleted [OF laws(1,2) stored, of "cas_backend C m R"])
  fix w1
  let ?ar = "ar\<lparr>ar_Finalizers := filter (\<lambda>g. g \<noteq> authRegistrationFinalizer) (ar_Finalizers ar)\<rparr>"
  assume w1: "snd (GetAuthRegistration K req w) = w1" "view_ar V w1 = view_ar V w" "view_secret V w1 = view_secret V w"
    and eq: "Reconcile (operator_controller K (cas_backend C m R)) req w =
      (case Delete (cas_backend C m R) (FromAuthRegistration ar) w1 of
         (Some err, w2) \<Rightarrow> (Some err, w2)
       | (None, w2) \<Rightarrow> (case UpdateAuthRegistration K ?ar w2 of
           (Inl err, w3) \<Rightarrow> (Some err, w3) | (Inr _, w3) \<Rightarrow> (None, w3)))"
  from fails w1(1) obtain err w2 where d: "Delete (cas_backend C m R) (FromAuthRegistration ar) w1 = (Some err, w2)"
    by (cases "Delete (cas_backend C m R) (FromAuthRegistration ar) w1") auto
  have "effects_keep (cas_backend C m R) (\<lambda>v. (view_ar V v, view_secret V v) = (view_ar V w, view_secret V w))"
    using laws(3) unfolding kube_apart_def by blast
  from keepsD [OF Delete_keeps [OF this] d] w1 have "view_ar V w2 = view_ar V w" "view_secret V w2 = view_secret V w"
    by simp_all
  with eq d show ?thesis by simp
qed simp

section \<open>Failures\<close>

text \<open>A registration that the backend refuses: the condition Completed turns false, nothing else.\<close>

lemma handleReconcile_refused:
  assumes laws: "operator_laws K V" "kube_apart b V" and start: "view_ar V w (ar_key ar) = Some ar"
    and name: "resolveSecretName ar = Inr (n, managed)"
    and rd: "readRegistrationData (operator_reconciler K b) (ar_Namespace ar) n w = (Inr d, w1)"
    and up: "Upsert b (FromAuthRegistration ar) d w1 = (Inl err, w2)"
    and patch: "PatchRegistrationFailed K ar err w2 = ((None, ar'), w')"
  shows "handleReconcile (operator_reconciler K b) ar w =
       ((Some (Wrapf ''failed to upsert service-registration: '' err), ar'), w')"
    "view_ar V w' (ar_key ar) = Some ar'" "view_secret V w' = view_secret V w"
    "has_condition ar' ConditionCompleted ConditionFalse"
    "st_ResolvedSecretRef (ar_Status ar') = st_ResolvedSecretRef (ar_Status ar)"
proof -
  let ?r = "operator_reconciler K b"
  have sp: "sp_PatchRegistrationFailed (authRegistrationStatusPatcher K) = PatchRegistrationFailed K"
    by (simp add: authRegistrationStatusPatcher_def)
  show "handleReconcile ?r ar w = ((Some (Wrapf ''failed to upsert service-registration: '' err), ar'), w')"
    using name rd up patch by (simp add: handleReconcile_def Let_def backend_interface_def sp)
  have w1: "view_ar V w1 = view_ar V w" "view_secret V w1 = view_secret V w"
    using readRegistrationData_ok(2,3) [of ?r, OF _ rd] operator_laws_D(1) [OF laws(1)] by simp_all
  have "effects_keep b (\<lambda>v. (view_ar V v, view_secret V v) = (view_ar V w, view_secret V w))"
    using laws(2) unfolding kube_apart_def by blast
  from keepsD [OF Upsert_keeps [OF this] up] w1
  have w2: "view_ar V w2 = view_ar V w" "view_secret V w2 = view_secret V w" by simp_all
  have "synced_with K V ar w2" using operator_laws_D(4) [OF laws(1)] start w2 by simp
  then have "synced_with K V ar' w' \<and> view_secret V w' = view_secret V w2 \<and> same_object ar ar' \<and>
      has_condition ar' ConditionCompleted ConditionFalse \<and>
      st_ResolvedSecretRef (ar_Status ar') = st_ResolvedSecretRef (ar_Status ar)"
    using asp.registration_failed [of K V ar err] patch unfolding sets_condition_def sp by blast
  then show "view_ar V w' (ar_key ar) = Some ar'" "view_secret V w' = view_secret V w"
    "has_condition ar' ConditionCompleted ConditionFalse"
    "st_ResolvedSecretRef (ar_Status ar') = st_ResolvedSecretRef (ar_Status ar)"
    using w2 same_object_key [of ar ar'] by (auto simp: synced_with_def)
qed

end
