(* ===== verification/MemCluster.thy ===== *)
theory MemCluster imports OperatorSystem begin

text \<open>
  One concrete instance of everything the model takes as an argument: a cluster in memory
  with its objects, the service registry, the global configuration and a counter for random
  bytes. It is not code of the repository. It shows that the named hypotheses can all hold at
  once, and the theorems that use them are evaluated on it.
\<close>

section \<open>The cluster\<close>

record cluster =
  cl_ars :: "namespacedName \<Rightarrow> authRegistration option"
  cl_keys :: "namespacedName list"
  cl_secrets :: "namespacedName \<Rightarrow> secret option"
  cl_services :: "RegisteredService list"
  cl_nextId :: nat
  cl_config :: globalConfig
  cl_random :: nat

definition not_found :: go_error where "not_found = ExtErr ''NotFound'' ''not found''"

fun mem_IsNotFound :: "go_error \<Rightarrow> bool" where
  "mem_IsNotFound (ExtErr tag t) \<longleftrightarrow> tag = ''NotFound''"
| "mem_IsNotFound (Wrapf t e) \<longleftrightarrow> mem_IsNotFound e"
| "mem_IsNotFound _ \<longleftrightarrow> False"

section \<open>Objects\<close>

definition mem_GetAuthRegistration :: "namespacedName \<Rightarrow> (cluster, authRegistration result) io" where
  "mem_GetAuthRegistration k w =
     (case cl_ars w k of
        None \<Rightarrow> (Inl not_found, w)
      | Some ar \<Rightarrow> if ar_key ar = k then (Inr ar, w) else (Inl (ExtErr ''Internal'' ''corrupt''), w))"

definition mem_UpdateAuthRegistration :: "authRegistration \<Rightarrow> (cluster, authRegistration result) io" where
  "mem_UpdateAuthRegistration ar w =
     (case cl_ars w (ar_key ar) of
        None \<Rightarrow> (Inl not_found, w)
      | Some old \<Rightarrow>
          (let ar2 = ar\<lparr>ar_Status := ar_Status old\<rparr>
           in (Inr ar2, w\<lparr>cl_ars := (cl_ars w)(ar_key ar :=
                 if ar_DeletionTimestamp ar \<noteq> None \<and> ar_Finalizers ar = [] then None else Some ar2)\<rparr>)))"

definition mem_PatchStatus :: "authRegistration \<Rightarrow> authRegistration \<Rightarrow> (cluster, authRegistration result) io" where
  "mem_PatchStatus old new w =
     (case cl_ars w (ar_key new) of
        None \<Rightarrow> (Inl not_found, w)
      | Some _ \<Rightarrow> (Inr new, w\<lparr>cl_ars := (cl_ars w)(ar_key new \<mapsto> new)\<rparr>))"

text \<open>The listing by the index field, as long as the list of keys is that of the stored objects.\<close>

definition mem_List :: "string \<Rightarrow> string \<Rightarrow> string \<Rightarrow> (cluster, authRegistration list result) io" where
  "mem_List ns field name w =
     (if \<forall>k. cl_ars w k \<noteq> None \<longrightarrow> k \<in> set (cl_keys w) then
        (Inr (filter
           (\<lambda>ar. cl_ars w (ar_key ar) = Some ar \<and> ar_Namespace ar = ns \<and>
              name \<in> set (slice (indexAuthRegistrationBySecretName (ObjAuthRegistration ar))))
           (concat (map (\<lambda>k. case cl_ars w k of None \<Rightarrow> [] | Some ar \<Rightarrow> [ar]) (cl_keys w)))), w)
      else (Inl (ExtErr ''Internal'' ''corrupt''), w))"

definition mem_GetSecret :: "namespacedName \<Rightarrow> (cluster, secret result) io" where
  "mem_GetSecret k w =
     (case cl_secrets w k of
        None \<Rightarrow> (Inl not_found, w)
      | Some s \<Rightarrow> if sec_key s = k then (Inr s, w) else (Inl (ExtErr ''Internal'' ''corrupt''), w))"

definition mem_CreateSecret :: "secret \<Rightarrow> (cluster, go_error option) io" where
  "mem_CreateSecret s w =
     (case cl_secrets w (sec_key s) of
        Some _ \<Rightarrow> (Some (ExtErr ''AlreadyExists'' ''exists''), w)
      | None \<Rightarrow> (None, w\<lparr>cl_secrets := (cl_secrets w)(sec_key s \<mapsto> s)\<rparr>))"

definition mem_UpdateSecret :: "secret \<Rightarrow> (cluster, go_error option) io" where
  "mem_UpdateSecret s w =
     (case cl_secrets w (sec_key s) of
        None \<Rightarrow> (Some not_found, w)
      | Some _ \<Rightarrow> (None, w\<lparr>cl_secrets := (cl_secrets w)(sec_key s \<mapsto> s)\<rparr>))"

definition mem_DeleteSecret :: "secret \<Rightarrow> (cluster, go_error option) io" where
  "mem_DeleteSecret s w =
     (case cl_secrets w (sec_key s) of
        None \<Rightarrow> (Some not_found, w\<lparr>cl_secrets := (cl_secrets w)(sec_key s := None)\<rparr>)
      | Some _ \<Rightarrow> (None, w\<lparr>cl_secrets := (cl_secrets w)(sec_key s := None)\<rparr>))"

definition owner_mark :: "authRegistration \<Rightarrow> opaque" where
  "owner_mark ar = ''owner: '' @ ar_Namespace ar @ ''/'' @ ar_Name ar"

definition mem_SetControllerReference :: "authRegistration \<Rightarrow> secret \<Rightarrow> secret result" where
  "mem_SetControllerReference ar s =
     (if sec_Rest s = [] \<or> sec_Rest s = owner_mark ar then Inr (s\<lparr>sec_Rest := owner_mark ar\<rparr>)
      else Inl (ExtErr ''AlreadyOwned'' ''already owned''))"

definition set_condition :: "condition list \<Rightarrow> condition \<Rightarrow> condition list" where
  "set_condition cs c =
     (case find_condition cs (co_Type c) of
        None \<Rightarrow> cs @ [c]
      | Some c0 \<Rightarrow> if same_content c0 c then cs
                   else map (\<lambda>x. if co_Type x = co_Type c then c else x) cs)"

definition mem_kube :: "cluster kube" where
  "mem_kube =
     \<lparr>GetAuthRegistration = mem_GetAuthRegistration,
      UpdateAuthRegistration = mem_UpdateAuthRegistration,
      PatchAuthRegistrationStatus = mem_PatchStatus,
      ListAuthRegistrations = mem_List,
      GetSecret = mem_GetSecret,
      CreateSecret = mem_CreateSecret,
      UpdateSecret = mem_UpdateSecret,
      DeleteSecret = mem_DeleteSecret,
      IsNotFound = mem_IsNotFound,
      ContainsFinalizer = (\<lambda>ar f. f \<in> set (ar_Finalizers ar)),
      AddFinalizer = (\<lambda>ar f. if f \<in> set (ar_Finalizers ar) then (False, ar)
                         else (True, ar\<lparr>ar_Finalizers := ar_Finalizers ar @ [f]\<rparr>)),
      RemoveFinalizer = (\<lambda>ar f. (f \<in> set (ar_Finalizers ar),
                            ar\<lparr>ar_Finalizers := filter (\<lambda>g. g \<noteq> f) (ar_Finalizers ar)\<rparr>)),
      SetControllerReference = mem_SetControllerReference,
      IsControlledBy = (\<lambda>s ar. sec_Rest s = owner_mark ar),
      SetStatusCondition = (\<lambda>cs c w. set_condition cs c),
      StatusDeepEqual = (=),
      SecretDeepEqual = (\<lambda>a b. sec_norm a = sec_norm b),
      TimeIsZero = (\<lambda>t. t = None),
      TimeEqual = (=)\<rparr>"

definition mem_view :: "cluster kube_view" where
  "mem_view = \<lparr>view_ar = cl_ars, view_secret = cl_secrets\<rparr>"

section \<open>Registry, configuration and random bytes\<close>

definition mem_api :: "cluster apiClient" where
  "mem_api =
     \<lparr>ac_BaseURL = ''https://cas:8443/cas'',
      ac_ListServices = (\<lambda>w. (Inr (Some (cl_services w)), w)),
      ac_CreateService = (\<lambda>s w.
        (let i = (of_nat (cl_nextId w) :: int64)
         in if i = 0 \<or> i \<in> rs_ID ` set (cl_services w) then (Inl (ExtErr ''Conflict'' ''id taken''), w)
            else (Inr (s\<lparr>rs_ID := i\<rparr>),
                  w\<lparr>cl_services := s\<lparr>rs_ID := i\<rparr> # cl_services w, cl_nextId := Suc (cl_nextId w)\<rparr>))),
      ac_UpdateService = (\<lambda>s w.
        if rs_ID s \<in> rs_ID ` set (cl_services w)
        then (Inr s, w\<lparr>cl_services := s # filter (\<lambda>t. rs_ID t \<noteq> rs_ID s) (cl_services w)\<rparr>)
        else (Inl not_found, w)),
      ac_DeleteService = (\<lambda>i w.
        (None, w\<lparr>cl_services := filter (\<lambda>t. rs_ID t \<noteq> i) (cl_services w)\<rparr>))\<rparr>"

definition mem_registry :: "cluster \<Rightarrow> registry" where
  "mem_registry w = mset (cl_services w)"

definition mem_mapper :: "cluster serviceMapper" where
  "mem_mapper = newServiceMapper \<lparr>GetGlobalConfig = (\<lambda>w. (Inr (cl_config w), w))\<rparr> ''/cas''"

text \<open>Not random at all, but never the same bytes twice in a row.\<close>

definition mem_random :: "nat \<Rightarrow> (cluster, bytes result) io" where
  "mem_random n w =
     (Inr (replicate n (char_of (cl_random w mod 256))), w\<lparr>cl_random := Suc (cl_random w)\<rparr>)"

definition mem_backend :: "cluster CASServiceRegistrationBackend" where
  "mem_backend = cas_backend mem_api mem_mapper mem_random"

section \<open>The hypotheses hold\<close>

lemma find_condition_map:
  "find_condition (map (\<lambda>x. if co_Type x = co_Type c then c else x) cs) ty =
     (if ty = co_Type c then (if find_condition cs ty = None then None else Some c) else find_condition cs ty)"
  by (induction cs) (auto simp: find_condition_def)

lemma find_condition_append:
  "find_condition (cs @ [c]) ty =
     (case find_condition cs ty of None \<Rightarrow> if co_Type c = ty then Some c else None | Some d \<Rightarrow> Some d)"
  by (induction cs) (auto simp: find_condition_def)

lemma mem_condition_laws: "condition_laws mem_kube"
  unfolding condition_laws_def
  by (auto simp: mem_kube_def set_condition_def find_condition_map find_condition_append same_content_def
      split: option.splits)

lemma mem_status_laws: "status_laws mem_kube mem_view" "status_equal_law mem_kube"
  by (auto simp: status_laws_def status_equal_law_def mem_kube_def mem_view_def mem_PatchStatus_def
      split: option.splits)

lemma mem_secret_laws: "read_laws mem_kube mem_view" "secret_write_laws mem_kube mem_view"
    "owner_laws mem_kube" "secret_equal_law mem_kube"
  by (auto simp: read_laws_def secret_write_laws_def owner_laws_def secret_equal_law_def mem_kube_def
      mem_view_def mem_GetSecret_def mem_CreateSecret_def mem_UpdateSecret_def mem_DeleteSecret_def
      mem_SetControllerReference_def not_found_def stored_as_def sec_key_def
      split: option.splits if_splits)

lemma mem_ar_laws: "ar_laws mem_kube mem_view" "finalizer_laws mem_kube"
  by (auto simp: ar_laws_def finalizer_laws_def mem_kube_def mem_view_def mem_GetAuthRegistration_def
      mem_UpdateAuthRegistration_def not_found_def Let_def
      split: option.splits if_splits)

lemma mem_index_laws: "index_laws mem_kube mem_view"
  unfolding index_laws_def
proof (intro allI impI)
  fix ns name w items w1
  assume "ListAuthRegistrations mem_kube ns authRegistrationSecretRefField name w = (Inr items, w1)"
  then have keys: "\<forall>k. cl_ars w k \<noteq> None \<longrightarrow> k \<in> set (cl_keys w)" and
    items: "items = filter (\<lambda>ar. cl_ars w (ar_key ar) = Some ar \<and> ar_Namespace ar = ns \<and>
        name \<in> set (slice (indexAuthRegistrationBySecretName (ObjAuthRegistration ar))))
      (concat (map (\<lambda>k. case cl_ars w k of None \<Rightarrow> [] | Some ar \<Rightarrow> [ar]) (cl_keys w)))"
    by (auto simp: mem_kube_def mem_List_def split: if_splits)
  have ex: "\<exists>k\<in>set (cl_keys w). ar \<in> set (case cl_ars w k of None \<Rightarrow> [] | Some ar \<Rightarrow> [ar])"
    if "cl_ars w (ar_key ar) = Some ar" for ar
    using keys that by (intro bexI [of _ "ar_key ar"]) auto
  have sl: "name \<in> set (slice x) \<longleftrightarrow> (\<exists>names. x = Some names \<and> name \<in> set names)" for x
    by (cases x) (simp_all add: slice_def)
  show "set items = {ar. view_ar mem_view w (ar_key ar) = Some ar \<and> ar_Namespace ar = ns \<and>
      (\<exists>names. indexAuthRegistrationBySecretName (ObjAuthRegistration ar) = Some names \<and> name \<in> set names)}"
    unfolding items using ex by (auto simp: mem_view_def sl)
qed

lemma mem_laws [simp]: "controller_laws mem_kube mem_view" "operator_laws mem_kube mem_view"
  by (simp_all add: controller_laws_def operator_laws_def mem_condition_laws mem_status_laws
      mem_secret_laws mem_ar_laws)

lemma mem_registry_laws [simp]: "registry_laws valid mem_api mem_registry"
  unfolding registry_laws_def
  by (auto simp: mem_api_def mem_registry_def slice_def Let_def image_iff split: if_splits)

lemma mem_config_apart: "(\<And>n w. f (w\<lparr>cl_random := n\<rparr>) = f w) \<Longrightarrow> config_apart mem_mapper mem_random f"
  by (auto simp: config_apart_def mem_mapper_def newServiceMapper_def mem_random_def)

lemma mem_registry_apart [simp]: "config_apart mem_mapper mem_random mem_registry"
  by (rule mem_config_apart) (simp add: mem_registry_def)

lemma mem_kube_apart [simp]: "kube_apart (cas_backend mem_api mem_mapper mem_random) mem_view"
  unfolding kube_apart_def effects_keep_def keeps_def
  by (auto simp: cas_backend_def mem_api_def mem_mapper_def newServiceMapper_def mem_random_def mem_view_def
      serviceMapper_registrationMapper_def BuildServicePayload_def BuildRegistrationResult_def getFQDN_def Let_def
      split: option.splits sum.splits prod.splits)

section \<open>A registration in the cluster\<close>

text \<open>
  One AuthRegistration of any protocol, and a cluster that holds it, together with any
  secrets and services.
\<close>

definition ex_ar :: "protocol \<Rightarrow> authRegistration" where
  "ex_ar p =
     \<lparr>ar_Name = ''redmine'', ar_Namespace = ''eco'', ar_Generation = 1, ar_DeletionTimestamp = None,
      ar_Finalizers = [],
      ar_Spec = \<lparr>spec_Protocol = p, spec_Consumer = ''redmine'', spec_LogoutURL = None,
                 spec_Params = Map.empty, spec_SecretRef = None\<rparr>,
      ar_Status = \<lparr>st_ResolvedSecretRef = [], st_Conditions = []\<rparr>, ar_Rest = []\<rparr>"

definition ex_key :: namespacedName where
  "ex_key = \<lparr>nn_Namespace = ''eco'', nn_Name = ''redmine''\<rparr>"

definition ex_cluster :: "authRegistration \<Rightarrow> (namespacedName \<rightharpoonup> secret) \<Rightarrow> RegisteredService list \<Rightarrow> cluster" where
  "ex_cluster ar secrets services =
     \<lparr>cl_ars = [ex_key \<mapsto> ar], cl_keys = [ex_key], cl_secrets = secrets, cl_services = services, cl_nextId = 1,
      cl_config = [''fqdn'' \<mapsto> ''ces.local''], cl_random = 7\<rparr>"

text \<open>A secret that somebody published before.\<close>

definition ex_secret :: secret where
  "ex_secret =
     \<lparr>sec_Name = ''redmine-credentials'', sec_Namespace = ''eco'', sec_Labels = None, sec_Annotations = None,
      sec_Type = ''Opaque'', sec_Data = Some [''oidc_client_secret'' \<mapsto> ''s3cret''], sec_Rest = []\<rparr>"

definition ex_secret_key :: namespacedName where
  "ex_secret_key = \<lparr>nn_Namespace = ''eco'', nn_Name = ''redmine-credentials''\<rparr>"

lemma ex_trims [simp]: "TrimSpace ''redmine'' = ''redmine''" "TrimSpace ''s3cret'' = ''s3cret''"
    "TrimSpace ''redmine-credentials'' = ''redmine-credentials''" "TrimSpace ''old'' = ''old''" "TrimSpace [] = []"
  by code_simp+

lemmas mem_defs =
  mem_kube_def mem_view_def mem_GetAuthRegistration_def mem_UpdateAuthRegistration_def mem_PatchStatus_def
  mem_GetSecret_def mem_CreateSecret_def mem_UpdateSecret_def mem_DeleteSecret_def
  mem_SetControllerReference_def set_condition_def find_condition_def ar_key_def sec_key_def not_found_def
  mem_api_def mem_mapper_def mem_random_def newServiceMapper_def mem_registry_def

lemmas ex_defs = ex_ar_def ex_key_def ex_cluster_def ex_secret_def ex_secret_key_def

lemmas controller_eval =
  Reconcile_def handleReconcile_def handleDeletion_def operator_controller_def NewAuthRegistrationController_def
  reconciler_interface_def newAuthRegistrationReconciler_def authRegistrationSecretReconciler_def
  authRegistrationStatusPatcher_def resolveSecretName_def defaultGeneratedSecretSuffix_def
  readRegistrationData_def cleanupObsoleteGeneratedSecret_def PatchResolvedSecretRef_def patchStatus_def
  ReconcileSecret_def buildDesiredSecret_def PatchCredentialsPublished_def PatchRegistrationSucceeded_def
  patchCondition_def new_condition_def same_content_def FromAuthRegistration_def

lemmas backend_eval =
  backend_interface_def cas_backend_def Upsert_def Delete_def serviceMapper_registrationMapper_def
  ValidateRegistration_def protocol_defs findServiceByConsumer_def slice_def resolveClientSecret_def
  BuildServicePayload_def getFQDN_def fqdnKey_def wrapping_def BuildRegistrationResult_def

lemma ex_run_CAS:
  "fst (Reconcile (operator_controller mem_kube (cas_backend mem_api mem_mapper mem_random)) ex_key
     (ex_cluster (ex_ar ''CAS'') Map.empty [])) = None"
  by (simp add: mem_defs ex_defs controller_eval backend_eval Let_def)

lemma ex_run_OIDC:
  "fst (Reconcile (operator_controller mem_kube (cas_backend mem_api mem_mapper mem_random)) ex_key
     (ex_cluster (ex_ar ''OIDC'') [ex_secret_key \<mapsto> ex_secret] [])) = None"
  by (simp add: mem_defs ex_defs controller_eval backend_eval generateClientSecret_def ClientSecret_def map_get_def
      updated_secret_def copy_into_def maps_Copy_def Let_def)

lemma ex_run_new_OIDC:
  "fst (Reconcile (operator_controller mem_kube (cas_backend mem_api mem_mapper mem_random)) ex_key
     (ex_cluster (ex_ar ''OIDC'') Map.empty [])) = None"
  by (simp add: mem_defs ex_defs controller_eval backend_eval generateClientSecret_def ClientSecret_def map_get_def
      updated_secret_def copy_into_def maps_Copy_def Let_def)

text \<open>The registration being deleted, and the service it has.\<close>

definition ex_deleted :: "string \<Rightarrow> authRegistration" where
  "ex_deleted consumer =
     (ex_ar ''CAS'')\<lparr>ar_DeletionTimestamp := Some 5, ar_Finalizers := [authRegistrationFinalizer],
        ar_Spec := (ar_Spec (ex_ar ''CAS''))\<lparr>spec_Consumer := consumer\<rparr>\<rparr>"

definition ex_service :: "int64 \<Rightarrow> string \<Rightarrow> RegisteredService" where
  "ex_service i consumer =
     zero_RegisteredService
       \<lparr>rs_ID := i,
        rs_Properties := Some \<lparr>rsps_Class = hashMapClass,
          rsps_Entries = fmupd ''ServiceName'' (NewRegisteredServiceProperty [consumer]) fmempty\<rparr>\<rparr>"

lemma ex_service_simps [simp]:
  "rs_ID (ex_service i c) = i" "GetFirstValue (rs_Properties (ex_service i c)) ''ServiceName'' = c"
  by (simp_all add: ex_service_def zero_RegisteredService_def GetFirstValue_def NewRegisteredServiceProperty_def
      NewStringCollection_def)

lemma ex_run_deletion:
  "fst (Reconcile (operator_controller mem_kube (cas_backend mem_api mem_mapper mem_random)) ex_key
     (ex_cluster (ex_deleted ''redmine'') Map.empty [ex_service 1 ''redmine'', ex_service 2 ''other''])) = None"
  by (simp add: mem_defs ex_defs ex_deleted_def controller_eval backend_eval Let_def)

lemma mem_kube_keeps: "(\<And>a w. f (w\<lparr>cl_ars := a\<rparr>) = f w) \<Longrightarrow> kube_keeps mem_kube f"
  by (auto simp: kube_keeps_def mem_defs Let_def split: option.splits if_splits)

lemma mem_registry_keeps [simp]: "kube_keeps mem_kube mem_registry"
  by (rule mem_kube_keeps) (simp add: mem_registry_def)

lemma ex_registry_ok [simp]:
  "registry_ok (mem_registry (ex_cluster a ss [ex_service 1 c, ex_service 2 d]))"
  "registry_ok (mem_registry (ex_cluster a ss []))"
  by (auto simp: registry_ok_def mem_registry_def ex_cluster_def)

lemma ex_resolves:
  "ar_key (ex_ar p) = ex_key"
  "resolveSecretName (ex_ar p) = Inr (''redmine-credentials'', True)"
  "secret_key (ex_ar p) ''redmine-credentials'' = ex_secret_key" "spec_Protocol (ar_Spec (ex_ar p)) = p"
  by (simp_all add: resolveSecretName_def defaultGeneratedSecretSuffix_def ex_defs secret_key_def ar_key_def)

text \<open>A blank secret name, a protocol nobody knows, and the patches these end in.\<close>

definition ex_blank :: authRegistration where
  "ex_blank = (ex_ar ''CAS'')\<lparr>ar_Spec := (ar_Spec (ex_ar ''CAS''))\<lparr>spec_SecretRef := Some []\<rparr>\<rparr>"

lemma ex_blank_facts:
  "resolveSecretName ex_blank = Inl (Errorf ''spec.secretRef must not be empty'')" "ar_key ex_blank = ex_key"
  by (simp_all add: resolveSecretName_def ex_blank_def ex_defs ar_key_def)

lemmas patch_eval =
  PatchInvalidSpec_def PatchRegistrationFailed_def PatchResolvedSecretRef_def patchCondition_def patchStatus_def
  new_condition_def same_content_def

lemma ex_blank_patch:
  "fst (fst (PatchInvalidSpec mem_kube ex_blank (Errorf ''spec.secretRef must not be empty'')
     (ex_cluster ex_blank Map.empty []))) = None"
  by (simp add: patch_eval mem_defs ex_defs ex_blank_def Let_def)

lemma ex_saml_patch:
  "fst (fst (PatchRegistrationFailed mem_kube (ex_ar ''SAML'') e (ex_cluster (ex_ar ''SAML'') Map.empty []))) = None"
  by (simp add: patch_eval mem_defs ex_defs Let_def)

lemma ex_ref_patch:
  "fst (fst (PatchResolvedSecretRef mem_kube (ex_ar p) n (ex_cluster (ex_ar p) Map.empty []))) = None"
  by (simp add: patch_eval mem_defs ex_defs Let_def)

lemma ex_saml_read:
  "readRegistrationData (operator_reconciler mem_kube b) (ar_Namespace (ex_ar ''SAML'')) ''redmine-credentials''
     (ex_cluster (ex_ar ''SAML'') Map.empty []) = (Inr Map.empty, ex_cluster (ex_ar ''SAML'') Map.empty [])"
  by (simp add: readRegistrationData_def mem_defs ex_defs)

lemma ex_saml_upsert:
  "Upsert (cas_backend mem_api mem_mapper mem_random) (FromAuthRegistration (ex_ar ''SAML'')) d w =
     (Inl (Errorf (''unsupported protocol '' @ quote ''SAML'')), w)"
  by (simp add: backend_eval FromAuthRegistration_def ex_defs Let_def)

end
