(* ===== verification/MemServer.thy ===== *)
theory MemServer imports CasServer MemCluster begin

text \<open>
  A server in memory for the JSON hypotheses of theory CasServer: it reads the texts of the
  requests, works on the registry of the cluster and answers with texts. It is not code of the
  repository. The registration of a service through the whole client is run on it.
\<close>

section \<open>The server\<close>

definition http_net :: "cluster netLib" where
  "http_net =
     \<lparr>url_Parse = (\<lambda>s. Inr \<lparr>url_Path = ''/cas'', url_Text = s\<rparr>),
      url_ParseRequestURI = (\<lambda>s. Inr \<lparr>url_Path = ''/cas'', url_Text = s\<rparr>),
      http_Client = (\<lambda>t. \<lparr>hc_Timeout = t, hc_Do = (\<lambda>req w. (Inl not_found, w))\<rparr>)\<rparr>"

definition reply :: "int \<Rightarrow> string \<Rightarrow> (cluster, httpResponse result) io" where
  "reply code body w = (Inr \<lparr>rp_StatusCode = code, rp_Body = Inr body\<rparr>, w)"

definition body_service :: "string option \<Rightarrow> RegisteredService option" where
  "body_service b =
     (case b of
        None \<Rightarrow> None
      | Some t \<Rightarrow>
          (case parse_json t of
             None \<Rightarrow> None
           | Some j \<Rightarrow> (case unmarshal_service zero_RegisteredService j of Inl e \<Rightarrow> None | Inr s \<Rightarrow> Some s)))"

definition written :: "int \<Rightarrow> RegisteredService result \<times> cluster \<Rightarrow> httpResponse result \<times> cluster" where
  "written code r = (case r of (Inl e, w1) \<Rightarrow> reply 409 [] w1 | (Inr p, w1) \<Rightarrow> reply code (service_text_of p) w1)"

definition mem_server :: "httpRequest \<Rightarrow> (cluster, httpResponse result) io" where
  "mem_server req w =
     (if rq_Method req = ''GET'' then
        (if \<forall>s\<in>set (cl_services w). readable s
         then reply 200 (print_json (JArr (map RegisteredService_json (cl_services w)))) w
         else reply 500 [] w)
      else if rq_Method req = ''POST'' then
        (case body_service (rq_Body req) of
           None \<Rightarrow> reply 400 [] w
         | Some s \<Rightarrow> if rs_ID s = 0 then written 201 (ac_CreateService mem_api s w) else reply 400 [] w)
      else if rq_Method req = ''PUT'' then
        (case body_service (rq_Body req) of
           None \<Rightarrow> reply 400 [] w
         | Some s \<Rightarrow> written 200 (ac_UpdateService mem_api s w))
      else
        (case ParseInt64 (drop 44 (url_Text (rq_URL req))) of
           None \<Rightarrow> reply 400 [] w
         | Some i \<Rightarrow> reply 204 [] (snd (ac_DeleteService mem_api i w))))"

definition http_client :: "cluster Client" where
  "http_client =
     \<lparr>cl_cfg = \<lparr>cc_BaseURL = ''https://cas/cas'', cc_Username = ''user'', cc_Password = ''pass'', cc_Timeout = 1\<rparr>,
      cl_httpClient = \<lparr>hc_Timeout = 1, hc_Do = mem_server\<rparr>\<rparr>"

section \<open>The hypotheses hold\<close>

lemma body_service_reads: "reads_service t s \<Longrightarrow> body_service (Some t) = Some s"
  by (auto simp: reads_service_def body_service_def)

lemma http_request:
  "NewRequest http_net m u b = Inr req \<longleftrightarrow>
     req = \<lparr>rq_Method = m, rq_URL = \<lparr>url_Path = ''/cas'', url_Text = u\<rparr>, rq_Body = b,
       rq_BasicAuth = None, rq_Header = Map.empty\<rparr>"
  by (auto simp: NewRequest_Inr http_net_def)

lemmas http_sent = answered_def sent_request_def SetHeader_def SetBasicAuth_def http_request

lemma written_ok:
  "written code r = (Inr resp, w1) \<Longrightarrow> rp_Body resp = Inr body \<Longrightarrow> rp_StatusCode resp \<noteq> 409 \<Longrightarrow>
     \<exists>p. r = (Inr p, w1) \<and> body = service_text_of p"
  by (auto simp: written_def reply_def split: prod.splits sum.splits)

lemma http_lists: "lists_services http_net http_client mem_registry"
  unfolding lists_services_def
proof (intro allI impI, elim conjE)
  fix req w body w1
  assume "NewRequest http_net ''GET'' (endpoint http_client) None = Inr req" "answered http_client req {200} w body w1"
  then have "w1 = w" "\<forall>s\<in>set (cl_services w). readable s"
    "body = print_json (JArr (map RegisteredService_json (cl_services w)))"
    by (auto simp: http_sent http_client_def mem_server_def reply_def split: if_splits)
  then show "mem_registry w1 = mem_registry w \<and>
      (\<exists>ss. mset ss = mem_registry w \<and> (\<forall>s\<in>set ss. readable s) \<and> body \<in> listing_texts ss)"
    by (auto simp: mem_registry_def listing_texts_def Let_def intro!: exI [of _ "cl_services w"] simp del: print_json.simps)
qed

lemma http_creates: "creates_services http_net http_client mem_registry"
  unfolding creates_services_def
proof (intro allI impI, elim conjE)
  fix t s req w body w1
  assume r: "NewRequest http_net ''POST'' (endpoint http_client) (Some t) = Inr req" "reads_service t s" "rs_ID s = 0"
    "answered http_client (SetHeader ''Content-Type'' ''application/json'' req) {200, 201} w body w1"
  then obtain p where p: "ac_CreateService mem_api s w = (Inr p, w1)" "body = service_text_of p"
    by (auto simp: http_sent http_client_def mem_server_def body_service_reads dest: written_ok)
  have "registry_laws (\<lambda>s. True) mem_api mem_registry" by (rule mem_registry_laws)
  with p(1) r(3) obtain i where "i \<noteq> 0" "i \<notin># image_mset rs_ID (mem_registry w)" "p = s\<lparr>rs_ID := i\<rparr>"
    "mem_registry w1 = add_mset p (mem_registry w)"
    unfolding registry_laws_def by metis
  with p(2) show "\<exists>i. i \<noteq> 0 \<and> i \<notin># image_mset rs_ID (mem_registry w) \<and> body = service_text_of (s\<lparr>rs_ID := i\<rparr>) \<and>
      mem_registry w1 = add_mset (s\<lparr>rs_ID := i\<rparr>) (mem_registry w)" by blast
qed

lemma http_updates: "updates_services http_net http_client mem_registry"
  unfolding updates_services_def
proof (intro allI impI, elim conjE)
  fix t s req w body w1
  assume r: "NewRequest http_net ''PUT'' (endpoint http_client) (Some t) = Inr req" "reads_service t s"
    "answered http_client (SetHeader ''Content-Type'' ''application/json'' req) {200, 201} w body w1"
  then obtain p where p: "ac_UpdateService mem_api s w = (Inr p, w1)" "body = service_text_of p"
    by (auto simp: http_sent http_client_def mem_server_def body_service_reads dest: written_ok)
  have "registry_laws (\<lambda>s. True) mem_api mem_registry" by (rule mem_registry_laws)
  with p(1) have "p = s" "rs_ID s \<in># image_mset rs_ID (mem_registry w)"
    "mem_registry w1 = add_mset s (filter_mset (\<lambda>t. rs_ID t \<noteq> rs_ID s) (mem_registry w))"
    unfolding registry_laws_def by metis+
  with p(2) show "rs_ID s \<in># image_mset rs_ID (mem_registry w) \<and> (body = [] \<or> body = service_text_of s) \<and>
      mem_registry w1 = add_mset s (filter_mset (\<lambda>t. rs_ID t \<noteq> rs_ID s) (mem_registry w))" by blast
qed

lemma http_deletes: "deletes_services http_net http_client mem_registry"
  unfolding deletes_services_def
proof (intro allI impI, elim conjE)
  fix i req w body w1
  assume r: "NewRequest http_net ''DELETE'' (endpoint http_client @ ''/'' @ show_int64 i) None = Inr req"
    "answered http_client (SetHeader ''Content-Type'' ''application/json'' req) {200, 204, 404} w body w1"
  have "drop 44 (endpoint http_client @ ''/'' @ show_int64 i) = show_int64 i"
    by (simp add: endpoint_def http_client_def)
  with r have "w1 = snd (ac_DeleteService mem_api i w)"
    by (auto simp: http_sent http_client_def mem_server_def reply_def)
  then show "mem_registry w1 = filter_mset (\<lambda>t. rs_ID t \<noteq> i) (mem_registry w)"
    by (simp add: mem_api_def mem_registry_def)
qed

lemma http_server: "cas_server http_net http_client mem_registry"
  by (simp add: cas_server_def http_lists http_creates http_updates http_deletes)

section \<open>A registration through the client\<close>

definition http_mapper :: "cluster serviceMapper" where
  "http_mapper = newServiceMapper \<lparr>GetGlobalConfig = (\<lambda>w. (Inr [''fqdn'' \<mapsto> ''ces.local''], w))\<rparr> ''/cas''"

definition http_backend :: "cluster CASServiceRegistrationBackend" where
  "http_backend = cas_backend (Client_apiClient http_net http_client) http_mapper mem_random"

lemma http_fqdn: "getFQDN http_mapper w = (Inr fqdn, w1) \<longleftrightarrow> fqdn = ''ces.local'' \<and> w1 = w"
  by (auto simp: getFQDN_def http_mapper_def newServiceMapper_def fqdnKey_def)

lemma http_apart: "config_apart http_mapper mem_random mem_registry"
  by (auto simp: config_apart_def http_mapper_def newServiceMapper_def mem_random_def mem_registry_def)

lemma http_list:
  assumes "cl_services w = []"
  shows "ListServices http_net http_client w = (Inr (Some []), w)"
proof -
  let ?req = "\<lparr>rq_Method = ''GET'', rq_URL = \<lparr>url_Path = ''/cas'', url_Text = endpoint http_client\<rparr>, rq_Body = None,
    rq_BasicAuth = None, rq_Header = Map.empty\<rparr>"
  have "NewRequest http_net ''GET'' (endpoint http_client) None = Inr ?req" by (simp add: http_request)
  moreover have "answered http_client ?req {200} w (print_json (JArr [])) w"
    using assms by (simp add: http_sent http_client_def mem_server_def reply_def)
  then have "do_request http_client ?req [StatusOK] w = (Inr (print_json (JArr [])), w)"
    by (simp add: do_request_answered StatusOK_def)
  moreover have "parse_json (print_json (JArr [])) = Some (JArr [])" by (rule parse_plain) simp_all
  moreover have "registeredServicesList_UnmarshalJSON (JArr []) = Inr (Some [])"
    using listing_all_forms [of "[]"] by simp
  ultimately show ?thesis
    by (simp add: ListServices_def endpoint_def registeredServicesPath_def del: print_json.simps)
qed

lemma http_create:
  assumes "readable s" "rs_ID s = 0" "ac_CreateService mem_api s w = (Inr p, w1)"
  shows "CreateService http_net http_client s w = (Inr p, w1)"
proof -
  let ?req = "\<lparr>rq_Method = ''POST'', rq_URL = \<lparr>url_Path = ''/cas'', url_Text = endpoint http_client\<rparr>,
    rq_Body = Some (service_text_of s), rq_BasicAuth = None, rq_Header = Map.empty\<rparr>"
  have p: "p = s\<lparr>rs_ID := rs_ID p\<rparr>" using assms(3) by (auto simp: mem_api_def Let_def split: if_splits)
  then have "readable p" using assms(1) by (metis readable_ID)
  then have "reads_service (service_text_of p) p" by (rule readable_text)
  then obtain j where j: "parse_json (service_text_of p) = Some j" "unmarshal_service zero_RegisteredService j = Inr p"
    by (auto simp: reads_service_def)
  have "answered http_client (SetHeader ''Content-Type'' ''application/json'' ?req) {200, 201} w (service_text_of p) w1"
    using assms(2,3) body_service_reads [OF readable_text [OF assms(1)]]
    by (simp add: http_sent http_client_def mem_server_def written_def reply_def)
  then have "do_request http_client (SetHeader ''Content-Type'' contentTypeJSON ?req) [StatusOK, StatusCreated] w =
      (Inr (service_text_of p), w1)"
    by (simp add: do_request_answered status_defs contentTypeJSON_def)
  moreover have "NewRequest http_net ''POST'' (endpoint http_client) (Some (service_text_of s)) = Inr ?req"
    by (simp add: http_request)
  ultimately show ?thesis
    using j by (simp add: CreateService_def writeService_def Let_def endpoint_def registeredServicesPath_def
        flip: service_text_of_def)
qed

definition http_registration :: Registration where
  "http_registration =
     \<lparr>reg_Protocol = ''CAS'', reg_Consumer = ''redmine'', reg_LogoutURL = [], reg_Params = Map.empty\<rparr>"

lemma http_plain: "plain_registration http_registration"
  by (simp add: plain_registration_def http_registration_def)

lemma http_run:
  assumes "cl_services w = []" "cl_nextId w = 1"
  shows "\<exists>rr w'. Upsert http_backend http_registration d w = (Inr rr, w')"
proof -
  let ?s = "service_for ''ces.local'' http_registration None []"
  have "readable ?s" by (rule readable_service_for [OF http_plain]) simp_all
  moreover have id: "rs_ID ?s = 0" by (simp add: serviceId_def)
  moreover obtain p w1 where "ac_CreateService mem_api ?s w = (Inr p, w1)"
    using assms by (simp add: mem_api_def Let_def)
  ultimately have "CreateService http_net http_client ?s w = (Inr p, w1)" by (rule http_create)
  then show ?thesis
    using http_list [OF assms(1)]
    by (simp add: Upsert_def http_backend_def cas_backend_def serviceMapper_registrationMapper_def ValidateRegistration_def
        http_registration_def [symmetric] Client_apiClient_def slice_def findServiceByConsumer_def resolveClientSecret_def
        BuildServicePayload_def BuildRegistrationResult_def wrapping_def http_fqdn [THEN iffD2])
      (simp add: http_registration_def protocol_defs)
qed

end
