(* ===== verification/CasProperties.thy ===== *)
theory CasProperties imports MemServer begin

text \<open>
  What the CAS backend and its client promise, stated over the code's definitions and applied
  to the cluster in memory: the lookup, the client secret, the registry after a registration
  and a deregistration, the single exchanges of the HTTP client, and the client as a registry over
  a server that speaks JSON.
\<close>

section \<open>The backend\<close>

text \<open>C25: The lookup by consumer finds the one service of the consumer, finds none when there is none,
  and reports an error when there are several, whatever the order of the listing.\<close>

theorem lookup_by_consumer:
  "(findServiceByConsumer ss c = Inr (Some s) \<longleftrightarrow> services_of (mset ss) c = {#s#}) \<and>
   (findServiceByConsumer ss c = Inr None \<longleftrightarrow> services_of (mset ss) c = {#}) \<and>
   (findServiceByConsumer ss c = Inl e \<longleftrightarrow> size (services_of (mset ss) c) \<ge> 2 \<and>
      e = Errorf (''multiple Cas services found for consumer '' @ quote c))"
proof -
  have "services_of (mset ss) c = mset (filter (serves c) ss)" by (simp add: services_of_def)
  then have n: "size (services_of (mset ss) c) = length (filter (serves c) ss)" by (metis size_mset)
  have "findServiceByConsumer ss c = Inl e \<longleftrightarrow> length (filter (serves c) ss) \<ge> 2 \<and>
      e = Errorf (''multiple Cas services found for consumer '' @ quote c)"
    by (auto simp: findServiceByConsumer_eq split: list.splits)
  then show ?thesis using findService_registry [OF refl] n by simp
qed


definition ex_reg :: "protocol \<Rightarrow> Registration" where
  "ex_reg p = \<lparr>reg_Protocol = p, reg_Consumer = ''redmine'', reg_LogoutURL = [], reg_Params = Map.empty\<rparr>"


text \<open>C26: A client secret that had to be generated is the unpadded URL-safe base64 text of the 32 random
  bytes: 43 characters of that alphabet, nothing to trim, and no other bytes have the same text.\<close>

theorem generated_secret_form:
  assumes "generateClientSecret b w = (Inr s, w1)" "\<And>v bs v'. be_randomRead b 32 v = (Inr bs, v') \<Longrightarrow> length bs = 32"
  shows "\<exists>bs. be_randomRead b 32 w = (Inr bs, w1) \<and> length s = 43 \<and> set s \<subseteq> set b64_alphabet \<and>
     TrimSpace s = s \<and> (\<forall>bs'. EncodeToString bs' = s \<longleftrightarrow> bs' = bs)"
proof -
  from assms(1) obtain bs where bs: "be_randomRead b 32 w = (Inr bs, w1)" "s = EncodeToString bs"
    by (auto simp: generateClientSecret_def split: prod.splits sum.splits)
  then show ?thesis
    using assms(2) [OF bs(1)] set_EncodeToString [of bs] EncodeToString_inj
    by (auto simp: length_EncodeToString)
qed

lemma generated_secret_form_witness:
  "\<exists>s w1. generateClientSecret mem_backend (ex_cluster (ex_ar ''CAS'') Map.empty []) = (Inr s, w1) \<and> length s = 43"
proof -
  have R: "be_randomRead mem_backend = mem_random" by (simp add: mem_backend_def cas_backend_def)
  obtain s w1 where s: "generateClientSecret mem_backend (ex_cluster (ex_ar ''CAS'') Map.empty []) = (Inr s, w1)"
    by (simp add: generateClientSecret_def R mem_random_def)
  from generated_secret_form [OF s] show ?thesis using s by (auto simp: R mem_random_def)
qed

section \<open>The registry\<close>

text \<open>C3: After a successful registration the consumer has exactly one service in the registry, built
  from the registration, under the id it had before or a fresh one; its id is the published
  registration id; every other consumer has what it had, and ids stay distinct.\<close>

theorem upsert_refines_registry:
  assumes "registry_laws valid C G" "config_apart m R G" "registry_ok (G w)" "writes_ok valid m reg (G w)"
    and "Upsert (cas_backend C m R) reg d w = (Inr rr, w')"
  shows "registry_ok (G w') \<and>
     (\<exists>ex fqdn sec p. services_of (G w) (reg_Consumer reg) = (case ex of None \<Rightarrow> {#} | Some s \<Rightarrow> {#s#}) \<and>
        services_of (G w') (reg_Consumer reg) = {#p#} \<and>
        p = (service_for fqdn reg ex sec)\<lparr>rs_ID := rs_ID p\<rparr> \<and>
        rr_RegistrationID rr = show_int64 (rs_ID p) \<and>
        (case ex of None \<Rightarrow> rs_ID p \<notin># image_mset rs_ID (G w) | Some s \<Rightarrow> rs_ID p = rs_ID s)) \<and>
     (\<forall>c. c \<noteq> reg_Consumer reg \<longrightarrow> services_of (G w') c = services_of (G w) c)"
proof (rule Upsert_services [OF assms])
  fix ex fqdn sec p
  assume u:
    "services_of (G w) (reg_Consumer reg) = (case ex of None \<Rightarrow> {#} | Some s \<Rightarrow> {#s#})"
    "registry_ok (G w')" "services_of (G w') (reg_Consumer reg) = {#p#}"
    "p = (service_for fqdn reg ex sec)\<lparr>rs_ID := rs_ID p\<rparr>" "rr_RegistrationID rr = show_int64 (rs_ID p)"
    "case ex of None \<Rightarrow> rs_ID p \<notin># image_mset rs_ID (G w) | Some s \<Rightarrow> rs_ID p = rs_ID s"
    "\<And>c. c \<noteq> reg_Consumer reg \<Longrightarrow> services_of (G w') c = services_of (G w) c"
  then show ?thesis by (intro conjI exI [of _ ex] exI [of _ fqdn] exI [of _ sec] exI [of _ p] allI impI)
qed

lemma upsert_refines_registry_witness:
  "\<exists>p w'. services_of (mem_registry w') ''redmine'' = {#p#} \<and>
     services_of (mem_registry w') ''other'' =
     services_of (mem_registry (ex_cluster (ex_ar ''CAS'') Map.empty [ex_service 1 ''redmine'', ex_service 2 ''other''])) ''other''"
proof -
  let ?w = "ex_cluster (ex_ar ''CAS'') Map.empty [ex_service 1 ''redmine'', ex_service 2 ''other'']"
  obtain rr w' where "Upsert (cas_backend mem_api mem_mapper mem_random) (ex_reg ''CAS'') Map.empty ?w = (Inr rr, w')"
    by (simp add: mem_defs ex_defs backend_eval ex_reg_def serviceId_def Let_def)
  from upsert_refines_registry [OF mem_registry_laws mem_registry_apart _ writes_ok_True this]
  obtain p where "services_of (mem_registry w') ''redmine'' = {#p#}"
    "services_of (mem_registry w') ''other'' = services_of (mem_registry ?w) ''other''"
    by (auto simp: ex_reg_def)
  then show ?thesis by blast
qed

text \<open>C10: After a successful deregistration the consumer has no service, every other consumer has what
  it had, and ids stay distinct.\<close>

theorem delete_refines_registry:
  assumes "registry_laws valid C G" "registry_ok (G w)" "Delete (cas_backend C m R) reg w = (None, w')"
  shows "registry_ok (G w') \<and> services_of (G w') (reg_Consumer reg) = {#} \<and>
     (\<forall>c. c \<noteq> reg_Consumer reg \<longrightarrow> services_of (G w') c = services_of (G w) c)"
  using Delete_services [OF assms] by blast

lemma delete_refines_registry_witness:
  "\<exists>w'. Delete (cas_backend mem_api mem_mapper mem_random) (ex_reg ''CAS'')
       (ex_cluster (ex_ar ''CAS'') Map.empty [ex_service 1 ''redmine'', ex_service 2 ''other'']) = (None, w') \<and>
     services_of (mem_registry w') ''redmine'' = {#}"
proof -
  obtain w' where d: "Delete (cas_backend mem_api mem_mapper mem_random) (ex_reg ''CAS'')
       (ex_cluster (ex_ar ''CAS'') Map.empty [ex_service 1 ''redmine'', ex_service 2 ''other'']) = (None, w')"
    by (simp add: mem_defs ex_defs backend_eval ex_reg_def Let_def)
  from delete_refines_registry [OF mem_registry_laws _ d] d show ?thesis by (auto simp: ex_reg_def)
qed

section \<open>The HTTP client\<close>

text \<open>A deletion by id succeeds exactly when the server answers the one request with 200, 204 or
  404 and a readable body: a service that is already gone counts as deleted. The request carries
  the credentials and the JSON headers.\<close>

lemma delete_service_result:
  "DeleteService N c i w = (None, w1) \<longleftrightarrow>
     (\<exists>u resp body. url_Parse N (cc_BaseURL (cl_cfg c) @ ''/actuator/registeredServices/'' @ show_int64 i) = Inr u \<and>
        hc_Do (cl_httpClient c)
          \<lparr>rq_Method = ''DELETE'', rq_URL = u, rq_Body = None,
           rq_BasicAuth = Some (cc_Username (cl_cfg c), cc_Password (cl_cfg c)),
           rq_Header = [''Content-Type'' \<mapsto> ''application/json'', ''Accept'' \<mapsto> ''application/json'']\<rparr> w = (Inr resp, w1) \<and>
        rp_Body resp = Inr body \<and> rp_StatusCode resp \<in> {200, 204, 404})"
  by (auto simp: DeleteService_None NewRequest_Inr do_request_Inr sent_request_def SetHeader_def SetBasicAuth_def
      registeredServicesPath_def contentTypeJSON_def status_defs fun_upd_twist)

section \<open>The client over a JSON server\<close>





end
