(* ===== verification/CtrlProperties.thy ===== *)
theory CtrlProperties imports MemCluster begin

text \<open>
  What the parts of the controller promise, one by one: the secret reconciler, the status
  patcher, the cleanup, the mapping of secret events and the deletion predicate.
\<close>

section \<open>The credentials secret\<close>

text \<open>C14: A run of the secret reconciler without an error changes one secret only: it has the
  published data and the label on top of whatever data and labels it held before, so foreign
  entries survive; every other secret and every AuthRegistration stays.\<close>

theorem secret_merged:
  assumes "secret_world K V" "ReconcileSecret K rr ar n managed w = (None, w')"
  shows "\<exists>s. view_secret V w' = (view_secret V w)(secret_key ar n \<mapsto> s) \<and>
     some_map (sec_Data s) = data_of (view_secret V w (secret_key ar n)) ++ GetRegistrationData rr \<and>
     some_map (sec_Labels s) =
       (labels_of (view_secret V w (secret_key ar n)))(''k8s.cloudogu.com/auth-registration'' \<mapsto> ar_Name ar) \<and>
     sec_Type s = ''Opaque'' \<and> view_ar V w' = view_ar V w"
proof -
  have d: "sec_key (buildDesiredSecret rr ar n) = secret_key ar n" by (simp add: secret_key_def)
  have "sec_Type (buildDesiredSecret rr ar n) = ''Opaque''"
    "some_map (sec_Labels (buildDesiredSecret rr ar n)) = [''k8s.cloudogu.com/auth-registration'' \<mapsto> ar_Name ar]"
    by (simp_all add: buildDesiredSecret_def SecretTypeOpaque_def authRegistrationNameLabelKey_def)
  with ReconcileSecret_ok [OF assms refl] show ?thesis unfolding d merged_def by auto
qed

lemma mem_secret_world [simp]: "secret_world mem_kube mem_view"
  by (simp add: secret_world_def mem_secret_laws)

definition ex_result :: RegistrationResult where
  "ex_result =
     \<lparr>rr_Protocol = ''CAS'', rr_RegistrationID = ''1'', rr_OIDC = None, rr_OAuth = None,
      rr_CAS = Some \<lparr>cas_ServiceID = ''id''\<rparr>\<rparr>"

lemma ex_secret_run:
  "fst (ReconcileSecret mem_kube ex_result (ex_ar ''CAS'') ''redmine-credentials''
     True (ex_cluster (ex_ar ''CAS'') [ex_secret_key \<mapsto> ex_secret] [])) = None"
  by (simp add: ReconcileSecret_def mem_defs ex_defs updated_secret_def buildDesiredSecret_def copy_into_def maps_Copy_def
      Let_def)

lemma secret_merged_witness:
  "\<exists>s w'. view_secret mem_view w' ex_secret_key = Some s \<and>
     some_map (sec_Data s) ''oidc_client_secret'' = Some ''s3cret'' \<and>
     some_map (sec_Data s) ''cas_client_id'' = Some ''id''"
proof -
  obtain w' where "ReconcileSecret mem_kube ex_result (ex_ar ''CAS'') ''redmine-credentials'' True
      (ex_cluster (ex_ar ''CAS'') [ex_secret_key \<mapsto> ex_secret] []) = (None, w')"
    using ex_secret_run by (metis prod.collapse)
  from secret_merged [OF mem_secret_world this] obtain s where
    "view_secret mem_view w' = (view_secret mem_view (ex_cluster (ex_ar ''CAS'') [ex_secret_key \<mapsto> ex_secret] []))
       (ex_secret_key \<mapsto> s)"
    "some_map (sec_Data s) = some_map (sec_Data ex_secret) ++ GetRegistrationData ex_result"
    by (auto simp: ex_resolves mem_view_def ex_cluster_def)
  then show ?thesis
    by (intro exI [of _ s] exI [of _ w'])
      (simp add: ex_secret_def GetRegistrationData_def ex_result_def protocol_defs map_add_def)
qed

text \<open>C30: A secret that already has everything is not written: the run ends after the read, in the
  world the read left, when for a secret the controller manages the owner reference is there.\<close>

theorem current_secret_untouched:
  assumes "secret_equal_law K"
    and "GetSecret K (secret_key ar n) w = (Inr s, w1)"
    and "has_desired s (buildDesiredSecret rr ar n)"
    and "managed \<Longrightarrow> SetControllerReference K ar (updated_secret s (buildDesiredSecret rr ar n)) =
           Inr (updated_secret s (buildDesiredSecret rr ar n))"
  shows "ReconcileSecret K rr ar n managed w = (None, w1)"
  using assms unfolding secret_key_def by (rule ReconcileSecret_quiet)

lemma current_secret_untouched_witness:
  "ReconcileSecret mem_kube ex_result (ex_ar ''CAS'') ''redmine-credentials'' False
     (ex_cluster (ex_ar ''CAS'') [ex_secret_key \<mapsto> buildDesiredSecret ex_result (ex_ar ''CAS'') ''redmine-credentials''] []) =
   (None, ex_cluster (ex_ar ''CAS'') [ex_secret_key \<mapsto> buildDesiredSecret ex_result (ex_ar ''CAS'') ''redmine-credentials''] [])"
  by (rule current_secret_untouched [OF mem_secret_laws(4), where s = "buildDesiredSecret ex_result (ex_ar ''CAS'') ''redmine-credentials''"])
    (simp_all add: has_desired_refl mem_defs ex_defs secret_key_def buildDesiredSecret_def)

text \<open>C15: The cleanup removes at most one secret, the one resolved before, and only when it is another
  one than the one in use and the object controls it; every other secret stays.\<close>

theorem cleanup_removes_only_obsolete:
  assumes "read_laws (rc_Client r) V" "secret_write_laws (rc_Client r) V"
    and "cleanupObsoleteGeneratedSecret r ar previous n w = (None, w')"
  shows "view_ar V w' = view_ar V w \<and>
     view_secret V w' k =
       (if k = \<lparr>nn_Namespace = ar_Namespace ar, nn_Name = TrimSpace previous\<rparr> \<and>
           TrimSpace previous \<notin> {[], n} \<and>
           (\<exists>s. view_secret V w k = Some s \<and> IsControlledBy (rc_Client r) s ar)
        then None else view_secret V w k)"
  using cleanup_removes [OF assms] by (auto simp: obsolete_def)

lemma ex_cleanup_run:
  "fst (cleanupObsoleteGeneratedSecret (operator_reconciler mem_kube mem_backend) (ex_ar ''CAS'') ''redmine-credentials'' ''new''
     (ex_cluster (ex_ar ''CAS'')
        [ex_secret_key \<mapsto> ex_secret\<lparr>sec_Rest := owner_mark (ex_ar ''CAS'')\<rparr>] [])) = None"
  by (simp add: cleanupObsoleteGeneratedSecret_def isControllerGeneratedSecret_def mem_defs ex_defs owner_mark_def Let_def)

lemma ex_obsolete:
  "\<lparr>nn_Namespace = ar_Namespace (ex_ar p), nn_Name = ''redmine-credentials''\<rparr> = ex_secret_key"
  "view_secret mem_view (ex_cluster a [ex_secret_key \<mapsto> s] svs) ex_secret_key = Some s"
  "IsControlledBy mem_kube (ex_secret\<lparr>sec_Rest := owner_mark ar\<rparr>) ar"
  by (simp_all add: ex_defs mem_view_def mem_kube_def)

lemma cleanup_removes_only_obsolete_witness:
  "\<exists>w'. view_secret mem_view w' ex_secret_key = None \<and>
     cleanupObsoleteGeneratedSecret (operator_reconciler mem_kube mem_backend) (ex_ar ''CAS'') ''redmine-credentials'' ''new''
     (ex_cluster (ex_ar ''CAS'')
        [ex_secret_key \<mapsto> ex_secret\<lparr>sec_Rest := owner_mark (ex_ar ''CAS'')\<rparr>] []) = (None, w')"
proof -
  let ?w = "ex_cluster (ex_ar ''CAS'') [ex_secret_key \<mapsto> ex_secret\<lparr>sec_Rest := owner_mark (ex_ar ''CAS'')\<rparr>] []"
  obtain w' where c: "cleanupObsoleteGeneratedSecret (operator_reconciler mem_kube mem_backend) (ex_ar ''CAS'')
      ''redmine-credentials'' ''new'' ?w = (None, w')"
    using ex_cleanup_run by (metis prod.collapse)
  have K: "rc_Client (operator_reconciler mem_kube mem_backend) = mem_kube" by simp
  have "view_secret mem_view w' ex_secret_key = None"
    using cleanup_removes_only_obsolete [OF _ _ c, of mem_view ex_secret_key, unfolded K] mem_secret_laws(1,2)
    by (simp add: ex_obsolete)
  with c show ?thesis by blast
qed

section \<open>The status\<close>

text \<open>Reporting success twice is reporting it once: the second patch finds the condition as it is
  to be, changes nothing of the object and makes no call.\<close>

lemma success_reported_once:
  assumes "operator_laws K V" "view_ar V w (ar_key ar) = Some ar"
    and "PatchRegistrationSucceeded K ar w = ((None, ar'), w')"
  shows "PatchRegistrationSucceeded K ar' w' = ((None, ar'), w')"
proof -
  have "synced_with K V ar w" using assms(1,2) by (simp add: operator_laws_D(4))
  from patchCondition_again [OF this assms(3) [unfolded PatchRegistrationSucceeded_def]]
  show ?thesis by (simp add: PatchRegistrationSucceeded_def)
qed

section \<open>Events\<close>

text \<open>C40: A secret event asks for the reconciliation of exactly the stored AuthRegistrations of its
  namespace that resolve to the secret's name, be it generated or referenced.\<close>

theorem secret_event_requests:
  assumes "index_laws (ctl_Client c) V" "mapSecretToAuthRegistrations c (ObjSecret s) w = (Some reqs, w1)"
  shows "set reqs = {k. \<exists>ar managed. view_ar V w k = Some ar \<and> ar_key ar = k \<and>
     nn_Namespace k = sec_Namespace s \<and> resolveSecretName ar = Inr (sec_Name s, managed)}"
  using assms by (rule mapped_requests)

lemma secret_event_requests_witness:
  "\<exists>reqs w1. mapSecretToAuthRegistrations (operator_controller mem_kube mem_backend) (ObjSecret ex_secret)
       (ex_cluster (ex_ar ''CAS'') Map.empty []) = (Some reqs, w1) \<and> set reqs = {ex_key}"
proof -
  let ?w = "ex_cluster (ex_ar ''CAS'') Map.empty []"
  have "\<forall>k. cl_ars ?w k \<noteq> None \<longrightarrow> k \<in> set (cl_keys ?w)" by (auto simp: ex_cluster_def)
  then obtain reqs w1 where m: "mapSecretToAuthRegistrations (operator_controller mem_kube mem_backend)
      (ObjSecret ex_secret) ?w = (Some reqs, w1)"
    by (simp add: mapSecretToAuthRegistrations_def mem_kube_def mem_List_def)
  from secret_event_requests [OF _ m, of mem_view] mem_index_laws
  have "set reqs = {k. \<exists>ar managed. view_ar mem_view ?w k = Some ar \<and> ar_key ar = k \<and>
     nn_Namespace k = sec_Namespace ex_secret \<and> resolveSecretName ar = Inr (sec_Name ex_secret, managed)}"
    by simp
  also have "\<dots> = {ex_key}"
    using ex_resolves(1,2) [of "''CAS''"] by (auto simp: mem_view_def ex_cluster_def ex_secret_def ex_key_def)
  finally show ?thesis using m by blast
qed

text \<open>An update passes the deletion predicate exactly when the deletion timestamp changed, in
  particular when a deletion begins.\<close>

lemma deletion_predicate_exact:
  assumes "\<And>t u. TimeEqual K t u \<longleftrightarrow> t = u"
  shows "deletionTimestampChanged_Update K a b \<longleftrightarrow> a \<noteq> b"
  using assms by (cases a; cases b) (simp_all add: deletionTimestampChanged_Update_def)

end
