(* ===== verification/OperatorFlags.thy ===== *)
theory OperatorFlags imports GoErrors begin

text \<open>
  internal/config/flags.go: the command line. The flags are registered on the process-wide
  flag set of the package flag, whose parser (flag.Parse with ExitOnError) is written out
  here: it ends the process with status 2 on a bad argument and with 0 when only help was
  asked for. Flags that libraries registered on the same set before are an argument; they
  are string flags (controller-runtime registers \<open>kubeconfig\<close>).
\<close>

section \<open>The flags and their defaults\<close>

record Flags =
  MetricsAddr :: string
  MetricsCertPath :: string
  MetricsCertName :: string
  MetricsCertKey :: string
  WebhookCertPath :: string
  WebhookCertName :: string
  WebhookCertKey :: string
  EnableLeaderElection :: bool
  ProbeAddr :: string
  SecureMetrics :: bool
  EnableHTTP2 :: bool

text \<open>A registered flag is the assignment its Set method makes.\<close>

datatype flag_var =
    StringVar "string \<Rightarrow> Flags \<Rightarrow> Flags"
  | BoolVar "bool \<Rightarrow> Flags \<Rightarrow> Flags"

text \<open>The variables after the calls of StringVar and BoolVar, which store the defaults.\<close>

definition default_flags :: Flags where
  "default_flags =
     \<lparr>MetricsAddr = ''0'', MetricsCertPath = '''', MetricsCertName = ''tls.crt'', MetricsCertKey = ''tls.key'',
      WebhookCertPath = '''', WebhookCertName = ''tls.crt'', WebhookCertKey = ''tls.key'',
      EnableLeaderElection = False, ProbeAddr = '':8081'', SecureMetrics = True, EnableHTTP2 = False\<rparr>"

definition registered_flags :: "(string \<times> flag_var) list" where
  "registered_flags =
     [(''metrics-bind-address'', StringVar (\<lambda>v f. f\<lparr>MetricsAddr := v\<rparr>)),
      (''health-probe-bind-address'', StringVar (\<lambda>v f. f\<lparr>ProbeAddr := v\<rparr>)),
      (''leader-elect'', BoolVar (\<lambda>v f. f\<lparr>EnableLeaderElection := v\<rparr>)),
      (''metrics-secure'', BoolVar (\<lambda>v f. f\<lparr>SecureMetrics := v\<rparr>)),
      (''webhook-cert-path'', StringVar (\<lambda>v f. f\<lparr>WebhookCertPath := v\<rparr>)),
      (''webhook-cert-name'', StringVar (\<lambda>v f. f\<lparr>WebhookCertName := v\<rparr>)),
      (''webhook-cert-key'', StringVar (\<lambda>v f. f\<lparr>WebhookCertKey := v\<rparr>)),
      (''metrics-cert-path'', StringVar (\<lambda>v f. f\<lparr>MetricsCertPath := v\<rparr>)),
      (''metrics-cert-name'', StringVar (\<lambda>v f. f\<lparr>MetricsCertName := v\<rparr>)),
      (''metrics-cert-key'', StringVar (\<lambda>v f. f\<lparr>MetricsCertKey := v\<rparr>)),
      (''enable-http2'', BoolVar (\<lambda>v f. f\<lparr>EnableHTTP2 := v\<rparr>))]"

section \<open>flag.Parse\<close>

text \<open>A call that may end the process: \<open>Exits\<close> with a status.\<close>

datatype 'a outcome = Exits nat | Returns 'a

definition ParseBool :: "string \<Rightarrow> bool option" where
  "ParseBool s =
     (if s \<in> set [''1'', ''t'', ''T'', ''true'', ''TRUE'', ''True''] then Some True
      else if s \<in> set [''0'', ''f'', ''F'', ''false'', ''FALSE'', ''False''] then Some False
      else None)"

text \<open>The first \<open>=\<close> that is not the first byte separates the name from the value.\<close>

definition split_value :: "string \<Rightarrow> string \<times> string option" where
  "split_value name =
     (case dropWhile (\<lambda>c. c \<noteq> CHR ''='') (tl name) of
        [] \<Rightarrow> (name, None)
      | _ # v \<Rightarrow> (hd name # takeWhile (\<lambda>c. c \<noteq> CHR ''='') (tl name), Some v))"

definition lookup_flag :: "string list \<Rightarrow> string \<Rightarrow> flag_var option" where
  "lookup_flag foreign name =
     (case map_of registered_flags name of
        Some v \<Rightarrow> Some v
      | None \<Rightarrow> if name \<in> set foreign then Some (StringVar (\<lambda>v f. f)) else None)"

text \<open>
  The loop of Parse. The first argument that is no flag ends it, and so does \<open>--\<close>. A string
  flag without \<open>=\<close> takes the next argument.
\<close>

fun parse_args :: "string list \<Rightarrow> string list \<Rightarrow> Flags \<Rightarrow> Flags outcome" where
  "parse_args foreign [] f = Returns f"
| "parse_args foreign (s # rest) f =
     (if length s < 2 \<or> hd s \<noteq> CHR ''-'' then Returns f
      else if s = ''--'' then Returns f
      else
        (let name = (if hd (tl s) = CHR ''-'' then drop 2 s else drop 1 s)
         in if name = [] \<or> hd name = CHR ''-'' \<or> hd name = CHR ''='' then Exits 2
            else
              (case split_value name of (n, value) \<Rightarrow>
                 (case lookup_flag foreign n of
                    None \<Rightarrow> if n = ''help'' \<or> n = ''h'' then Exits 0 else Exits 2
                  | Some (BoolVar set_it) \<Rightarrow>
                      (case ParseBool (case value of None \<Rightarrow> ''true'' | Some v \<Rightarrow> v) of
                         None \<Rightarrow> Exits 2
                       | Some b \<Rightarrow> parse_args foreign rest (set_it b f))
                  | Some (StringVar set_it) \<Rightarrow>
                      (case value of
                         Some v \<Rightarrow> parse_args foreign rest (set_it v f)
                       | None \<Rightarrow>
                           (case rest of
                              [] \<Rightarrow> Exits 2
                            | v # rest2 \<Rightarrow> parse_args foreign rest2 (set_it v f)))))))"

definition parseFlags :: "string list \<Rightarrow> string list \<Rightarrow> Flags outcome" where
  "parseFlags foreign args = parse_args foreign args default_flags"

section \<open>Facts\<close>

lemma split_value_eq:
  assumes "CHR ''='' \<notin> set n" "n \<noteq> []"
  shows "split_value (n @ CHR ''='' # v) = (n, Some v)"
proof (cases n)
  case (Cons c cs)
  with assms have "\<forall>x\<in>set cs. x \<noteq> CHR ''=''" by auto
  then have "dropWhile (\<lambda>c. c \<noteq> CHR ''='') (cs @ CHR ''='' # v) = CHR ''='' # v"
    "takeWhile (\<lambda>c. c \<noteq> CHR ''='') (cs @ CHR ''='' # v) = cs"
    by (simp_all add: dropWhile_append2 takeWhile_append2)
  with Cons show ?thesis by (simp add: split_value_def)
qed (use assms in simp)

text \<open>One argument \<open>--name=value\<close> assigns the value, whatever bytes it has.\<close>

definition flag_arg :: "string \<Rightarrow> string \<Rightarrow> string" where
  "flag_arg n v = ''--'' @ n @ CHR ''='' # v"

lemma parse_flag_arg:
  assumes "CHR ''='' \<notin> set n" "n \<noteq> []" "hd n \<noteq> CHR ''-''"
  shows "parse_args foreign (flag_arg n v # rest) f =
    (case lookup_flag foreign n of
       None \<Rightarrow> if n = ''help'' \<or> n = ''h'' then Exits 0 else Exits 2
     | Some (BoolVar g) \<Rightarrow> (case ParseBool v of None \<Rightarrow> Exits 2 | Some b \<Rightarrow> parse_args foreign rest (g b f))
     | Some (StringVar g) \<Rightarrow> parse_args foreign rest (g v f))"
proof -
  obtain c cs where n: "n = c # cs" using assms(2) by (cases n) auto
  have s: "split_value (c # cs @ CHR ''='' # v) = (n, Some v)" using split_value_eq [OF assms(1,2)] n by simp
  show ?thesis using assms n s
    by (cases "lookup_flag foreign n") (auto simp: flag_arg_def split: flag_var.split option.split)
qed

definition show_bool :: "bool \<Rightarrow> string" where
  "show_bool b = (if b then ''true'' else ''false'')"

lemma ParseBool_show [simp]: "ParseBool (show_bool b) = Some b"
  by (simp add: ParseBool_def show_bool_def)

text \<open>The command line that asks for given values.\<close>

definition flag_args :: "Flags \<Rightarrow> string list" where
  "flag_args f =
     [flag_arg ''metrics-bind-address'' (MetricsAddr f), flag_arg ''health-probe-bind-address'' (ProbeAddr f),
      flag_arg ''leader-elect'' (show_bool (EnableLeaderElection f)),
      flag_arg ''metrics-secure'' (show_bool (SecureMetrics f)),
      flag_arg ''webhook-cert-path'' (WebhookCertPath f), flag_arg ''webhook-cert-name'' (WebhookCertName f),
      flag_arg ''webhook-cert-key'' (WebhookCertKey f), flag_arg ''metrics-cert-path'' (MetricsCertPath f),
      flag_arg ''metrics-cert-name'' (MetricsCertName f), flag_arg ''metrics-cert-key'' (MetricsCertKey f),
      flag_arg ''enable-http2'' (show_bool (EnableHTTP2 f))]"

text \<open>C35: every combination of the flags can be given on the command line: parsing the
  arguments \<open>--name=value\<close> written from any settings gives back exactly these settings,
  whatever flags libraries have registered besides.\<close>

theorem flags_round_trip: "parseFlags foreign (flag_args f) = Returns f"
  by (simp add: parseFlags_def flag_args_def parse_flag_arg lookup_flag_def registered_flags_def del: parse_args.simps(2))

end
