(* ===== verification/GoTime.thy ===== *)
theory GoTime imports GoErrors begin

text \<open>
  time.ParseDuration of the standard library, for the one environment variable that is a
  duration. The unsigned arithmetic is written out on natural numbers with its 64-bit
  wrap-around; the contribution of the digits after a decimal point is computed by Go in
  floating point and is an argument here.
\<close>

section \<open>Leading digits\<close>

definition digit_val :: "char \<Rightarrow> nat" where
  "digit_val c = of_char c - 48"

text \<open>A value that overflows 63 bits is an error; otherwise the value and the rest.\<close>

fun leadingInt :: "nat \<Rightarrow> string \<Rightarrow> (nat \<times> string) option" where
  "leadingInt x [] = Some (x, [])"
| "leadingInt x (c # cs) =
     (if \<not> is_digit c then Some (x, c # cs)
      else if 2 ^ 63 div 10 < x then None
      else if 2 ^ 63 < 10 * x + digit_val c then None
      else leadingInt (10 * x + digit_val c) cs)"

text \<open>Digits after the point that no longer fit are read over; the scale is a power of ten.\<close>

fun leadingFraction :: "nat \<Rightarrow> nat \<Rightarrow> bool \<Rightarrow> string \<Rightarrow> nat \<times> nat \<times> string" where
  "leadingFraction x scale overflow [] = (x, scale, [])"
| "leadingFraction x scale overflow (c # cs) =
     (if \<not> is_digit c then (x, scale, c # cs)
      else if overflow \<or> (2 ^ 63 - 1) div 10 < x \<or> 2 ^ 63 < 10 * x + digit_val c
      then leadingFraction x scale True cs
      else leadingFraction (10 * x + digit_val c) (10 * scale) False cs)"

lemma leadingInt_length: "leadingInt x s = Some (y, r) \<Longrightarrow> length r \<le> length s"
  by (induction x s rule: leadingInt.induct) (auto split: if_splits)

lemma leadingFraction_length: "leadingFraction x sc ov s = (y, sc', r) \<Longrightarrow> length r \<le> length s"
  by (induction x sc ov s arbitrary: y sc' r rule: leadingFraction.induct) (auto split: if_splits intro: le_SucI)

section \<open>Durations\<close>

definition time_unit :: "string \<Rightarrow> nat option" where
  "time_unit u =
     (if u = ''ns'' then Some 1
      else if u = ''us'' \<or> u = [CHR 0xC2, CHR 0xB5, CHR ''s''] \<or> u = [CHR 0xCE, CHR 0xBC, CHR ''s''] then Some 1000
      else if u = ''ms'' then Some 1000000
      else if u = ''s'' then Some 1000000000
      else if u = ''m'' then Some 60000000000
      else if u = ''h'' then Some 3600000000000
      else None)"

text \<open>The quoting of the package: bytes outside printable ASCII in hexadecimal.\<close>

definition time_quote :: "string \<Rightarrow> string" where
  "time_quote s = [CHR 0x22] @ concat (map (\<lambda>c.
     if (of_char c :: nat) < 32 \<or> 128 \<le> (of_char c :: nat) then CHR 0x5C # CHR ''x'' # hex_byte (of_char c)
     else if c = CHR 0x22 \<or> c = CHR 0x5C then [CHR 0x5C, c]
     else [c]) s) @ [CHR 0x22]"

definition invalid_duration :: "string \<Rightarrow> go_error" where
  "invalid_duration orig = Errorf (''time: invalid duration '' @ time_quote orig)"

definition unit_char :: "char \<Rightarrow> bool" where
  "unit_char c \<longleftrightarrow> \<not> (c = CHR ''.'' \<or> is_digit c)"

text \<open>
  One pair of a number and a unit: its nanoseconds and the rest. \<open>fraction f unit scale\<close> is the
  number of nanoseconds of \<open>f / scale\<close> units.
\<close>

definition parse_pair :: "(nat \<Rightarrow> nat \<Rightarrow> nat \<Rightarrow> nat) \<Rightarrow> string \<Rightarrow> string \<Rightarrow> (nat \<times> string) result" where
  "parse_pair fraction orig s =
     (if \<not> (hd s = CHR ''.'' \<or> is_digit (hd s)) then Inl (invalid_duration orig)
      else
        (case leadingInt 0 s of
           None \<Rightarrow> Inl (invalid_duration orig)
         | Some (v, s1) \<Rightarrow>
             (let dot = take 1 s1 = ''.''
              in case (if dot then leadingFraction 0 1 False (drop 1 s1) else (0, 1, s1)) of (f, scale, s2) \<Rightarrow>
             (let pre = length s1 \<noteq> length s;
                  post = dot \<and> length s2 \<noteq> length (drop 1 s1);
                  u = takeWhile unit_char s2; s3 = dropWhile unit_char s2
              in if \<not> pre \<and> \<not> post then Inl (invalid_duration orig)
                 else if u = [] then Inl (Errorf (''time: missing unit in duration '' @ time_quote orig))
                 else
                   (case time_unit u of
                      None \<Rightarrow> Inl (Errorf (''time: unknown unit '' @ time_quote u @ '' in duration '' @ time_quote orig))
                    | Some un \<Rightarrow>
                        if 2 ^ 63 div un < v then Inl (invalid_duration orig)
                        else
                          (let v2 = (if 0 < f then (v * un + fraction f un scale) mod 2 ^ 64 else v * un)
                           in if 0 < f \<and> 2 ^ 63 < v2 then Inl (invalid_duration orig)
                              else Inr (v2, s3)))))))"

lemma unit_shortens:
  assumes "takeWhile unit_char s \<noteq> []"
  shows "length (dropWhile unit_char s) < length s"
  using assms by (cases s) (auto simp: le_imp_less_Suc length_dropWhile_le split: if_splits)

lemma parse_pair_shortens:
  assumes "parse_pair fraction orig s = Inr (v, r)"
  shows "length r < length s"
proof -
  from assms obtain v1 s1 where l: "leadingInt 0 s = Some (v1, s1)"
    by (auto simp: parse_pair_def split: if_splits option.splits)
  define t where "t = (if take 1 s1 = ''.'' then leadingFraction 0 1 False (drop 1 s1) else (0, 1, s1))"
  obtain f scale s2 where t: "t = (f, scale, s2)" by (cases t)
  have s2: "length s2 \<le> length s1"
    using t leadingFraction_length [of 0 1 False "drop 1 s1" f scale s2] by (auto simp: t_def split: if_splits)
  from assms have "(case t of (f, scale, s2) \<Rightarrow>
      takeWhile unit_char s2 \<noteq> [] \<and> r = dropWhile unit_char s2)"
    unfolding parse_pair_def l option.case prod.case Let_def t_def [symmetric]
    unfolding t prod.case by (auto split: if_splits option.splits)
  then have "takeWhile unit_char s2 \<noteq> []" "r = dropWhile unit_char s2" by (simp_all add: t)
  then show ?thesis using unit_shortens [of s2] s2 leadingInt_length [OF l] by simp
qed

text \<open>The loop over the pairs, with the sum so far.\<close>

function parse_durations :: "(nat \<Rightarrow> nat \<Rightarrow> nat \<Rightarrow> nat) \<Rightarrow> string \<Rightarrow> nat \<Rightarrow> string \<Rightarrow> nat result" where
  "parse_durations fraction orig d s =
     (if s = [] then Inr d
      else
        (case parse_pair fraction orig s of
           Inl e \<Rightarrow> Inl e
         | Inr (v, rest) \<Rightarrow>
             (let d2 = (d + v) mod 2 ^ 64
              in if 2 ^ 63 < d2 then Inl (invalid_duration orig)
                 else parse_durations fraction orig d2 rest)))"
  by pat_completeness auto

termination parse_durations
  by (relation "measure (\<lambda>(_, _, _, s). length s)") (auto dest: parse_pair_shortens)

declare parse_durations.simps [simp del]

definition ParseDuration :: "(nat \<Rightarrow> nat \<Rightarrow> nat \<Rightarrow> nat) \<Rightarrow> string \<Rightarrow> int64 result" where
  "ParseDuration fraction orig =
     (let signed = take 1 orig = ''-'' \<or> take 1 orig = ''+'';
          neg = (take 1 orig = ''-'');
          s = (if signed then drop 1 orig else orig)
      in if s = ''0'' then Inr 0
         else if s = [] then Inl (invalid_duration orig)
         else
           (case parse_durations fraction orig 0 s of
              Inl e \<Rightarrow> Inl e
            | Inr d \<Rightarrow>
                if neg then Inr (- of_nat d)
                else if 2 ^ 63 - 1 < d then Inl (invalid_duration orig)
                else Inr (of_nat d)))"

section \<open>Facts\<close>

text \<open>A duration that was accepted without a sign is not negative.\<close>

lemma parse_durations_bound: "parse_durations fraction orig d s = Inr r \<Longrightarrow> d \<le> 2 ^ 63 \<Longrightarrow> r \<le> 2 ^ 63"
proof (induction fraction orig d s rule: parse_durations.induct)
  case (1 fraction orig d s)
  from "1.prems" show ?case
    by (subst (asm) parse_durations.simps)
      (auto simp: Let_def split: if_splits sum.splits prod.splits dest!: "1.IH")
qed

lemma ParseDuration_nonneg:
  assumes "ParseDuration fraction s = Inr d" "take 1 s \<noteq> ''-''"
  shows "0 \<le> sint d"
proof -
  have "0 \<le> sint (of_nat n :: int64)" if "\<not> 2 ^ 63 - 1 < n" for n
  proof -
    have "int n \<le> 2 ^ 63 - 1" using that by (simp add: not_less le_diff_iff')
    then have "sint (word_of_int (int n) :: int64) = int n"
      by (subst sint_sbintrunc') (simp add: signed_take_bit_int_eq_self)
    then have "sint (of_nat n :: int64) = int n" by simp
    then show ?thesis by simp
  qed
  with assms show ?thesis by (auto simp: ParseDuration_def Let_def split: if_splits sum.splits)
qed

end
