(* ===== verification/OperatorConfig.thy ===== *)
theory OperatorConfig imports OperatorFlags GoTime begin

text \<open>
  internal/config: config.go (the environment), controller.go (the options of the manager and
  its servers) and logger.go (the options of the logger). The environment of the process is
  a map from names to values; the package variable Stage is passed in and out. Options are
  records with the fields the code sets; the zero value of a field is what the code leaves.
  What the code writes to its own log is left out.
\<close>

section \<open>The environment (config.go)\<close>

type_synonym environment = "string \<rightharpoonup> string"

definition StageDevelopment :: string where "StageDevelopment = ''development''"
definition StageProduction :: string where "StageProduction = ''production''"
definition StageEnvVar :: string where "StageEnvVar = ''STAGE''"
definition namespaceEnvVar :: string where "namespaceEnvVar = ''NAMESPACE''"
definition logLevelEnvVar :: string where "logLevelEnvVar = ''LOG_LEVEL''"
definition casBaseURLEnvVar :: string where "casBaseURLEnvVar = ''CAS_BASE_URL''"
definition casUsernameEnvVar :: string where "casUsernameEnvVar = ''CAS_USERNAME''"
definition casPasswordEnvVar :: string where "casPasswordEnvVar = ''CAS_PASSWORD''"
definition casTimeoutEnvVar :: string where "casTimeoutEnvVar = ''CAS_TIMEOUT''"
definition defaultCASTimeout :: int64 where "defaultCASTimeout = 10 * 1000000000"

lemmas env_defs [go_consts] = StageDevelopment_def StageProduction_def StageEnvVar_def namespaceEnvVar_def
  logLevelEnvVar_def casBaseURLEnvVar_def casUsernameEnvVar_def casPasswordEnvVar_def casTimeoutEnvVar_def
  defaultCASTimeout_def

definition initial_stage :: string where "initial_stage = StageProduction"

definition IsStageDevelopment :: "string \<Rightarrow> bool" where
  "IsStageDevelopment stage \<longleftrightarrow> stage = StageDevelopment"

definition getEnvVar :: "environment \<Rightarrow> string \<Rightarrow> string result" where
  "getEnvVar env name =
     (case env name of
        None \<Rightarrow> Inl (Errorf (''environment variable '' @ name @ '' must be set''))
      | Some v \<Rightarrow> Inr v)"

definition getEnvDuration ::
    "(nat \<Rightarrow> nat \<Rightarrow> nat \<Rightarrow> nat) \<Rightarrow> environment \<Rightarrow> string \<Rightarrow> int64 \<Rightarrow> int64 result" where
  "getEnvDuration fraction env name defaultValue =
     (case env name of
        None \<Rightarrow> Inr defaultValue
      | Some v \<Rightarrow>
          if v = '''' then Inr defaultValue
          else
            (case ParseDuration fraction v of
               Inl err \<Rightarrow> Inl (Wrapf (''failed to parse env var ['' @ name @ ''] as duration: '') err)
             | Inr duration \<Rightarrow> Inr duration))"

definition GetLogLevel :: "environment \<Rightarrow> string result" where
  "GetLogLevel env =
     (case getEnvVar env logLevelEnvVar of
        Inl err \<Rightarrow> Inl (Wrapf (''failed to get env var ['' @ logLevelEnvVar @ '']: '') err)
      | Inr logLevel \<Rightarrow> Inr logLevel)"

definition GetNamespace :: "environment \<Rightarrow> string result" where
  "GetNamespace env =
     (case getEnvVar env namespaceEnvVar of
        Inl err \<Rightarrow> Inl (Wrapf (''failed to get env var ['' @ namespaceEnvVar @ '']: '') err)
      | Inr namespace \<Rightarrow> Inr namespace)"

text \<open>The new value of Stage.\<close>

definition configureStage :: "environment \<Rightarrow> string" where
  "configureStage env = (case getEnvVar env StageEnvVar of Inl err \<Rightarrow> StageProduction | Inr stage \<Rightarrow> stage)"

record CasConfig =
  cas_BaseURL :: string
  cas_Username :: string
  cas_Password :: string
  cas_Timeout :: int64

definition getCASConfig :: "(nat \<Rightarrow> nat \<Rightarrow> nat \<Rightarrow> nat) \<Rightarrow> environment \<Rightarrow> CasConfig result" where
  "getCASConfig fraction env =
     (case getEnvVar env casBaseURLEnvVar of
        Inl err \<Rightarrow> Inl err
      | Inr baseURL \<Rightarrow>
     (case getEnvVar env casUsernameEnvVar of
        Inl err \<Rightarrow> Inl err
      | Inr username \<Rightarrow>
     (case getEnvVar env casPasswordEnvVar of
        Inl err \<Rightarrow> Inl err
      | Inr password \<Rightarrow>
     (case getEnvDuration fraction env casTimeoutEnvVar defaultCASTimeout of
        Inl err \<Rightarrow> Inl err
      | Inr timeout \<Rightarrow>
          Inr \<lparr>cas_BaseURL = baseURL, cas_Username = username, cas_Password = password,
               cas_Timeout = timeout\<rparr>))))"

section \<open>The options of the manager (controller.go)\<close>

text \<open>A tls.Config: the protocols it offers, and everything the code does not touch.\<close>

record 'x tls_Config =
  NextProtos :: "string list"
  tls_rest :: 'x

type_synonym 'x tls_option = "'x tls_Config \<Rightarrow> 'x tls_Config"

record 'x webhookOptions =
  wo_TLSOpts :: "'x tls_option list"
  wo_CertDir :: string
  wo_CertName :: string
  wo_KeyName :: string

datatype filterProvider = WithAuthenticationAndAuthorization

record 'x metricsOptions =
  mo_BindAddress :: string
  mo_SecureServing :: bool
  mo_TLSOpts :: "'x tls_option list"
  mo_FilterProvider :: "filterProvider option"
  mo_CertDir :: string
  mo_CertName :: string
  mo_KeyName :: string

text \<open>ctrl.Options with the fields the code sets; \<open>'s\<close> is the scheme, \<open>'v\<close> a webhook server.\<close>

record ('s, 'v, 'x) ctrlOptions =
  co_Scheme :: 's
  co_Metrics :: "'x metricsOptions"
  co_WebhookServer :: 'v
  co_DefaultNamespaces :: "string list"
  co_HealthProbeBindAddress :: string
  co_LeaderElection :: bool
  co_LeaderElectionID :: string

definition disableHTTP2 :: "'x tls_option" where
  "disableHTTP2 c = c\<lparr>NextProtos := [''http/1.1'']\<rparr>"

definition createTLSOptions :: "Flags \<Rightarrow> 'x tls_option list" where
  "createTLSOptions flagsConfig = (if \<not> EnableHTTP2 flagsConfig then [disableHTTP2] else [])"

text \<open>The constructor of the server, webhook.NewServer, is an argument.\<close>

definition createWebhookServer :: "('x webhookOptions \<Rightarrow> 'v) \<Rightarrow> Flags \<Rightarrow> 'x tls_option list \<Rightarrow> 'v" where
  "createWebhookServer NewServer flagsConfig tlsOpts =
     (let o1 = \<lparr>wo_TLSOpts = tlsOpts, wo_CertDir = '''', wo_CertName = '''', wo_KeyName = ''''\<rparr>;
          o2 = (if WebhookCertPath flagsConfig \<noteq> ''''
                then o1\<lparr>wo_CertDir := WebhookCertPath flagsConfig, wo_CertName := WebhookCertName flagsConfig,
                        wo_KeyName := WebhookCertKey flagsConfig\<rparr>
                else o1)
      in NewServer o2)"

definition createMetricsServerOptions :: "Flags \<Rightarrow> 'x tls_option list \<Rightarrow> 'x metricsOptions" where
  "createMetricsServerOptions flagsConfig tlsOpts =
     (let o1 = \<lparr>mo_BindAddress = MetricsAddr flagsConfig, mo_SecureServing = SecureMetrics flagsConfig,
                mo_TLSOpts = tlsOpts, mo_FilterProvider = None, mo_CertDir = '''', mo_CertName = '''',
                mo_KeyName = ''''\<rparr>;
          o2 = (if SecureMetrics flagsConfig
                then o1\<lparr>mo_FilterProvider := Some WithAuthenticationAndAuthorization\<rparr> else o1)
      in if MetricsCertPath flagsConfig \<noteq> ''''
         then o2\<lparr>mo_CertDir := MetricsCertPath flagsConfig, mo_CertName := MetricsCertName flagsConfig,
                 mo_KeyName := MetricsCertKey flagsConfig\<rparr>
         else o2)"

definition controller_options ::
    "('x webhookOptions \<Rightarrow> 'v) \<Rightarrow> 's \<Rightarrow> string \<Rightarrow> Flags \<Rightarrow> ('s, 'v, 'x) ctrlOptions" where
  "controller_options NewServer scheme namespace flagsConfig =
     (let tlsOpts = createTLSOptions flagsConfig
      in \<lparr>co_Scheme = scheme, co_Metrics = createMetricsServerOptions flagsConfig tlsOpts,
          co_WebhookServer = createWebhookServer NewServer flagsConfig tlsOpts,
          co_DefaultNamespaces = [namespace], co_HealthProbeBindAddress = ProbeAddr flagsConfig,
          co_LeaderElection = EnableLeaderElection flagsConfig,
          co_LeaderElectionID = ''ec33e801.k8s.cloudogu.com''\<rparr>)"

definition getControllerOptions ::
    "('x webhookOptions \<Rightarrow> 'v) \<Rightarrow> string list \<Rightarrow> string list \<Rightarrow> 's \<Rightarrow> string \<Rightarrow>
     ('s, 'v, 'x) ctrlOptions outcome" where
  "getControllerOptions NewServer foreign args scheme namespace =
     (case parseFlags foreign args of
        Exits status \<Rightarrow> Exits status
      | Returns flagsConfig \<Rightarrow> Returns (controller_options NewServer scheme namespace flagsConfig))"

section \<open>The configuration of the operator (config.go)\<close>

record ('s, 'v, 'x) OperatorConfig =
  cfg_Namespace :: string
  cfg_CasConf :: CasConfig
  cfg_ControllerOptions :: "('s, 'v, 'x) ctrlOptions"

text \<open>The result, or the end of the process while the flags are parsed, and the new Stage.\<close>

definition NewOperatorConfig ::
    "('x webhookOptions \<Rightarrow> 'v) \<Rightarrow> (nat \<Rightarrow> nat \<Rightarrow> nat \<Rightarrow> nat) \<Rightarrow> string list \<Rightarrow> string list \<Rightarrow> environment \<Rightarrow> 's \<Rightarrow>
     ('s, 'v, 'x) OperatorConfig result outcome \<times> string" where
  "NewOperatorConfig NewServer fraction foreign args env scheme =
     (let stage = configureStage env
      in (case GetNamespace env of
            Inl err \<Rightarrow> (Returns (Inl (Wrapf ''failed to read namespace: '' err)), stage)
          | Inr namespace \<Rightarrow>
              (case getCASConfig fraction env of
                 Inl err \<Rightarrow> (Returns (Inl (Wrapf ''failed to read Cas config: '' err)), stage)
               | Inr casConfig \<Rightarrow>
                   (case getControllerOptions NewServer foreign args scheme namespace of
                      Exits status \<Rightarrow> (Exits status, stage)
                    | Returns ctrlOptions \<Rightarrow>
                        (Returns (Inr \<lparr>cfg_Namespace = namespace, cfg_CasConf = casConfig,
                                       cfg_ControllerOptions = ctrlOptions\<rparr>), stage)))))"

section \<open>The options of the logger (logger.go)\<close>

text \<open>The levels of the logging library and their parser are arguments.\<close>

record 'l zapOptions =
  zo_Development :: bool
  zo_Level :: 'l

definition getZapOptions :: "(string \<Rightarrow> 'l result) \<Rightarrow> 'l \<Rightarrow> environment \<Rightarrow> string \<Rightarrow> 'l zapOptions" where
  "getZapOptions ParseAtomicLevel InfoLevel env stage =
     (let logLevel =
        (case GetLogLevel env of
           Inl err \<Rightarrow> InfoLevel
         | Inr envLogLevel \<Rightarrow>
             (case ParseAtomicLevel envLogLevel of Inl err \<Rightarrow> InfoLevel | Inr level \<Rightarrow> level))
      in \<lparr>zo_Development = IsStageDevelopment stage, zo_Level = logLevel\<rparr>)"

end
