(* ===== verification/OperatorMain.thy ===== *)
theory OperatorMain imports OperatorConfig OperatorSystem begin

text \<open>
  cmd/main.go: the order in which the operator is put together, from the logger to the run of
  the manager. The libraries that are called (the manager of controller-runtime, the
  Kubernetes client, the configuration repository, the logger) are arguments; the final call
  startManagerWithGracefulShutdown is the step relation of theory Shutdown, and its result is
  an argument here.
\<close>

section \<open>What main uses\<close>

text \<open>
  \<open>'rc\<close> is the Kubernetes configuration, \<open>'m\<close> a manager, \<open>'k\<close> a client set; GetConfigOrDie
  ends the process with status 1 when there is none.
\<close>

record ('w, 's, 'v, 'x, 'rc, 'm, 'k, 'l) runtime =
  rt_SetLogger :: "'l zapOptions \<Rightarrow> 'w \<Rightarrow> 'w"
  rt_ParseAtomicLevel :: "string \<Rightarrow> 'l result"
  rt_InfoLevel :: 'l
  rt_NewServer :: "'x webhookOptions \<Rightarrow> 'v"
  rt_fraction :: "nat \<Rightarrow> nat \<Rightarrow> nat \<Rightarrow> nat"
  rt_foreignFlags :: "string list"
  rt_scheme :: 's
  rt_GetConfig :: "('w, 'rc option) io"
  rt_NewManager :: "'rc \<Rightarrow> ('s, 'v, 'x) ctrlOptions \<Rightarrow> ('w, 'm result) io"
  rt_NewForConfig :: "'m \<Rightarrow> ('w, 'k result) io"
  rt_NewGlobalConfigRepository :: "'k \<Rightarrow> string \<Rightarrow> 'w globalConfigRepo"
  rt_kube :: "'m \<Rightarrow> 'w kube"
  rt_manager :: "'m \<Rightarrow> 'w setupManager"
  rt_AddHealthzCheck :: "'m \<Rightarrow> string \<Rightarrow> ('w, go_error option) io"
  rt_AddReadyzCheck :: "'m \<Rightarrow> string \<Rightarrow> ('w, go_error option) io"
  rt_run :: "'m \<Rightarrow> ('w, go_error option) io"
  rt_net :: "'w netLib"
  rt_randomRead :: "nat \<Rightarrow> ('w, bytes result) io"

section \<open>startManager\<close>

text \<open>\<open>if err := step; err != nil { return fmt.Errorf(t, err) }\<close> before the rest.\<close>

definition or_fail :: "string \<Rightarrow> ('w, go_error option) io \<Rightarrow> ('w, go_error option) io \<Rightarrow> ('w, go_error option) io" where
  "or_fail t step rest w =
     (case step w of (Some err, w1) \<Rightarrow> (Some (Wrapf t err), w1) | (None, w1) \<Rightarrow> rest w1)"

lemma or_fail_success:
  "or_fail t step rest w = (None, w2) \<longleftrightarrow> (\<exists>w1. step w = (None, w1) \<and> rest w1 = (None, w2))"
  by (auto simp: or_fail_def split: prod.splits option.splits)

text \<open>From the controller on.\<close>

definition startController ::
    "('w, 's, 'v, 'x, 'rc, 'm, 'k, 'l) runtime \<Rightarrow> 'm \<Rightarrow> 'w CASServiceRegistrationBackend \<Rightarrow>
     ('w, go_error option) io" where
  "startController L mgr backend =
     or_fail ''failed to create controller: ''
       (SetupWithManager (NewAuthRegistrationController (rt_kube L mgr) (backend_interface backend)) (rt_manager L mgr))
     (or_fail ''failed to set up health check: '' (rt_AddHealthzCheck L mgr ''healthz'')
     (or_fail ''failed to set up ready check: '' (rt_AddReadyzCheck L mgr ''readyz'')
     (rt_run L mgr)))"

text \<open>The client and the backend of the configuration, in the order main builds them.\<close>

definition startClient ::
    "('w, 's, 'v, 'x, 'rc, 'm, 'k, 'l) runtime \<Rightarrow> ('s, 'v, 'x) OperatorConfig \<Rightarrow> 'm \<Rightarrow> 'k \<Rightarrow>
     ('w, go_error option) io" where
  "startClient L cfg mgr k8sClients w =
     (let globalConfigRepo = rt_NewGlobalConfigRepository L k8sClients (cfg_Namespace cfg)
      in (case NewClient (rt_net L)
                 \<lparr>cc_BaseURL = cas_BaseURL (cfg_CasConf cfg), cc_Username = cas_Username (cfg_CasConf cfg),
                  cc_Password = cas_Password (cfg_CasConf cfg), cc_Timeout = cas_Timeout (cfg_CasConf cfg)\<rparr> None of
            Inl err \<Rightarrow> (Some (Wrapf ''failed to create Cas client: '' err), w)
          | Inr casClient \<Rightarrow>
              (case NewCASServiceRegistrationBackend (rt_net L) (rt_randomRead L) globalConfigRepo
                      (Some (Client_apiClient (rt_net L) casClient)) of
                 Inl err \<Rightarrow> (Some (Wrapf ''failed to create Cas backend: '' err), w)
               | Inr backend \<Rightarrow> startController L mgr backend w)))"

definition startManager ::
    "('w, 's, 'v, 'x, 'rc, 'm, 'k, 'l) runtime \<Rightarrow> ('s, 'v, 'x) OperatorConfig \<Rightarrow>
     ('w, go_error option outcome) io" where
  "startManager L cfg w =
     (case rt_GetConfig L w of
        (None, w1) \<Rightarrow> (Exits 1, w1)
      | (Some rc, w1) \<Rightarrow>
          (case rt_NewManager L rc (cfg_ControllerOptions cfg) w1 of
             (Inl err, w2) \<Rightarrow> (Returns (Some (Wrapf ''failed to create manager: '' err)), w2)
           | (Inr mgr, w2) \<Rightarrow>
               (case rt_NewForConfig L mgr w2 of
                  (Inl err, w3) \<Rightarrow> (Returns (Some (Wrapf ''failed to create k8s client set: '' err)), w3)
                | (Inr k8sClients, w3) \<Rightarrow>
                    (case startClient L cfg mgr k8sClients w3 of (r, w4) \<Rightarrow> (Returns r, w4)))))"

section \<open>main\<close>

definition ConfigureLogger ::
    "('w, 's, 'v, 'x, 'rc, 'm, 'k, 'l) runtime \<Rightarrow> environment \<Rightarrow> string \<Rightarrow> 'w \<Rightarrow> 'w" where
  "ConfigureLogger L env stage =
     rt_SetLogger L (getZapOptions (rt_ParseAtomicLevel L) (rt_InfoLevel L) env stage)"

text \<open>
  The status with which the process ends, and the world it leaves. A return of main is
  status 0.
\<close>

definition operator_main ::
    "('w, 's, 'v, 'x, 'rc, 'm, 'k, 'l) runtime \<Rightarrow> string list \<Rightarrow> environment \<Rightarrow> ('w, nat) io" where
  "operator_main L args env w =
     (let w1 = ConfigureLogger L env initial_stage w
      in (case NewOperatorConfig (rt_NewServer L) (rt_fraction L) (rt_foreignFlags L) args env (rt_scheme L) of
            (Exits status, stage) \<Rightarrow> (status, w1)
          | (Returns (Inl err), stage) \<Rightarrow> (1, w1)
          | (Returns (Inr cfg), stage) \<Rightarrow>
              (case startManager L cfg w1 of
                 (Exits status, w2) \<Rightarrow> (status, w2)
               | (Returns (Some err), w2) \<Rightarrow> (1, w2)
               | (Returns None, w2) \<Rightarrow> (0, w2))))"

section \<open>Facts\<close>

lemma startManager_exit: "startManager L cfg w = (Exits n, w') \<Longrightarrow> n = 1"
  by (auto simp: startManager_def split: sum.splits prod.splits option.splits)

lemma startManager_success:
  assumes "startManager L cfg w = (Returns None, w')"
  shows "\<exists>mgr k w1. startClient L cfg mgr k w1 = (None, w')"
  using assms by (auto simp: startManager_def split: sum.splits prod.splits option.splits)

lemma NewOperatorConfig_success:
  assumes "NewOperatorConfig NewServer fraction foreign args env scheme = (Returns (Inr cfg), stage)"
  shows "GetNamespace env = Inr (cfg_Namespace cfg)" "getCASConfig fraction env = Inr (cfg_CasConf cfg)"
    "getControllerOptions NewServer foreign args scheme (cfg_Namespace cfg) = Returns (cfg_ControllerOptions cfg)"
  using assms by (auto simp: NewOperatorConfig_def Let_def split: sum.splits outcome.splits)

lemma NewOperatorConfig_exit:
  assumes "NewOperatorConfig NewServer fraction foreign args env scheme = (Exits n, stage)"
  shows "parseFlags foreign args = Exits n"
  using assms by (auto simp: NewOperatorConfig_def getControllerOptions_def Let_def split: sum.splits outcome.splits)

text \<open>Status 0 is a run of the manager that ended well, or a request for help.\<close>

lemma operator_main_zero:
  assumes "operator_main L args env w = (0, w')" "parseFlags (rt_foreignFlags L) args = Returns flags"
  shows "\<exists>cfg mgr k w1. getCASConfig (rt_fraction L) env = Inr (cfg_CasConf cfg) \<and>
    startClient L cfg mgr k w1 = (None, w')"
proof -
  obtain r stage where n: "NewOperatorConfig (rt_NewServer L) (rt_fraction L) (rt_foreignFlags L) args env
      (rt_scheme L) = (r, stage)" by fastforce
  from assms(1) n have "\<not> (\<exists>e. r = Returns (Inl e))" by (auto simp: operator_main_def Let_def)
  with n assms(2) NewOperatorConfig_exit obtain cfg where r: "r = Returns (Inr cfg)"
    by (metis outcome.distinct(1) outcome.exhaust sumE)
  obtain o' w2 where s: "startManager L cfg (ConfigureLogger L env initial_stage w) = (o', w2)" by fastforce
  with assms(1) n r startManager_exit [of L cfg] have "o' = Returns None" "w2 = w'"
    by (auto simp: operator_main_def Let_def split: outcome.splits option.splits)
  with s obtain mgr k w1 where "startClient L cfg mgr k w1 = (None, w')"
    using startManager_success [of L cfg _ w'] by blast
  with NewOperatorConfig_success(2) [OF n [unfolded r]] show ?thesis by blast
qed

end
