(* ===== verification/MainProperties.thy ===== *)
theory MainProperties imports OperatorMain MemCluster begin

text \<open>
  Properties of the configuration and of the start of the operator: what the environment must
  hold, which timeout and which server options follow, and that a started operator runs the
  very reconciler the other theories are about. The runtime \<open>mem_runtime\<close> is an instance of
  the arguments for the concrete runs.
\<close>

section \<open>A runtime in memory\<close>

definition mem_net :: "cluster netLib" where
  "mem_net =
     \<lparr>url_Parse = (\<lambda>s. Inr \<lparr>url_Path = ''/cas'', url_Text = s\<rparr>),
      url_ParseRequestURI = (\<lambda>s. Inr \<lparr>url_Path = ''/cas'', url_Text = s\<rparr>),
      http_Client = (\<lambda>t. \<lparr>hc_Timeout = t, hc_Do = (\<lambda>req w. (Inl not_found, w))\<rparr>)\<rparr>"

definition mem_manager :: "cluster setupManager" where
  "mem_manager = \<lparr>mg_IndexField = (\<lambda>f g w. (None, w)), mg_Complete = (\<lambda>b w. (None, w))\<rparr>"

definition mem_runtime :: "(cluster, unit, bool webhookOptions, bool, unit, unit, unit, nat) runtime" where
  "mem_runtime =
     \<lparr>rt_SetLogger = (\<lambda>o' w. w), rt_ParseAtomicLevel = (\<lambda>s. if s = ''debug'' then Inr 1 else Inl not_found),
      rt_InfoLevel = 0, rt_NewServer = (\<lambda>o'. o'), rt_fraction = (\<lambda>f u s. f * u div s),
      rt_foreignFlags = [''kubeconfig''], rt_scheme = (), rt_GetConfig = (\<lambda>w. (Some (), w)),
      rt_NewManager = (\<lambda>rc o' w. (Inr (), w)), rt_NewForConfig = (\<lambda>m w. (Inr (), w)),
      rt_NewGlobalConfigRepository = (\<lambda>k n. \<lparr>GetGlobalConfig = (\<lambda>w. (Inr (cl_config w), w))\<rparr>),
      rt_kube = (\<lambda>m. mem_kube), rt_manager = (\<lambda>m. mem_manager), rt_AddHealthzCheck = (\<lambda>m n w. (None, w)),
      rt_AddReadyzCheck = (\<lambda>m n w. (None, w)), rt_run = (\<lambda>m w. (None, w)), rt_net = mem_net,
      rt_randomRead = mem_random\<rparr>"

definition ex_env :: environment where
  "ex_env = [''NAMESPACE'' \<mapsto> ''ecosystem'', ''CAS_BASE_URL'' \<mapsto> ''https://cas/cas/'',
     ''CAS_USERNAME'' \<mapsto> ''user'', ''CAS_PASSWORD'' \<mapsto> ''pass'', ''CAS_TIMEOUT'' \<mapsto> ''15s'',
     ''STAGE'' \<mapsto> ''development'']"

lemma ex_duration: "ParseDuration fraction ''15s'' = Inr 15000000000"
  by (simp add: ParseDuration_def parse_durations.simps parse_pair_def is_digit_def digit_val_def
      time_unit_def unit_char_def Let_def)

section \<open>The environment\<close>

text \<open>C33: the operator gets a configuration exactly when NAMESPACE and the three CAS variables
  are set, CAS_TIMEOUT is unset, empty or a duration, and the command line parses; its fields are
  the values of the variables, the timeout 10 seconds when none is given, and the cache is
  limited to the namespace of the operator.\<close>

theorem configuration_exact:
  "fst (NewOperatorConfig NewServer fraction foreign args env scheme) = Returns (Inr cfg) \<longleftrightarrow>
     (\<exists>flags timeout.
        env ''NAMESPACE'' = Some (cfg_Namespace cfg) \<and>
        env ''CAS_BASE_URL'' = Some (cas_BaseURL (cfg_CasConf cfg)) \<and>
        env ''CAS_USERNAME'' = Some (cas_Username (cfg_CasConf cfg)) \<and>
        env ''CAS_PASSWORD'' = Some (cas_Password (cfg_CasConf cfg)) \<and>
        timeout = (case env ''CAS_TIMEOUT'' of Some v \<Rightarrow> if v = [] then Inr 10000000000 else ParseDuration fraction v
                   | None \<Rightarrow> Inr 10000000000) \<and>
        timeout = Inr (cas_Timeout (cfg_CasConf cfg)) \<and>
        parseFlags foreign args = Returns flags \<and>
        cfg_ControllerOptions cfg = controller_options NewServer scheme (cfg_Namespace cfg) flags)"
proof -
  have n: "GetNamespace env = Inr v \<longleftrightarrow> env ''NAMESPACE'' = Some v" for v
    by (auto simp: GetNamespace_def getEnvVar_def go_consts split: option.splits)
  have d: "getEnvDuration fraction env casTimeoutEnvVar defaultCASTimeout = Inr t \<longleftrightarrow>
      (case env ''CAS_TIMEOUT'' of Some v \<Rightarrow> if v = [] then Inr 10000000000 else ParseDuration fraction v
       | None \<Rightarrow> Inr 10000000000) = Inr t" for t
    by (auto simp: getEnvDuration_def go_consts split: option.splits sum.splits)
  have c: "getCASConfig fraction env = Inr c \<longleftrightarrow>
      env ''CAS_BASE_URL'' = Some (cas_BaseURL c) \<and> env ''CAS_USERNAME'' = Some (cas_Username c) \<and>
      env ''CAS_PASSWORD'' = Some (cas_Password c) \<and>
      getEnvDuration fraction env casTimeoutEnvVar defaultCASTimeout = Inr (cas_Timeout c)" for c
    by (cases c) (auto simp: getCASConfig_def getEnvVar_def casBaseURLEnvVar_def casUsernameEnvVar_def
        casPasswordEnvVar_def split: option.splits sum.splits)
  have "fst (NewOperatorConfig NewServer fraction foreign args env scheme) = Returns (Inr cfg) \<longleftrightarrow>
     GetNamespace env = Inr (cfg_Namespace cfg) \<and> getCASConfig fraction env = Inr (cfg_CasConf cfg) \<and>
     getControllerOptions NewServer foreign args scheme (cfg_Namespace cfg) = Returns (cfg_ControllerOptions cfg)"
    by (cases cfg) (auto simp: NewOperatorConfig_def Let_def split: sum.splits outcome.splits)
  then show ?thesis unfolding n c d
    by (auto simp: getControllerOptions_def split: outcome.splits)
qed

lemma ex_configured:
  "\<exists>cfg. fst (NewOperatorConfig (rt_NewServer mem_runtime) fraction [''kubeconfig''] [''--leader-elect''] ex_env ()) = Returns (Inr cfg) \<and>
     cas_Timeout (cfg_CasConf cfg) = 15000000000"
  by (simp add: NewOperatorConfig_def Let_def GetNamespace_def getCASConfig_def getEnvVar_def getEnvDuration_def
      go_consts ex_env_def ex_duration getControllerOptions_def parseFlags_def lookup_flag_def
      registered_flags_def split_value_def ParseBool_def)

section \<open>The timeout\<close>

text \<open>C34: whatever CAS_TIMEOUT says, negative or zero durations included, the HTTP client that is
  built from the configuration has a positive timeout; without the variable it is 10 seconds.\<close>

theorem client_timeout_positive:
  assumes "\<And>t. hc_Timeout (http_Client N t) = t"
    and "getCASConfig fraction env = Inr cas"
    and "NewClient N \<lparr>cc_BaseURL = cas_BaseURL cas, cc_Username = cas_Username cas,
           cc_Password = cas_Password cas, cc_Timeout = cas_Timeout cas\<rparr> None = Inr c"
  shows "0 < sint (hc_Timeout (cl_httpClient c)) \<and>
    (env ''CAS_TIMEOUT'' = None \<longrightarrow> hc_Timeout (cl_httpClient c) = 10 * 1000000000)"
proof -
  have "cas_Timeout cas = 10 * 1000000000" if "env ''CAS_TIMEOUT'' = None"
    using assms(2) that by (auto simp: getCASConfig_def getEnvDuration_def go_consts split: sum.splits)
  moreover have "hc_Timeout (cl_httpClient c) =
      (if sint (cas_Timeout cas) \<le> 0 then defaultClientTimeout else cas_Timeout cas)"
    using assms(1,3) by (auto simp: NewClient_def Let_def split: if_splits sum.splits)
  ultimately show ?thesis by (auto simp: defaultClientTimeout_def)
qed

definition ex_cas :: CasConfig where
  "ex_cas = \<lparr>cas_BaseURL = ''https://cas/cas/'', cas_Username = ''user'', cas_Password = ''pass'',
     cas_Timeout = 15000000000\<rparr>"

lemma ex_getCASConfig: "getCASConfig fraction ex_env = Inr ex_cas"
  by (simp add: getCASConfig_def getEnvVar_def getEnvDuration_def go_consts ex_env_def ex_cas_def ex_duration)

lemma ex_text [simp]:
  "TrimSpace ''https://cas/cas/'' = ''https://cas/cas/''" "TrimSpace ''user'' = ''user''"
  "TrimSpace ''pass'' = ''pass''" "TrimRight CHR ''/'' ''https://cas/cas/'' = ''https://cas/cas''"
  by (simp_all add: TrimSpace_visible visible_def TrimRight_def)

definition ex_client :: "cluster Client" where
  "ex_client =
     \<lparr>cl_cfg = \<lparr>cc_BaseURL = ''https://cas/cas'', cc_Username = ''user'', cc_Password = ''pass'',
        cc_Timeout = 15000000000\<rparr>,
      cl_httpClient = http_Client mem_net 15000000000\<rparr>"

lemma ex_NewClient:
  "NewClient mem_net \<lparr>cc_BaseURL = cas_BaseURL ex_cas, cc_Username = cas_Username ex_cas,
     cc_Password = cas_Password ex_cas, cc_Timeout = cas_Timeout ex_cas\<rparr> None = Inr ex_client"
  by (simp add: NewClient_def ex_cas_def ex_client_def mem_net_def)

lemma client_timeout_positive_witness: "0 < sint (hc_Timeout (cl_httpClient ex_client))"
  using client_timeout_positive [OF _ ex_getCASConfig ex_NewClient] by (simp add: mem_net_def)

section \<open>The servers\<close>

text \<open>C36: the TLS options of the metrics and of the webhook server are the same, and applied to
  any configuration they restrict it to HTTP/1.1 exactly unless --enable-http2 was given, and
  change nothing else; and the metrics endpoint has the authentication and authorization filter
  exactly when it is served securely.\<close>

theorem servers_protected:
  assumes "parseFlags foreign args = Returns flags"
    and "getControllerOptions NewServer foreign args scheme namespace = Returns opts"
  shows "(\<exists>o'. co_WebhookServer opts = NewServer o' \<and> wo_TLSOpts o' = mo_TLSOpts (co_Metrics opts)) \<and>
    fold (\<lambda>f c. f c) (mo_TLSOpts (co_Metrics opts)) c =
      (if EnableHTTP2 flags then c else c\<lparr>NextProtos := [''http/1.1'']\<rparr>) \<and>
    (mo_FilterProvider (co_Metrics opts) = Some WithAuthenticationAndAuthorization \<longleftrightarrow>
       mo_SecureServing (co_Metrics opts)) \<and>
    mo_SecureServing (co_Metrics opts) = SecureMetrics flags"
proof -
  have o': "opts = controller_options NewServer scheme namespace flags"
    using assms by (simp add: getControllerOptions_def)
  show ?thesis unfolding o'
    by (cases "SecureMetrics flags"; cases "EnableHTTP2 flags")
      (auto simp: controller_options_def createTLSOptions_def createWebhookServer_def
        createMetricsServerOptions_def disableHTTP2_def Let_def)
qed

lemma servers_protected_witness:
  "\<exists>opts :: (unit, nat webhookOptions, nat) ctrlOptions.
     getControllerOptions (\<lambda>o'. o') [] [] () ''ecosystem'' = Returns opts \<and> mo_SecureServing (co_Metrics opts) \<and>
     mo_FilterProvider (co_Metrics opts) = Some WithAuthenticationAndAuthorization"
proof -
  let ?o = "controller_options (\<lambda>o'. o') () ''ecosystem'' default_flags :: (unit, nat webhookOptions, nat) ctrlOptions"
  have p: "parseFlags [] [] = Returns default_flags" by (simp add: parseFlags_def)
  have g: "getControllerOptions (\<lambda>o'. o') [] [] () ''ecosystem'' = Returns ?o"
    by (simp add: getControllerOptions_def p)
  from servers_protected [OF p g] g show ?thesis by (auto simp: default_flags_def)
qed

section \<open>The start\<close>

text \<open>C32: when the process ends with status 0 although the command line did not ask for help, the
  whole start went through: the client was built from the environment, the controller that was set
  up with the manager is the operator's controller over the CAS backend with that client and the
  path of its base URL, and the manager then ran to a clean end.\<close>

theorem clean_exit_means_served:
  assumes "operator_main L args env w = (0, w')" "parseFlags (rt_foreignFlags L) args = Returns flags"
  shows "\<exists>cas client casURL mgr repo w1 w2 w3.
    getCASConfig (rt_fraction L) env = Inr cas \<and>
    NewClient (rt_net L) \<lparr>cc_BaseURL = cas_BaseURL cas, cc_Username = cas_Username cas,
      cc_Password = cas_Password cas, cc_Timeout = cas_Timeout cas\<rparr> None = Inr client \<and>
    url_ParseRequestURI (rt_net L) (BaseURL client) = Inr casURL \<and>
    SetupWithManager (operator_controller (rt_kube L mgr)
       (cas_backend (Client_apiClient (rt_net L) client) (newServiceMapper repo (url_Path casURL)) (rt_randomRead L)))
      (rt_manager L mgr) w1 = (None, w2) \<and>
    rt_run L mgr w3 = (None, w')"
proof -
  let ?N = "rt_net L"
  from operator_main_zero [OF assms] obtain cfg mgr k w2
    where cfg: "getCASConfig (rt_fraction L) env = Inr (cfg_CasConf cfg)"
      and sc: "startClient L cfg mgr k w2 = (None, w')" by blast
  from sc obtain client b where c: "NewClient ?N \<lparr>cc_BaseURL = cas_BaseURL (cfg_CasConf cfg),
      cc_Username = cas_Username (cfg_CasConf cfg), cc_Password = cas_Password (cfg_CasConf cfg),
      cc_Timeout = cas_Timeout (cfg_CasConf cfg)\<rparr> None = Inr client"
    and b: "NewCASServiceRegistrationBackend ?N (rt_randomRead L)
      (rt_NewGlobalConfigRepository L k (cfg_Namespace cfg)) (Some (Client_apiClient ?N client)) = Inr b"
    and st: "startController L mgr b w2 = (None, w')"
    by (auto simp: startClient_def Let_def split: sum.splits)
  from b obtain u where u: "url_ParseRequestURI ?N (BaseURL client) = Inr u"
    and b': "b = cas_backend (Client_apiClient ?N client)
      (newServiceMapper (rt_NewGlobalConfigRepository L k (cfg_Namespace cfg)) (url_Path u)) (rt_randomRead L)"
    by (auto simp: NewCASServiceRegistrationBackend_def Client_apiClient_def cas_backend_def split: sum.splits)
  from st obtain w3 w4 where s: "SetupWithManager (operator_controller (rt_kube L mgr) b) (rt_manager L mgr) w2 = (None, w3)"
    and r: "rt_run L mgr w4 = (None, w')"
    by (auto simp: startController_def or_fail_success operator_controller_def)
  show ?thesis using cfg c u s r unfolding b' by blast
qed

lemma ex_start: "operator_main mem_runtime [] ex_env w = (0, w)"
proof -
  have n: "NewOperatorConfig (rt_NewServer mem_runtime) (rt_fraction mem_runtime) (rt_foreignFlags mem_runtime)
      [] ex_env (rt_scheme mem_runtime) =
      (Returns (Inr \<lparr>cfg_Namespace = ''ecosystem'', cfg_CasConf = ex_cas,
         cfg_ControllerOptions = controller_options (\<lambda>o'. o') () ''ecosystem'' default_flags\<rparr>), ''development'')"
  proof -
    have "GetNamespace ex_env = Inr ''ecosystem''" "configureStage ex_env = ''development''"
      by (simp_all add: GetNamespace_def getEnvVar_def configureStage_def ex_env_def go_consts)
    then show ?thesis
      by (simp add: NewOperatorConfig_def ex_getCASConfig getControllerOptions_def parseFlags_def mem_runtime_def)
  qed
  have "startClient mem_runtime \<lparr>cfg_Namespace = ''ecosystem'', cfg_CasConf = ex_cas,
      cfg_ControllerOptions = controller_options (\<lambda>o'. o') () ''ecosystem'' default_flags\<rparr> () () w = (None, w)" for w
    using ex_NewClient
    by (simp add: startClient_def mem_runtime_def mem_net_def mem_manager_def NewCASServiceRegistrationBackend_def
        startController_def or_fail_def SetupWithManager_def)
  then show ?thesis
    unfolding operator_main_def Let_def n
    by (simp add: startManager_def ConfigureLogger_def mem_runtime_def)
qed

lemma clean_exit_means_served_witness:
  "\<exists>cas client. getCASConfig (rt_fraction mem_runtime) ex_env = Inr cas \<and> cas = ex_cas \<and>
     NewClient mem_net \<lparr>cc_BaseURL = cas_BaseURL cas, cc_Username = cas_Username cas,
       cc_Password = cas_Password cas, cc_Timeout = cas_Timeout cas\<rparr> None = Inr client"
proof -
  have p: "parseFlags (rt_foreignFlags mem_runtime) [] = Returns default_flags" by (simp add: parseFlags_def)
  from clean_exit_means_served [OF ex_start [of "ex_cluster (ex_ar ''CAS'') Map.empty []"] p]
  show ?thesis using ex_getCASConfig by (auto simp: mem_runtime_def)
qed

section \<open>The logger\<close>

text \<open>C37: the development mode of the logger is never used: main configures the logger while Stage
  still has its initial value, so what happens does not depend on what the logger does with the
  Development option, not even when STAGE asks for development, to which Stage is set only then.\<close>

theorem logger_never_in_development:
  assumes "\<And>o'. \<not> zo_Development o' \<Longrightarrow> f o' = g o'"
  shows "operator_main (L\<lparr>rt_SetLogger := f\<rparr>) args env w = operator_main (L\<lparr>rt_SetLogger := g\<rparr>) args env w \<and>
    (env ''STAGE'' = Some ''development'' \<longrightarrow>
       IsStageDevelopment (snd (NewOperatorConfig NewServer fraction foreign args env scheme)))"
proof -
  have log: "ConfigureLogger (L\<lparr>rt_SetLogger := f\<rparr>) env initial_stage w = ConfigureLogger (L\<lparr>rt_SetLogger := g\<rparr>) env initial_stage w"
    using assms by (simp add: ConfigureLogger_def getZapOptions_def initial_stage_def IsStageDevelopment_def go_consts)
  have sm: "startManager (L\<lparr>rt_SetLogger := h\<rparr>) = startManager L" for h
    by (intro ext) (simp add: startManager_def startClient_def startController_def
        cong: option.case_cong sum.case_cong prod.case_cong)
  then have "operator_main (L\<lparr>rt_SetLogger := f\<rparr>) args env w = operator_main (L\<lparr>rt_SetLogger := g\<rparr>) args env w"
    unfolding operator_main_def log sm by simp
  then show ?thesis
    by (auto simp: NewOperatorConfig_def Let_def configureStage_def getEnvVar_def IsStageDevelopment_def go_consts
        split: sum.splits outcome.splits)
qed

lemma logger_never_in_development_witness:
  "operator_main (mem_runtime\<lparr>rt_SetLogger := \<lambda>o' w. if zo_Development o' then w\<lparr>cl_random := 7\<rparr> else w\<rparr>) [] ex_env
     (ex_cluster (ex_ar ''CAS'') Map.empty []) = (0, ex_cluster (ex_ar ''CAS'') Map.empty [])"
proof -
  let ?w = "ex_cluster (ex_ar ''CAS'') Map.empty []"
  have "mem_runtime\<lparr>rt_SetLogger := \<lambda>o' w. w\<rparr> = mem_runtime" by (simp add: mem_runtime_def)
  then have "operator_main (mem_runtime\<lparr>rt_SetLogger := \<lambda>o' w. w\<rparr>) [] ex_env ?w = (0, ?w)"
    using ex_start [of ?w] by metis
  moreover have "operator_main (mem_runtime\<lparr>rt_SetLogger := \<lambda>o' w. if zo_Development o' then w\<lparr>cl_random := 7\<rparr> else w\<rparr>) [] ex_env ?w =
      operator_main (mem_runtime\<lparr>rt_SetLogger := \<lambda>o' w. w\<rparr>) [] ex_env ?w"
    by (rule logger_never_in_development [THEN conjunct1]) simp
  ultimately show ?thesis by (rule trans [rotated])
qed

end
