(* ===== verification/Trace.thy ===== *)
theory Trace imports Controller begin

text \<open>
  The calls a reconciliation makes, in order. The API client and the backend are wrapped so
  that every call is logged with its outcome; a step relation over phases says which call may
  follow which. That the operator's code, run over the wrapped interfaces, only makes such
  calls, and otherwise does what it does over the plain ones, is proved part by part with a
  small logic of triples (phase, program, what holds of result and phase afterwards).
\<close>

section \<open>Events\<close>

text \<open>An answer that failed is \<open>None\<close>, or false where the call returns only an error.\<close>

datatype event =
    GotAR namespacedName "authRegistration option"
  | UpdatedAR authRegistration "authRegistration option"
  | PatchedAR authRegistration "authRegistration option"
  | ListedAR string string
  | GotSecret namespacedName "secret option"
  | CreatedSecret secret bool
  | UpdatedSecret secret bool
  | DeletedSecret secret bool
  | Upserted Registration RegistrationData "RegistrationResult option"
  | Deregistered Registration bool

type_synonym 'w logged = "'w \<times> event list"

fun answer :: "'a result \<Rightarrow> 'a option" where
  "answer (Inl e) = None"
| "answer (Inr x) = Some x"

definition logging :: "('a \<Rightarrow> event) \<Rightarrow> ('w, 'a) io \<Rightarrow> ('w logged, 'a) io" where
  "logging ev m s = (case s of (w, tr) \<Rightarrow> (case m w of (x, w1) \<Rightarrow> (x, (w1, tr @ [ev x]))))"

definition logged_kube :: "'w kube \<Rightarrow> 'w logged kube" where
  "logged_kube K =
     \<lparr>GetAuthRegistration = (\<lambda>k. logging (\<lambda>r. GotAR k (answer r)) (GetAuthRegistration K k)),
      UpdateAuthRegistration = (\<lambda>ar. logging (\<lambda>r. UpdatedAR ar (answer r)) (UpdateAuthRegistration K ar)),
      PatchAuthRegistrationStatus =
        (\<lambda>old new. logging (\<lambda>r. PatchedAR new (answer r)) (PatchAuthRegistrationStatus K old new)),
      ListAuthRegistrations = (\<lambda>ns field v. logging (\<lambda>r. ListedAR ns v) (ListAuthRegistrations K ns field v)),
      GetSecret = (\<lambda>k. logging (\<lambda>r. GotSecret k (answer r)) (GetSecret K k)),
      CreateSecret = (\<lambda>s. logging (\<lambda>r. CreatedSecret s (r = None)) (CreateSecret K s)),
      UpdateSecret = (\<lambda>s. logging (\<lambda>r. UpdatedSecret s (r = None)) (UpdateSecret K s)),
      DeleteSecret = (\<lambda>s. logging (\<lambda>r. DeletedSecret s (r = None)) (DeleteSecret K s)),
      IsNotFound = IsNotFound K,
      ContainsFinalizer = ContainsFinalizer K,
      AddFinalizer = AddFinalizer K,
      RemoveFinalizer = RemoveFinalizer K,
      SetControllerReference = SetControllerReference K,
      IsControlledBy = IsControlledBy K,
      SetStatusCondition = (\<lambda>cs c s. SetStatusCondition K cs c (fst s)),
      StatusDeepEqual = StatusDeepEqual K,
      SecretDeepEqual = SecretDeepEqual K,
      TimeIsZero = TimeIsZero K,
      TimeEqual = TimeEqual K\<rparr>"

definition logged_backend :: "'w serviceRegistrationBackend \<Rightarrow> 'w logged serviceRegistrationBackend" where
  "logged_backend B =
     \<lparr>sb_Upsert = (\<lambda>reg d. logging (\<lambda>r. Upserted reg d (answer r)) (sb_Upsert B reg d)),
      sb_Delete = (\<lambda>reg. logging (\<lambda>r. Deregistered reg (r = None)) (sb_Delete B reg))\<rparr>"

lemma logged_kube_pure [simp]:
  "IsNotFound (logged_kube K) = IsNotFound K"
  "ContainsFinalizer (logged_kube K) = ContainsFinalizer K"
  "AddFinalizer (logged_kube K) = AddFinalizer K"
  "RemoveFinalizer (logged_kube K) = RemoveFinalizer K"
  "SetControllerReference (logged_kube K) = SetControllerReference K"
  "IsControlledBy (logged_kube K) = IsControlledBy K"
  "StatusDeepEqual (logged_kube K) = StatusDeepEqual K"
  "SecretDeepEqual (logged_kube K) = SecretDeepEqual K"
  "TimeIsZero (logged_kube K) = TimeIsZero K"
  "SetStatusCondition (logged_kube K) cs c s = SetStatusCondition K cs c (fst s)"
  by (simp_all add: logged_kube_def)

section \<open>Phases\<close>

text \<open>Two states of an object that agree in everything but the status.\<close>

definition but_status :: "authRegistration \<Rightarrow> authRegistration \<Rightarrow> bool" where
  "but_status a b \<longleftrightarrow> a = b\<lparr>ar_Status := ar_Status a\<rparr>"

lemma but_status_refl [simp, intro]: "but_status a a"
  by (simp add: but_status_def)

lemma but_status_update [simp]: "but_status (a\<lparr>ar_Status := s\<rparr>) a"
  by (simp add: but_status_def)

lemma but_status_trans: "but_status a b \<Longrightarrow> but_status b c \<Longrightarrow> but_status a c"
  unfolding but_status_def by (metis (no_types, lifting) authRegistration.surjective authRegistration.update_convs(7))

text \<open>
  The phases of one reconciliation; the object is the one the operator holds, the string the
  name of the secret in use.
\<close>

datatype phase =
    Idle
  | Unguarded authRegistration
  | Guarded authRegistration string
  | Informed authRegistration string
  | Registered authRegistration string RegistrationResult
  | Checked authRegistration string RegistrationResult
  | Published authRegistration string RegistrationResult
  | Cleaning authRegistration string RegistrationResult secret
  | Failed
  | Leaving authRegistration
  | Left authRegistration
  | Over

abbreviation finalizer :: string where "finalizer \<equiv> authRegistrationFinalizer"

definition guarded_phase :: "authRegistration \<Rightarrow> phase" where
  "guarded_phase ar = (case resolveSecretName ar of Inl _ \<Rightarrow> Failed | Inr (n, _) \<Rightarrow> Guarded ar n)"

definition loaded_phase :: "'w kube \<Rightarrow> authRegistration \<Rightarrow> phase" where
  "loaded_phase K ar =
     (if \<not> TimeIsZero K (ar_DeletionTimestamp ar) then
        (if ContainsFinalizer K ar finalizer then Leaving ar else Over)
      else if fst (AddFinalizer K ar finalizer) then Unguarded (snd (AddFinalizer K ar finalizer))
      else guarded_phase (snd (AddFinalizer K ar finalizer)))"

text \<open>
  The call and the phase it leads to. A patch that fails ends in \<open>Failed\<close>, where only further
  status patches follow.
\<close>

inductive step :: "'w kube \<Rightarrow> phase \<Rightarrow> event \<Rightarrow> phase \<Rightarrow> bool" for K where
  load: "step K Idle (GotAR k (Some ar)) (loaded_phase K ar)"
| load_fail: "step K Idle (GotAR k None) Over"
| guard: "step K (Unguarded ar) (UpdatedAR ar (Some ar')) (guarded_phase ar')"
| guard_fail: "step K (Unguarded ar) (UpdatedAR ar None) Over"
| inform: "step K (Guarded ar n) (GotSecret (secret_key ar n) r) (Informed ar n)"
| register: "step K (Informed ar n) (Upserted (FromAuthRegistration ar) d (Some rr)) (Registered ar n rr)"
| register_fail: "step K (Informed ar n) (Upserted (FromAuthRegistration ar) d None) Failed"
| refer: "but_status new ar \<Longrightarrow> step K (Registered ar n rr) (PatchedAR new (Some ar')) (Registered ar' n rr)"
| refer_fail: "but_status new ar \<Longrightarrow> step K (Registered ar n rr) (PatchedAR new None) Failed"
| check: "but_status a ar \<Longrightarrow> step K (Registered ar n rr) (GotSecret (secret_key a n) r) (Checked ar n rr)"
| create: "step K (Checked ar n rr) (CreatedSecret s ok) (if ok then Published ar n rr else Failed)"
| update: "step K (Checked ar n rr) (UpdatedSecret s ok) (if ok then Published ar n rr else Failed)"
| previous: "p \<in> {Checked ar n rr, Published ar n rr} \<Longrightarrow> but_status a ar \<Longrightarrow> m \<noteq> n \<Longrightarrow> m \<noteq> [] \<Longrightarrow>
    step K p (GotSecret (secret_key a m) (Some s)) (Cleaning ar n rr s)"
| no_previous: "p \<in> {Checked ar n rr, Published ar n rr} \<Longrightarrow>
    step K p (GotSecret k None) (Published ar n rr)"
| clean: "but_status a ar \<Longrightarrow> IsControlledBy K s a \<Longrightarrow>
    step K (Cleaning ar n rr s) (DeletedSecret s ok) (Published ar n rr)"
| condition: "p \<in> {Checked ar n rr, Published ar n rr, Cleaning ar n rr s} \<Longrightarrow> but_status new ar \<Longrightarrow>
    step K p (PatchedAR new (Some ar')) (Published ar' n rr)"
| condition_fail: "p \<in> {Checked ar n rr, Published ar n rr, Cleaning ar n rr s} \<Longrightarrow> but_status new ar \<Longrightarrow>
    step K p (PatchedAR new None) Failed"
| report: "step K Failed (PatchedAR new r) Failed"
| secret_fail: "step K (Checked ar n rr) (PatchedAR new r) Failed"
| leave: "step K (Leaving ar) (Deregistered (FromAuthRegistration ar) True) (Left ar)"
| leave_fail: "step K (Leaving ar) (Deregistered (FromAuthRegistration ar) False) Over"
| release: "step K (Left ar) (UpdatedAR (snd (RemoveFinalizer K ar finalizer)) r) Over"

inductive steps :: "'w kube \<Rightarrow> phase \<Rightarrow> event list \<Rightarrow> phase \<Rightarrow> bool" for K where
  steps_nil: "steps K p [] p"
| steps_cons: "step K p e q \<Longrightarrow> steps K q es r \<Longrightarrow> steps K p (e # es) r"

lemma steps_append: "steps K p es q \<Longrightarrow> steps K q fs r \<Longrightarrow> steps K p (es @ fs) r"
  by (induction rule: steps.induct) (auto intro: steps.intros)

lemma steps_one: "step K p e q \<Longrightarrow> steps K p [e] q"
  by (auto intro: steps.intros)

inductive_cases steps_nilE: "steps K p [] q"
inductive_cases steps_consE: "steps K p (e # es) q"

lemma steps_snoc:
  "steps K p (es @ [e]) r \<longleftrightarrow> (\<exists>q. steps K p es q \<and> step K q e r)"
proof (induction es arbitrary: p)
  case Nil
  then show ?case by (auto intro: steps.intros elim!: steps_consE elim: steps_nilE)
next
  case (Cons a es)
  show ?case
  proof
    assume "steps K p ((a # es) @ [e]) r"
    then obtain p1 where "step K p a p1" "steps K p1 (es @ [e]) r" by (auto elim: steps_consE)
    then show "\<exists>q. steps K p (a # es) q \<and> step K q e r" using Cons.IH by (blast intro: steps_cons)
  next
    assume "\<exists>q. steps K p (a # es) q \<and> step K q e r"
    then obtain q p1 where "step K p a p1" "steps K p1 es q" "step K q e r" by (auto elim: steps_consE)
    then have "steps K p1 (es @ [e]) r" using Cons.IH by blast
    with \<open>step K p a p1\<close> show "steps K p ((a # es) @ [e]) r" by (simp add: steps_cons)
  qed
qed

section \<open>Triples\<close>

text \<open>
  The logged program \<open>m\<close>, from phase \<open>p\<close>: it does what the plain program \<open>m0\<close> does, and what
  it logs are steps to a phase that fits its result.
\<close>

definition triple ::
    "'w kube \<Rightarrow> phase \<Rightarrow> ('w logged, 'a) io \<Rightarrow> ('w, 'a) io \<Rightarrow> ('a \<Rightarrow> phase \<Rightarrow> bool) \<Rightarrow> bool" where
  "triple K p m m0 Q \<longleftrightarrow>
     (\<forall>w tr. \<exists>x w' evs p'. m (w, tr) = (x, (w', tr @ evs)) \<and> m0 w = (x, w') \<and> steps K p evs p' \<and> Q x p')"

lemma triple_return: "Q x p \<Longrightarrow> triple K p (\<lambda>s. (x, s)) (\<lambda>w. (x, w)) Q"
  unfolding triple_def by (auto intro: steps_nil)

lemma triple_bind:
  assumes "triple K p m m0 R" "\<And>x p'. R x p' \<Longrightarrow> triple K p' (g x) (g0 x) Q"
  shows "triple K p (\<lambda>s. case m s of (x, s1) \<Rightarrow> g x s1) (\<lambda>w. case m0 w of (x, w1) \<Rightarrow> g0 x w1) Q"
  unfolding triple_def
proof (intro allI)
  fix w tr
  from assms(1) obtain x w1 evs p1 where 1: "m (w, tr) = (x, (w1, tr @ evs))" "m0 w = (x, w1)"
      "steps K p evs p1" "R x p1"
    unfolding triple_def by metis
  from assms(2) [OF 1(4)] obtain y w2 evs2 p2 where 2: "g x (w1, tr @ evs) = (y, (w2, (tr @ evs) @ evs2))"
      "g0 x w1 = (y, w2)" "steps K p1 evs2 p2" "Q y p2"
    unfolding triple_def by metis
  from 1 2 show "\<exists>x w' evs p'. (case m (w, tr) of (x, s1) \<Rightarrow> g x s1) = (x, w', tr @ evs) \<and>
      (case m0 w of (x, w1) \<Rightarrow> g0 x w1) = (x, w') \<and> steps K p evs p' \<and> Q x p'"
    by (intro exI [of _ y] exI [of _ w2] exI [of _ "evs @ evs2"] exI [of _ p2]) (simp add: steps_append)
qed

lemma triple_conseq: "triple K p m m0 R \<Longrightarrow> (\<And>x p'. R x p' \<Longrightarrow> Q x p') \<Longrightarrow> triple K p m m0 Q"
  unfolding triple_def by metis

lemma triple_log:
  assumes "\<And>x. step K p (ev x) (q x)" "\<And>x. Q x (q x)"
  shows "triple K p (logging ev m) m Q"
  unfolding triple_def logging_def
  using assms by (auto split: prod.splits intro!: steps_one)

lemma triple_case_sum:
  assumes "\<And>e. x = Inl e \<Longrightarrow> triple K p (f e) (f0 e) Q" "\<And>y. x = Inr y \<Longrightarrow> triple K p (g y) (g0 y) Q"
  shows "triple K p (\<lambda>s. case x of Inl e \<Rightarrow> f e s | Inr y \<Rightarrow> g y s)
           (\<lambda>w. case x of Inl e \<Rightarrow> f0 e w | Inr y \<Rightarrow> g0 y w) Q"
  using assms by (cases x) auto

lemma triple_case_option:
  assumes "x = None \<Longrightarrow> triple K p f f0 Q" "\<And>y. x = Some y \<Longrightarrow> triple K p (g y) (g0 y) Q"
  shows "triple K p (\<lambda>s. case x of None \<Rightarrow> f s | Some y \<Rightarrow> g y s)
           (\<lambda>w. case x of None \<Rightarrow> f0 w | Some y \<Rightarrow> g0 y w) Q"
  using assms by (cases x) auto

lemma triple_case_prod:
  assumes "\<And>a b. x = (a, b) \<Longrightarrow> triple K p (f a b) (f0 a b) Q"
  shows "triple K p (\<lambda>s. case x of (a, b) \<Rightarrow> f a b s) (\<lambda>w. case x of (a, b) \<Rightarrow> f0 a b w) Q"
  using assms by (cases x) auto

lemma triple_if:
  assumes "c \<Longrightarrow> triple K p f f0 Q" "\<not> c \<Longrightarrow> triple K p g g0 Q"
  shows "triple K p (\<lambda>s. if c then f s else g s) (\<lambda>w. if c then f0 w else g0 w) Q"
  using assms by (cases c) simp_all

lemmas triple_cases = triple_case_sum triple_case_option triple_case_prod triple_if

section \<open>The status patcher\<close>

lemma triple_patchStatus:
  assumes step: "\<And>new. but_status new ar \<Longrightarrow> step K p (PatchedAR new None) q"
      "\<And>new ar'. but_status new ar \<Longrightarrow> step K p (PatchedAR new (Some ar')) (q' ar')"
    and Q: "\<And>e new. but_status new ar \<Longrightarrow> Q (Some e, new) q" "\<And>ar'. Q (None, ar') (q' ar')"
      "\<And>new. but_status new ar \<Longrightarrow> Q (None, new) p"
    and mutate: "\<And>w tr. mutate (w, tr) = mutate0 w"
  shows "triple K p (patchStatus (logged_kube K) ar mutate) (patchStatus K ar mutate0) Q"
  unfolding triple_def
proof (intro allI)
  fix w tr
  let ?new = "ar\<lparr>ar_Status := mutate0 w (ar_Status ar)\<rparr>"
  show "\<exists>x w' evs p'. patchStatus (logged_kube K) ar mutate (w, tr) = (x, w', tr @ evs) \<and>
      patchStatus K ar mutate0 w = (x, w') \<and> steps K p evs p' \<and> Q x p'"
  proof (cases "StatusDeepEqual K (ar_Status ar) (mutate0 w (ar_Status ar))")
    case True
    then show ?thesis
      by (intro exI [of _ "(None, ?new)"] exI [of _ w] exI [of _ "[]"] exI [of _ p])
        (simp add: patchStatus_def Let_def mutate Q steps_nil)
  next
    case False
    obtain r w1 where r: "PatchAuthRegistrationStatus K ar ?new w = (r, w1)"
      by (cases "PatchAuthRegistrationStatus K ar ?new w")
    have l: "PatchAuthRegistrationStatus (logged_kube K) ar ?new (w, tr) =
        (r, (w1, tr @ [PatchedAR ?new (answer r)]))"
      using r by (simp add: logged_kube_def logging_def)
    show ?thesis
    proof (cases r)
      case (Inl e)
      with False r l show ?thesis
        by (intro exI [of _ "(Some e, ?new)"] exI [of _ w1] exI [of _ "[PatchedAR ?new None]"] exI [of _ q])
          (simp add: patchStatus_def Let_def mutate Q step steps_one)
    next
      case (Inr ar')
      with False r l show ?thesis
        by (intro exI [of _ "(None, ar')"] exI [of _ w1] exI [of _ "[PatchedAR ?new (Some ar')]"] exI [of _ "q' ar'"])
          (simp add: patchStatus_def Let_def mutate Q step steps_one)
    qed
  qed
qed

lemma triple_patchCondition:
  assumes step: "\<And>new. but_status new ar \<Longrightarrow> step K p (PatchedAR new None) q"
      "\<And>new ar'. but_status new ar \<Longrightarrow> step K p (PatchedAR new (Some ar')) (q' ar')"
    and Q: "\<And>e new. but_status new ar \<Longrightarrow> Q (Some e, new) q" "\<And>ar'. Q (None, ar') (q' ar')"
      "\<And>new. but_status new ar \<Longrightarrow> Q (None, new) p"
    and ty: "co_Type c \<noteq> []"
  shows "triple K p (patchCondition (logged_kube K) ar c) (patchCondition K ar c) Q"
  using ty unfolding patchCondition_def [abs_def]
  by (auto intro!: triple_patchStatus [OF step Q])

text \<open>Reporting a failure: whatever the patches do, only patches follow.\<close>

definition reporting :: "phase \<Rightarrow> bool" where
  "reporting p \<longleftrightarrow> p = Failed \<or> (\<exists>ar n rr. p = Checked ar n rr)"

lemma reporting_step: "reporting p \<Longrightarrow> step K p (PatchedAR new r) Failed"
  by (auto simp: reporting_def intro: step.intros)

lemma reporting_Failed [simp]: "reporting Failed"
  by (simp add: reporting_def)

lemma triple_report:
  assumes "reporting p" "co_Type c \<noteq> []"
  shows "triple K p (patchCondition (logged_kube K) ar c) (patchCondition K ar c) (\<lambda>_. reporting)"
  using assms by (auto intro!: triple_patchCondition [where q' = "\<lambda>_. Failed" and q = Failed] reporting_step)

lemma triple_report_ref:
  assumes "reporting p"
  shows "triple K p (PatchResolvedSecretRef (logged_kube K) ar n) (PatchResolvedSecretRef K ar n) (\<lambda>_. reporting)"
  using assms unfolding PatchResolvedSecretRef_def
  by (auto intro!: triple_patchStatus [where q' = "\<lambda>_. Failed" and q = Failed] reporting_step)

lemma new_condition_Type [simp]: "co_Type (new_condition ty st r m) = ty"
  by (simp add: new_condition_def)

lemma triple_PatchInvalidSpec:
  "reporting p \<Longrightarrow> triple K p (PatchInvalidSpec (logged_kube K) ar e) (PatchInvalidSpec K ar e) (\<lambda>_. reporting)"
  unfolding PatchInvalidSpec_def [abs_def]
  by (rule triple_bind [OF triple_report_ref], assumption)
    (rule triple_cases triple_return triple_bind [OF triple_report] triple_report | simp)+

lemma triple_PatchSecretReconcileFailed:
  "reporting p \<Longrightarrow> triple K p (PatchSecretReconcileFailed (logged_kube K) ar n e)
     (PatchSecretReconcileFailed K ar n e) (\<lambda>_. reporting)"
  unfolding PatchSecretReconcileFailed_def [abs_def]
  by (rule triple_bind [OF triple_report])
    (simp | rule triple_cases triple_return triple_report)+

lemma triple_PatchRegistrationFailed:
  "reporting p \<Longrightarrow> triple K p (PatchRegistrationFailed (logged_kube K) ar e) (PatchRegistrationFailed K ar e)
     (\<lambda>_. reporting)"
  unfolding PatchRegistrationFailed_def by (rule triple_report) simp_all

text \<open>The patches on the way to success.\<close>

definition after_patch ::
    "(authRegistration \<Rightarrow> phase \<Rightarrow> bool) \<Rightarrow> go_error option \<times> authRegistration \<Rightarrow> phase \<Rightarrow> bool" where
  "after_patch at r p \<longleftrightarrow> (case r of (None, a) \<Rightarrow> at a p | (Some _, _) \<Rightarrow> True)"

definition at_registered :: "string \<Rightarrow> RegistrationResult \<Rightarrow> authRegistration \<Rightarrow> phase \<Rightarrow> bool" where
  "at_registered n rr a p \<longleftrightarrow> (\<exists>ar. p = Registered ar n rr \<and> but_status a ar)"

lemma triple_PatchResolvedSecretRef:
  "triple K (Registered ar n rr) (PatchResolvedSecretRef (logged_kube K) ar n) (PatchResolvedSecretRef K ar n)
     (after_patch (at_registered n rr))"
  unfolding PatchResolvedSecretRef_def
  by (rule triple_patchStatus [where q = Failed and q' = "\<lambda>a. Registered a n rr"])
    (auto simp: after_patch_def at_registered_def intro: step.intros)

definition at_published :: "string \<Rightarrow> RegistrationResult \<Rightarrow> authRegistration \<Rightarrow> phase \<Rightarrow> bool" where
  "at_published n rr a p \<longleftrightarrow>
     (\<exists>ar s. p \<in> {Checked ar n rr, Published ar n rr, Cleaning ar n rr s} \<and> but_status a ar)"

lemma at_published_Published [simp]: "but_status a ar \<Longrightarrow> at_published n rr a (Published ar n rr)"
  by (auto simp: at_published_def)

lemma but_status_both: "but_status a ar \<Longrightarrow> but_status b a \<Longrightarrow> but_status b ar"
  by (rule but_status_trans)

lemma triple_condition:
  assumes "at_published n rr a p" "co_Type c \<noteq> []"
  shows "triple K p (patchCondition (logged_kube K) a c) (patchCondition K a c) (after_patch (at_published n rr))"
proof -
  from assms(1) obtain ar s where p: "p \<in> {Checked ar n rr, Published ar n rr, Cleaning ar n rr s}" "but_status a ar"
    by (auto simp: at_published_def)
  show ?thesis
  proof (rule triple_patchCondition [where q = Failed and q' = "\<lambda>a. Published a n rr"])
    fix new assume new: "but_status new a"
    then have b: "but_status new ar" using p(2) by (rule but_status_trans)
    show "step K p (PatchedAR new None) Failed" using p(1) b by (rule condition_fail)
    show "step K p (PatchedAR new (Some ar')) (Published ar' n rr)" for ar' using p(1) b by (rule condition)
    show "after_patch (at_published n rr) (Some e, new) Failed" for e by (simp add: after_patch_def)
    show "after_patch (at_published n rr) (None, new) p"
      using p(1) b unfolding after_patch_def at_published_def by auto
  qed (simp_all add: after_patch_def assms(2))
qed

section \<open>The reconciler\<close>

lemma logged_calls:
  "GetAuthRegistration (logged_kube K) k = logging (\<lambda>r. GotAR k (answer r)) (GetAuthRegistration K k)"
  "UpdateAuthRegistration (logged_kube K) a = logging (\<lambda>r. UpdatedAR a (answer r)) (UpdateAuthRegistration K a)"
  "GetSecret (logged_kube K) k = logging (\<lambda>r. GotSecret k (answer r)) (GetSecret K k)"
  "CreateSecret (logged_kube K) s = logging (\<lambda>r. CreatedSecret s (r = None)) (CreateSecret K s)"
  "UpdateSecret (logged_kube K) s = logging (\<lambda>r. UpdatedSecret s (r = None)) (UpdateSecret K s)"
  "DeleteSecret (logged_kube K) s = logging (\<lambda>r. DeletedSecret s (r = None)) (DeleteSecret K s)"
  "sb_Upsert (logged_backend B) reg d = logging (\<lambda>r. Upserted reg d (answer r)) (sb_Upsert B reg d)"
  "sb_Delete (logged_backend B) reg = logging (\<lambda>r. Deregistered reg (r = None)) (sb_Delete B reg)"
  by (simp_all add: logged_kube_def logged_backend_def)

definition at_secret :: "string \<Rightarrow> RegistrationResult \<Rightarrow> authRegistration \<Rightarrow> phase \<Rightarrow> bool" where
  "at_secret n rr a p \<longleftrightarrow> (\<exists>ar. p \<in> {Checked ar n rr, Published ar n rr} \<and> but_status a ar)"

lemma at_secret_intros:
  "but_status a ar \<Longrightarrow> at_secret n rr a (Checked ar n rr)"
  "but_status a ar \<Longrightarrow> at_secret n rr a (Published ar n rr)"
  by (auto simp: at_secret_def)

lemma at_secret_published: "at_secret n rr a p \<Longrightarrow> at_published n rr a p"
  by (auto simp: at_secret_def at_published_def)

definition after_secret :: "string \<Rightarrow> RegistrationResult \<Rightarrow> authRegistration \<Rightarrow> go_error option \<Rightarrow> phase \<Rightarrow> bool" where
  "after_secret n rr a e p \<longleftrightarrow> (case e of None \<Rightarrow> at_secret n rr a p | Some _ \<Rightarrow> reporting p)"

lemma after_secret_simps [simp]:
  "after_secret n rr a None p \<longleftrightarrow> at_secret n rr a p"
  "after_secret n rr a (Some e) p \<longleftrightarrow> reporting p"
  by (simp_all add: after_secret_def)

lemma triple_write_secret:
  assumes "\<And>ok. step K (Checked ar n rr) (ev ok) (if ok then Published ar n rr else Failed)" "but_status a ar"
  shows "triple K (Checked ar n rr) (logging (\<lambda>r. ev (r = None)) m) m (after_secret n rr a)"
proof (rule triple_log)
  fix r :: "go_error option"
  show "step K (Checked ar n rr) (ev (r = None)) (if r = None then Published ar n rr else Failed)"
    by (rule assms(1))
  show "after_secret n rr a r (if r = None then Published ar n rr else Failed)"
    using assms(2) by (cases r) (simp_all add: at_secret_intros)
qed

lemma triple_ReconcileSecret:
  assumes "at_registered n rr a p"
  shows "triple K p (ReconcileSecret (logged_kube K) rr a n managed) (ReconcileSecret K rr a n managed)
     (after_secret n rr a)"
proof -
  from assms obtain ar where p: "p = Registered ar n rr" and a: "but_status a ar"
    by (auto simp: at_registered_def)
  have c: "at_secret n rr a (Checked ar n rr)" "reporting (Checked ar n rr)"
    using a by (auto simp: at_secret_def reporting_def)
  have "step K p (GotSecret (secret_key a n) r) (Checked ar n rr)" for r
    unfolding p using a by (rule check)
  then have get: "triple K p (GetSecret (logged_kube K) (secret_key a n)) (GetSecret K (secret_key a n))
      (\<lambda>_ q. q = Checked ar n rr)"
    unfolding logged_calls by (rule triple_log) simp
  show ?thesis
    unfolding ReconcileSecret_def [abs_def] Let_def secret_key_def [symmetric] logged_kube_pure
    by (rule triple_bind [OF get], hypsubst)
      (rule triple_cases triple_return | simp only: logged_calls, rule triple_write_secret [OF _ a], rule create update
        | simp add: c)+
qed

lemma triple_readRegistrationData:
  assumes "rc_Client r = logged_kube K" "rc_Client r0 = K"
  shows "triple K (Guarded ar n) (readRegistrationData r (ar_Namespace ar) n)
     (readRegistrationData r0 (ar_Namespace ar) n) (\<lambda>_ p. p = Informed ar n)"
proof -
  have "step K (Guarded ar n) (GotSecret (secret_key ar n) x) (Informed ar n)" for x by (rule inform)
  then have get: "triple K (Guarded ar n) (GetSecret (logged_kube K) (secret_key ar n)) (GetSecret K (secret_key ar n))
      (\<lambda>_ q. q = Informed ar n)"
    unfolding logged_calls by (rule triple_log) simp
  show ?thesis
    unfolding readRegistrationData_def [abs_def] secret_key_def [symmetric] assms logged_kube_pure
    by (rule triple_bind [OF get]) (simp | rule triple_cases triple_return)+
qed

lemma triple_cleanup:
  assumes "rc_Client r = logged_kube K" "rc_Client r0 = K" "at_secret n rr a p"
  shows "triple K p (cleanupObsoleteGeneratedSecret r a prev n) (cleanupObsoleteGeneratedSecret r0 a prev n)
     (\<lambda>e q. e = None \<longrightarrow> at_published n rr a q)"
proof -
  from assms(3) obtain ar where p: "p \<in> {Checked ar n rr, Published ar n rr}" and a: "but_status a ar"
    by (auto simp: at_secret_def)
  let ?m = "TrimSpace prev"
  let ?q = "\<lambda>x. case x of Inl _ \<Rightarrow> Published ar n rr | Inr s \<Rightarrow> Cleaning ar n rr s"
  have get: "triple K p (GetSecret (logged_kube K) (secret_key a ?m)) (GetSecret K (secret_key a ?m))
      (\<lambda>x q. q = ?q x)" if "?m \<noteq> []" "?m \<noteq> n"
    unfolding logged_calls
  proof (rule triple_log)
    fix x :: "secret result"
    show "step K p (GotSecret (secret_key a ?m) (answer x)) (?q x)"
      using previous [OF p a that(2,1)] no_previous [OF p] by (cases x) simp_all
  qed simp
  have pub: "at_published n rr a (Published ar n rr)" "\<And>s. at_published n rr a (Cleaning ar n rr s)"
    using a by (auto simp: at_published_def)
  have del: "triple K (Cleaning ar n rr s) (DeleteSecret (logged_kube K) s) (DeleteSecret K s)
      (\<lambda>_ q. q = Published ar n rr)" if "IsControlledBy K s a" for s
    unfolding logged_calls by (rule triple_log) (auto intro: clean [OF a that])
  show ?thesis
  proof (cases "?m = [] \<or> ?m = n")
    case True
    then show ?thesis
      using at_secret_published [OF assms(3)] unfolding cleanupObsoleteGeneratedSecret_def [abs_def]
      by (auto simp: Let_def intro!: triple_return)
  next
    case False
    then have m: "?m \<noteq> []" "?m \<noteq> n" by auto
    show ?thesis
      unfolding cleanupObsoleteGeneratedSecret_def [abs_def] Let_def isControllerGeneratedSecret_def
        secret_key_def [symmetric] assms(1,2) logged_kube_pure
      apply (simp only: m simp_thms if_False)
      apply (rule triple_bind [OF get [OF m]])
      apply (rule triple_case_sum)
       apply (rule triple_if; rule triple_return; simp add: pub)
      apply (rule triple_if, rule triple_return, simp add: pub)
      apply (rule triple_bind)
       apply (simp only: sum.case, rule del, simp)
      apply (rule triple_case_option, rule triple_return, simp add: pub)
      apply (rule triple_if; rule triple_return; simp add: pub)
      done
  qed
qed

text \<open>The reconciler over the logged interfaces, and over the plain ones.\<close>

definition parts_reconciler :: "'w kube \<Rightarrow> 'w serviceRegistrationBackend \<Rightarrow> 'w reconciler" where
  "parts_reconciler K B =
     newAuthRegistrationReconciler K (authRegistrationSecretReconciler K) (authRegistrationStatusPatcher K) B"

lemma parts_reconciler_simps [simp]:
  "rc_Client (parts_reconciler K B) = K"
  "rc_serviceRegistrationBackend (parts_reconciler K B) = B"
  "sr_Reconcile (rc_credentialsSecretReconciler (parts_reconciler K B)) = ReconcileSecret K"
  "sp_PatchResolvedSecretRef (rc_statusPatcher (parts_reconciler K B)) = PatchResolvedSecretRef K"
  "sp_PatchInvalidSpec (rc_statusPatcher (parts_reconciler K B)) = PatchInvalidSpec K"
  "sp_PatchSecretReconcileFailed (rc_statusPatcher (parts_reconciler K B)) = PatchSecretReconcileFailed K"
  "sp_PatchCredentialsPublished (rc_statusPatcher (parts_reconciler K B)) = PatchCredentialsPublished K"
  "sp_PatchRegistrationFailed (rc_statusPatcher (parts_reconciler K B)) = PatchRegistrationFailed K"
  "sp_PatchRegistrationSucceeded (rc_statusPatcher (parts_reconciler K B)) = PatchRegistrationSucceeded K"
  by (simp_all add: parts_reconciler_def newAuthRegistrationReconciler_def
      authRegistrationSecretReconciler_def authRegistrationStatusPatcher_def)

lemma triple_conditions:
  assumes "at_published n rr a p"
  shows "triple K p (PatchCredentialsPublished (logged_kube K) a) (PatchCredentialsPublished K a)
           (after_patch (at_published n rr))"
    "triple K p (PatchRegistrationSucceeded (logged_kube K) a) (PatchRegistrationSucceeded K a)
       (after_patch (at_published n rr))"
  using assms by (simp_all add: PatchCredentialsPublished_def PatchRegistrationSucceeded_def triple_condition)

lemma triple_Upsert:
  "triple K (Informed ar n) (sb_Upsert (logged_backend B) (FromAuthRegistration ar) d)
     (sb_Upsert B (FromAuthRegistration ar) d)
     (\<lambda>x p. case x of Inl _ \<Rightarrow> p = Failed | Inr rr \<Rightarrow> p = Registered ar n rr)"
  unfolding logged_calls
proof (rule triple_log)
  fix x :: "RegistrationResult result"
  show "step K (Informed ar n) (Upserted (FromAuthRegistration ar) d (answer x))
      (case x of Inl _ \<Rightarrow> Failed | Inr rr \<Rightarrow> Registered ar n rr)"
    by (cases x) (simp_all add: register register_fail)
qed (simp split: sum.splits)

text \<open>After the secret: cleanup and the two conditions.\<close>

lemma triple_finish:
  assumes "at_secret n rr a p"
  shows "triple K p
     (\<lambda>s. case cleanupObsoleteGeneratedSecret (parts_reconciler (logged_kube K) (logged_backend B)) a prev n s of
        (Some err, s5) \<Rightarrow> ((Some (Wrapf ''failed to cleanup obsolete generated secret: '' err), a), s5)
      | (None, s5) \<Rightarrow>
     (case PatchCredentialsPublished (logged_kube K) a s5 of
        ((Some err, ar2), s6) \<Rightarrow> ((Some (Wrapf ''failed to patch condition: '' err), ar2), s6)
      | ((None, ar2), s6) \<Rightarrow>
     (case PatchRegistrationSucceeded (logged_kube K) ar2 s6 of
        ((Some err, ar3), s7) \<Rightarrow> ((Some (Wrapf ''failed to patch condition: '' err), ar3), s7)
      | ((None, ar3), s7) \<Rightarrow> ((None, ar3), s7))))
     (\<lambda>s. case cleanupObsoleteGeneratedSecret (parts_reconciler K B) a prev n s of
        (Some err, s5) \<Rightarrow> ((Some (Wrapf ''failed to cleanup obsolete generated secret: '' err), a), s5)
      | (None, s5) \<Rightarrow>
     (case PatchCredentialsPublished K a s5 of
        ((Some err, ar2), s6) \<Rightarrow> ((Some (Wrapf ''failed to patch condition: '' err), ar2), s6)
      | ((None, ar2), s6) \<Rightarrow>
     (case PatchRegistrationSucceeded K ar2 s6 of
        ((Some err, ar3), s7) \<Rightarrow> ((Some (Wrapf ''failed to patch condition: '' err), ar3), s7)
      | ((None, ar3), s7) \<Rightarrow> ((None, ar3), s7))))
     (\<lambda>_ _. True)"
  apply (rule triple_bind [OF triple_cleanup [OF _ _ assms]], simp, simp)
  apply (rule triple_case_option)
   apply (rule triple_bind [OF triple_conditions(1)], simp)
   apply (rule triple_case_prod, rule triple_case_option)
    apply (rule triple_bind [OF triple_conditions(2)], simp add: after_patch_def)
    apply (rule triple_case_prod, rule triple_case_option)
     apply (rule triple_return, simp)+
  done

lemma triple_handleReconcile:
  "triple K (guarded_phase ar) (handleReconcile (parts_reconciler (logged_kube K) (logged_backend B)) ar)
     (handleReconcile (parts_reconciler K B) ar) (\<lambda>_ _. True)"
proof (cases "resolveSecretName ar")
  case (Inl e)
  show ?thesis
    unfolding handleReconcile_def [abs_def] parts_reconciler_simps Inl sum.case guarded_phase_def
    by (rule triple_bind [OF triple_PatchInvalidSpec], simp) (rule triple_case_prod, rule triple_return, simp)
next
  case (Inr nm)
  obtain n managed where nm: "nm = (n, managed)" by (cases nm)
  show ?thesis
    unfolding handleReconcile_def [abs_def] parts_reconciler_simps Inr nm sum.case prod.case guarded_phase_def Let_def
    apply (rule triple_bind [OF triple_readRegistrationData], simp, simp)
    apply (hypsubst, rule triple_case_sum, rule triple_return, simp)
    apply (rule triple_bind [OF triple_Upsert], rule triple_case_sum)
     apply (rule triple_bind [OF triple_PatchRegistrationFailed], simp)
     apply (rule triple_case_prod, rule triple_return, simp)
    apply (simp only: sum.case)
    apply (rule triple_bind [OF triple_PatchResolvedSecretRef])
    apply (rule triple_case_prod, rule triple_case_option)
     apply (rule triple_bind [OF triple_ReconcileSecret], simp add: after_patch_def)
     apply (rule triple_case_option)
      defer
      apply (rule triple_bind [OF triple_PatchSecretReconcileFailed], simp)
      apply (rule triple_case_prod, rule triple_return, simp)
     apply (rule triple_return, simp)
    apply (rule triple_finish, simp)
    done
qed

lemma triple_handleDeletion:
  assumes "ContainsFinalizer K ar finalizer"
  shows "triple K (Leaving ar) (handleDeletion (parts_reconciler (logged_kube K) (logged_backend B)) ar)
     (handleDeletion (parts_reconciler K B) ar) (\<lambda>_ _. True)"
proof -
  have del: "triple K (Leaving ar) (sb_Delete (logged_backend B) (FromAuthRegistration ar))
      (sb_Delete B (FromAuthRegistration ar)) (\<lambda>e p. e = None \<longrightarrow> p = Left ar)"
    unfolding logged_calls
  proof (rule triple_log)
    fix e :: "go_error option"
    show "step K (Leaving ar) (Deregistered (FromAuthRegistration ar) (e = None)) (if e = None then Left ar else Over)"
      by (cases e) (simp_all add: leave leave_fail)
  qed simp
  have rel: "triple K (Left ar)
      (UpdateAuthRegistration (logged_kube K) (snd (RemoveFinalizer K ar finalizer)))
      (UpdateAuthRegistration K (snd (RemoveFinalizer K ar finalizer))) (\<lambda>_ _. True)"
    unfolding logged_calls by (rule triple_log [where q = "\<lambda>_. Over"]) (simp_all add: release)
  obtain b a where r: "RemoveFinalizer K ar finalizer = (b, a)" by (cases "RemoveFinalizer K ar finalizer")
  show ?thesis
    unfolding handleDeletion_def [abs_def] parts_reconciler_simps logged_kube_pure
    apply (simp only: assms not_True_eq_False if_False r prod.case)
    apply (rule triple_bind [OF del], rule triple_case_option)
     apply (rule triple_bind [where R = "\<lambda>_ _. True"])
      apply (insert rel, simp add: r)
     apply (rule triple_case_sum; rule triple_return, simp)
    apply (rule triple_return, simp)
    done
qed

section \<open>The controller\<close>

definition parts_controller :: "'w kube \<Rightarrow> 'w serviceRegistrationBackend \<Rightarrow> 'w AuthRegistrationController" where
  "parts_controller K B = NewAuthRegistrationController K B"

lemma parts_controller_simps [simp]:
  "ctl_Client (parts_controller K B) = K"
  "arr_handleReconcile (ctl_reconciler (parts_controller K B)) = handleReconcile (parts_reconciler K B)"
  "arr_handleDeletion (ctl_reconciler (parts_controller K B)) = handleDeletion (parts_reconciler K B)"
  by (simp_all add: parts_controller_def NewAuthRegistrationController_def parts_reconciler_def
      reconciler_interface_def)

text \<open>
  A run of the entry point over the logged interfaces returns what a plain run returns, in
  the same world, and its log is a walk through the phases.
\<close>

lemma triple_load:
  "triple K Idle (GetAuthRegistration (logged_kube K) req) (GetAuthRegistration K req)
     (\<lambda>x p. case x of Inl _ \<Rightarrow> True | Inr ar \<Rightarrow> p = loaded_phase K ar)"
  unfolding logged_calls
proof (rule triple_log)
  fix x :: "authRegistration result"
  show "step K Idle (GotAR req (answer x)) (case x of Inl _ \<Rightarrow> Over | Inr ar \<Rightarrow> loaded_phase K ar)"
    by (cases x) (simp_all add: load load_fail)
qed (simp split: sum.splits)

lemma triple_guard:
  "triple K (if fu then Unguarded ar1 else guarded_phase ar1)
     (\<lambda>s. if fu then UpdateAuthRegistration (logged_kube K) ar1 s else (Inr ar1, s))
     (\<lambda>w. if fu then UpdateAuthRegistration K ar1 w else (Inr ar1, w))
     (\<lambda>x p. case x of Inl _ \<Rightarrow> True | Inr ar2 \<Rightarrow> p = guarded_phase ar2)"
proof (rule triple_if)
  assume fu
  show "triple K (if fu then Unguarded ar1 else guarded_phase ar1) (UpdateAuthRegistration (logged_kube K) ar1)
      (UpdateAuthRegistration K ar1) (\<lambda>x p. case x of Inl _ \<Rightarrow> True | Inr ar2 \<Rightarrow> p = guarded_phase ar2)"
    unfolding logged_calls
  proof (rule triple_log)
    fix x :: "authRegistration result"
    show "step K (if fu then Unguarded ar1 else guarded_phase ar1) (UpdatedAR ar1 (answer x))
        (case x of Inl _ \<Rightarrow> Over | Inr ar2 \<Rightarrow> guarded_phase ar2)"
      using \<open>fu\<close> by (cases x) (simp_all add: guard guard_fail)
  qed (simp split: sum.splits)
next
  assume "\<not> fu"
  then show "triple K (if fu then Unguarded ar1 else guarded_phase ar1) (\<lambda>s. (Inr ar1, s)) (\<lambda>w. (Inr ar1, w))
      (\<lambda>x p. case x of Inl _ \<Rightarrow> True | Inr ar2 \<Rightarrow> p = guarded_phase ar2)"
    by (intro triple_return) simp
qed

lemma triple_deletion_phase:
  "triple K (if ContainsFinalizer K ar finalizer then Leaving ar else Over)
     (handleDeletion (parts_reconciler (logged_kube K) (logged_backend B)) ar)
     (handleDeletion (parts_reconciler K B) ar) (\<lambda>_ _. True)"
proof (cases "ContainsFinalizer K ar finalizer")
  case True
  then show ?thesis by (simp add: triple_handleDeletion)
next
  case False
  then show ?thesis by (auto simp: handleDeletion_def [abs_def] intro!: triple_return)
qed

lemma triple_Reconcile:
  "triple K Idle (Reconcile (parts_controller (logged_kube K) (logged_backend B)) req)
     (Reconcile (parts_controller K B) req) (\<lambda>_ _. True)"
  unfolding Reconcile_def [abs_def] parts_controller_simps logged_kube_pure IgnoreNotFound_def
  apply (rule triple_bind [OF triple_load], rule triple_case_sum)
   apply (rule triple_return, simp)
  apply (rule triple_if)
   apply (simp only: sum.case loaded_phase_def if_True simp_thms)
   apply (rule triple_bind [OF triple_deletion_phase], rule triple_case_prod, rule triple_return, simp)
  apply (rule triple_case_prod)
  apply (simp only: sum.case loaded_phase_def if_False fst_conv snd_conv)
  apply (rule triple_bind [OF triple_guard], rule triple_case_sum, rule triple_return, simp)
  apply (simp only: sum.case)
  apply (rule triple_bind [OF triple_handleReconcile])
  apply (rule triple_case_prod, rule triple_case_option; rule triple_return, simp)
  done

lemma Reconcile_logged:
  "\<exists>e w' tr p. Reconcile (parts_controller (logged_kube K) (logged_backend B)) req (w, []) = (e, (w', tr)) \<and>
     Reconcile (parts_controller K B) req w = (e, w') \<and> steps K Idle tr p"
  using triple_Reconcile [of K B req] unfolding triple_def by (metis append_Nil)

section \<open>What the phases allow\<close>

text \<open>The events that tell something of the run so far.\<close>

fun stores_finalizer :: "event \<Rightarrow> bool" where
  "stores_finalizer (GotAR _ (Some ar)) \<longleftrightarrow> finalizer \<in> set (ar_Finalizers ar)"
| "stores_finalizer (UpdatedAR ar (Some _)) \<longleftrightarrow> finalizer \<in> set (ar_Finalizers ar)"
| "stores_finalizer _ \<longleftrightarrow> False"

fun upserts :: "event \<Rightarrow> bool" where
  "upserts (Upserted _ _ _) \<longleftrightarrow> True"
| "upserts _ \<longleftrightarrow> False"

fun upserted :: "event \<Rightarrow> bool" where
  "upserted (Upserted _ _ (Some _)) \<longleftrightarrow> True"
| "upserted _ \<longleftrightarrow> False"

fun deregisters :: "event \<Rightarrow> bool" where
  "deregisters (Deregistered _ _) \<longleftrightarrow> True"
| "deregisters _ \<longleftrightarrow> False"

fun deregistered :: "event \<Rightarrow> bool" where
  "deregistered (Deregistered _ ok) \<longleftrightarrow> ok"
| "deregistered _ \<longleftrightarrow> False"

fun drops_finalizer :: "event \<Rightarrow> bool" where
  "drops_finalizer (UpdatedAR ar _) \<longleftrightarrow> finalizer \<notin> set (ar_Finalizers ar)"
| "drops_finalizer _ \<longleftrightarrow> False"

fun writes_secret :: "event \<Rightarrow> bool" where
  "writes_secret (CreatedSecret _ _) \<longleftrightarrow> True"
| "writes_secret (UpdatedSecret _ _) \<longleftrightarrow> True"
| "writes_secret (DeletedSecret _ _) \<longleftrightarrow> True"
| "writes_secret _ \<longleftrightarrow> False"

definition happened :: "(event \<Rightarrow> bool) \<Rightarrow> event list \<Rightarrow> bool" where
  "happened P tr \<longleftrightarrow> (\<exists>e\<in>set tr. P e)"

lemma happened_simps [simp]:
  "happened P [] \<longleftrightarrow> False" "happened P (tr @ [e]) \<longleftrightarrow> happened P tr \<or> P e"
  "happened P (e # tr) \<longleftrightarrow> P e \<or> happened P tr"
  by (auto simp: happened_def)

text \<open>An event of one kind only after one of the other kind.\<close>

definition only_after :: "(event \<Rightarrow> bool) \<Rightarrow> (event \<Rightarrow> bool) \<Rightarrow> event list \<Rightarrow> bool" where
  "only_after P Q tr \<longleftrightarrow> (\<forall>i<length tr. P (tr ! i) \<longrightarrow> happened Q (take i tr))"

lemma only_after_nil [simp]: "only_after P Q []"
  by (simp add: only_after_def)

lemma only_after_snoc [simp]:
  "only_after P Q (tr @ [e]) \<longleftrightarrow> only_after P Q tr \<and> (P e \<longrightarrow> happened Q tr)"
  unfolding only_after_def by (auto simp: less_Suc_eq nth_append)

text \<open>What is known in a phase.\<close>

definition known :: "phase \<Rightarrow> event list \<Rightarrow> bool" where
  "known p tr \<longleftrightarrow>
     (case p of
        Idle \<Rightarrow> tr = []
      | Unguarded ar \<Rightarrow> finalizer \<in> set (ar_Finalizers ar)
      | Guarded _ _ \<Rightarrow> happened stores_finalizer tr
      | Informed _ _ \<Rightarrow> happened stores_finalizer tr
      | Registered _ _ _ \<Rightarrow> happened upserted tr
      | Checked _ _ _ \<Rightarrow> happened upserted tr
      | Published _ _ _ \<Rightarrow> happened upserted tr
      | Cleaning _ _ _ _ \<Rightarrow> happened upserted tr
      | Left _ \<Rightarrow> happened deregistered tr
      | _ \<Rightarrow> True)"

definition leaving :: "phase \<Rightarrow> bool" where
  "leaving p \<longleftrightarrow> (case p of Leaving _ \<Rightarrow> True | Left _ \<Rightarrow> True | _ \<Rightarrow> False)"

text \<open>Which of the two sides of the backend has been called, and how often.\<close>

definition backend_calls :: "phase \<Rightarrow> event list \<Rightarrow> bool" where
  "backend_calls p tr \<longleftrightarrow>
     (let u = length (filter upserts tr); d = length (filter deregisters tr)
      in u + d \<le> 1 \<and>
         (case p of
            Idle \<Rightarrow> u + d = 0 | Unguarded _ \<Rightarrow> u + d = 0 | Guarded _ _ \<Rightarrow> u + d = 0
          | Informed _ _ \<Rightarrow> u + d = 0 | Leaving _ \<Rightarrow> u + d = 0 | _ \<Rightarrow> True))"

lemma finalizer_added: "finalizer_laws K \<Longrightarrow> finalizer \<in> set (ar_Finalizers (snd (AddFinalizer K ar finalizer)))"
  by (simp add: finalizer_laws_def)

lemma finalizer_not_added:
  "finalizer_laws K \<Longrightarrow> \<not> fst (AddFinalizer K ar finalizer) \<Longrightarrow> finalizer \<in> set (ar_Finalizers ar)"
  by (simp add: finalizer_laws_def split: if_splits)

lemma known_step:
  assumes "finalizer_laws K" "step K p e q" "known p tr"
  shows "known q (tr @ [e])" "upserts e \<Longrightarrow> happened stores_finalizer tr"
    "drops_finalizer e \<Longrightarrow> happened deregistered tr" "writes_secret e \<Longrightarrow> happened upserted tr"
  using assms(2,3)
  by (cases rule: step.cases;
      auto simp: known_def guarded_phase_def loaded_phase_def finalizer_added [OF assms(1)]
        finalizer_not_added [OF assms(1)] split: sum.splits)+

lemma backend_calls_step:
  assumes "step K p e q" "backend_calls p tr"
  shows "backend_calls q (tr @ [e])"
  using assms
  by (cases rule: step.cases)
    (auto simp: backend_calls_def Let_def guarded_phase_def loaded_phase_def split: sum.splits phase.splits)

lemma steps_known:
  assumes "finalizer_laws K" "steps K Idle tr p"
  shows "known p tr \<and> only_after upserts stores_finalizer tr \<and> only_after drops_finalizer deregistered tr \<and>
     only_after writes_secret upserted tr"
  using assms(2)
proof (induction tr arbitrary: p rule: rev_induct)
  case Nil
  then show ?case by (auto elim: steps_nilE simp: known_def)
next
  case (snoc e tr)
  then obtain q where q: "steps K Idle tr q" "step K q e p" by (auto simp: steps_snoc)
  with snoc.IH known_step [OF assms(1) q(2)] show ?case by auto
qed

lemma steps_backend_calls:
  assumes "steps K Idle tr p"
  shows "backend_calls p tr"
  using assms
proof (induction tr arbitrary: p rule: rev_induct)
  case Nil
  then show ?case by (auto elim: steps_nilE simp: backend_calls_def)
next
  case (snoc e tr)
  then show ?case by (auto simp: steps_snoc intro: backend_calls_step)
qed

text \<open>The calls of a run of the entry point, in order.\<close>

definition call_log ::
    "'w kube \<Rightarrow> 'w serviceRegistrationBackend \<Rightarrow> namespacedName \<Rightarrow> 'w \<Rightarrow> event list" where
  "call_log K B req w = snd (snd (Reconcile (parts_controller (logged_kube K) (logged_backend B)) req (w, [])))"

lemma call_log_walk: "\<exists>p. steps K Idle (call_log K B req w) p"
  unfolding call_log_def using Reconcile_logged [of K B req w] by auto

lemma call_log_orders:
  assumes "finalizer_laws K"
  shows "only_after upserts stores_finalizer (call_log K B req w)"
    "only_after drops_finalizer deregistered (call_log K B req w)"
    "only_after writes_secret upserted (call_log K B req w)"
  using call_log_walk [of K B req w] steps_known [OF assms] by blast+

lemma call_log_backend:
  "length (filter upserts (call_log K B req w)) + length (filter deregisters (call_log K B req w)) \<le> 1"
  using call_log_walk [of K B req w] steps_backend_calls by (fastforce simp: backend_calls_def Let_def)

end
