(* ===== verification/Shutdown.thy ===== *)
theory Shutdown imports GoErrors begin

text \<open>
  startManagerWithGracefulShutdown of cmd/main.go, as a step relation. Three parties run at
  once: the goroutine that runs the manager and sends its result, the operating system with
  its signals and the timer, and the function itself, whose two select statements take
  whichever of their cases is ready.
\<close>

section \<open>States\<close>

definition gracefulShutdownTimeout :: "64 word" where "gracefulShutdownTimeout = 15 * 1000000000"









section \<open>Steps\<close>






section \<open>The invariant\<close>





section \<open>What the function promises\<close>








end
