(* ===== verification/History.thy ===== *)
theory History imports MemCluster begin

text \<open>
  Many runs of the entry point, one after the other, whatever their results: the registry of
  CAS under every outcome of every call, answers that get lost included, and the services that
  a history of runs and of changes by others can leave in it.
\<close>

section \<open>The Kubernetes calls and the registry\<close>

text \<open>No call to the API server touches \<open>G\<close>, whatever it answers.\<close>

definition kube_steady :: "'w kube \<Rightarrow> ('w \<Rightarrow> 'x) \<Rightarrow> bool" where
  "kube_steady K G \<longleftrightarrow>
     (\<forall>w k. G (snd (GetAuthRegistration K k w)) = G w) \<and>
     (\<forall>w ar. G (snd (UpdateAuthRegistration K ar w)) = G w) \<and>
     (\<forall>w old new. G (snd (PatchAuthRegistrationStatus K old new w)) = G w) \<and>
     (\<forall>w k. G (snd (GetSecret K k w)) = G w) \<and>
     (\<forall>w s. G (snd (CreateSecret K s w)) = G w) \<and>
     (\<forall>w s. G (snd (UpdateSecret K s w)) = G w) \<and>
     (\<forall>w s. G (snd (DeleteSecret K s w)) = G w)"

lemma kube_steadyD:
  assumes "kube_steady K G"
  shows "GetAuthRegistration K k w = (r1, w1) \<Longrightarrow> G w1 = G w"
    "UpdateAuthRegistration K ar w = (r2, w1) \<Longrightarrow> G w1 = G w"
    "PatchAuthRegistrationStatus K old new w = (r3, w1) \<Longrightarrow> G w1 = G w"
    "GetSecret K k w = (r4, w1) \<Longrightarrow> G w1 = G w"
    "CreateSecret K s w = (r5, w1) \<Longrightarrow> G w1 = G w"
    "UpdateSecret K s w = (r5, w1) \<Longrightarrow> G w1 = G w"
    "DeleteSecret K s w = (r5, w1) \<Longrightarrow> G w1 = G w"
  by (insert assms, unfold kube_steady_def, elim conjE, metis snd_conv)+

lemma patchStatus_steady:
  assumes "kube_steady K G" "patchStatus K ar f w = (r, w1)"
  shows "G w1 = G w"
  using assms(2) by (auto simp: patchStatus_def Let_def split: if_splits prod.splits sum.splits
      dest: kube_steadyD(3) [OF assms(1)])

lemma patchCondition_steady:
  assumes "kube_steady K G" "patchCondition K ar c w = (r, w1)"
  shows "G w1 = G w"
  using assms(2) by (auto simp: patchCondition_def split: if_splits dest: patchStatus_steady [OF assms(1)])

lemma patches_steady:
  assumes "kube_steady K G"
  shows "PatchResolvedSecretRef K ar n w = (r, w1) \<Longrightarrow> G w1 = G w"
    "PatchInvalidSpec K ar e w = (r, w1) \<Longrightarrow> G w1 = G w"
    "PatchSecretReconcileFailed K ar n e w = (r, w1) \<Longrightarrow> G w1 = G w"
    "PatchRegistrationFailed K ar e w = (r, w1) \<Longrightarrow> G w1 = G w"
    "PatchCredentialsPublished K ar w = (r, w1) \<Longrightarrow> G w1 = G w"
    "PatchRegistrationSucceeded K ar w = (r, w1) \<Longrightarrow> G w1 = G w"
  unfolding PatchResolvedSecretRef_def PatchInvalidSpec_def PatchSecretReconcileFailed_def
    PatchRegistrationFailed_def PatchCredentialsPublished_def PatchRegistrationSucceeded_def
  by (auto split: prod.splits option.splits
      dest!: patchStatus_steady [OF assms] patchCondition_steady [OF assms])

lemma ReconcileSecret_steady:
  assumes "kube_steady K G" "ReconcileSecret K rr ar n managed w = (r, w1)"
  shows "G w1 = G w"
  using assms(2) by (auto simp: ReconcileSecret_def Let_def split: if_splits prod.splits sum.splits
      dest!: kube_steadyD(4-) [OF assms(1)])

lemma readRegistrationData_steady:
  assumes "kube_steady (rc_Client r) G" "readRegistrationData r ns n w = (x, w1)"
  shows "G w1 = G w"
  using assms(2) by (auto simp: readRegistrationData_def split: if_splits prod.splits sum.splits
      dest!: kube_steadyD(4) [OF assms(1)])

lemma cleanup_steady:
  assumes "kube_steady (rc_Client r) G" "cleanupObsoleteGeneratedSecret r ar p n w = (x, w1)"
  shows "G w1 = G w"
  using assms(2) by (auto simp: cleanupObsoleteGeneratedSecret_def Let_def
      split: if_splits prod.splits sum.splits option.splits dest!: kube_steadyD(4,7) [OF assms(1)])

lemmas steady = patches_steady ReconcileSecret_steady readRegistrationData_steady cleanup_steady

section \<open>A run and the registry\<close>

text \<open>A run does to the registry what one call of the backend does, or nothing.\<close>

lemma handleReconcile_registry:
  assumes "kube_steady K G" "handleReconcile (operator_reconciler K b) ar w = (r, w')"
  shows "G w' = G w \<or> (\<exists>d u. G u = G w \<and> G w' = G (snd (Upsert b (FromAuthRegistration ar) d u)))"
proof (cases "resolveSecretName ar")
  case (Inl e)
  then show ?thesis using assms(2)
    by (auto simp: handleReconcile_def authRegistrationStatusPatcher_def split: prod.splits
        dest: steady(2) [OF assms(1)])
next
  case (Inr nm)
  then obtain n managed where nm: "resolveSecretName ar = Inr (n, managed)" by (cases nm) auto
  obtain d w1 where rd: "readRegistrationData (operator_reconciler K b) (ar_Namespace ar) n w = (d, w1)"
    by (cases "readRegistrationData (operator_reconciler K b) (ar_Namespace ar) n w")
  have 1: "G w1 = G w" using readRegistrationData_steady [OF _ rd, of G] assms(1) by simp
  show ?thesis
  proof (cases d)
    case (Inl e)
    then show ?thesis using assms(2) nm rd 1 by (simp add: handleReconcile_def Let_def)
  next
    case (Inr data)
    obtain x w2 where up: "Upsert b (FromAuthRegistration ar) data w1 = (x, w2)"
      by (cases "Upsert b (FromAuthRegistration ar) data w1")
    have "G w' = G w2"
      using assms(2) nm rd Inr up
      by (auto simp: handleReconcile_def Let_def backend_interface_def authRegistrationStatusPatcher_def
          authRegistrationSecretReconciler_def split: sum.splits prod.splits option.splits
          dest!: patches_steady [OF assms(1)] ReconcileSecret_steady [OF assms(1)]
            cleanup_steady [of "operator_reconciler K b" G, simplified, OF assms(1)])
    with 1 up show ?thesis by (metis snd_conv)
  qed
qed

lemma handleDeletion_registry:
  assumes "kube_steady K G" "handleDeletion (operator_reconciler K b) ar w = (r, w')"
  shows "G w' = G w \<or> G w' = G (snd (Delete b (FromAuthRegistration ar) w))"
  using assms(2)
  by (auto simp: handleDeletion_def backend_interface_def split: if_splits sum.splits prod.splits option.splits
      dest!: kube_steadyD(2) [OF assms(1)])

text \<open>The object the backend is called with has the specification of the stored object.\<close>

lemma Reconcile_registry:
  assumes "kube_steady K G" "ar_laws K V" "finalizer_laws K" "Reconcile (operator_controller K b) req w = (r, w')"
  shows "G w' = G w \<or>
     (\<exists>ar u. view_ar V w req = Some ar \<and> G u = G w \<and>
        ((\<exists>d. G w' = G (snd (Upsert b (FromAuthRegistration ar) d u))) \<or>
         G w' = G (snd (Delete b (FromAuthRegistration ar) u))))"
proof -
  obtain g w1 where g: "GetAuthRegistration K req w = (g, w1)" by (cases "GetAuthRegistration K req w")
  have 1: "G w1 = G w" using kube_steadyD(1) [OF assms(1) g] .
  show ?thesis
  proof (cases g)
    case (Inl e)
    then show ?thesis using assms(4) g 1 by (simp add: Reconcile_def)
  next
    case (Inr ar)
    then have st: "view_ar V w req = Some ar" using ar_laws_getD(3) [OF assms(2) g] by simp
    show ?thesis
    proof (cases "TimeIsZero K (ar_DeletionTimestamp ar)")
      case False
      then obtain r1 where "handleDeletion (operator_reconciler K b) ar w1 = (r1, w')"
        using assms(4) g Inr by (auto simp: Reconcile_def split: prod.splits)
      from handleDeletion_registry [OF assms(1) this] show ?thesis using 1 st by metis
    next
      case True
      obtain f ar1 where f: "AddFinalizer K ar authRegistrationFinalizer = (f, ar1)"
        by (cases "AddFinalizer K ar authRegistrationFinalizer")
      have sp1: "ar_Spec ar1 = ar_Spec ar"
        using assms(3) f by (auto simp: finalizer_laws_def split: if_splits)
      obtain x w2 where x: "(if f then UpdateAuthRegistration K ar1 w1 else (Inr ar1, w1)) = (x, w2)"
        by (cases "if f then UpdateAuthRegistration K ar1 w1 else (Inr ar1, w1)")
      have 2: "G w2 = G w1" using x kube_steadyD(2) [OF assms(1)] by (auto split: if_splits)
      show ?thesis
      proof (cases x)
        case (Inl e)
        then show ?thesis using assms(4) g \<open>g = Inr ar\<close> True f x 1 2 by (cases f) (simp_all add: Reconcile_def)
      next
        case (Inr ar2)
        have "same_object ar1 ar2" if f using x that Inr ar_laws_updateD(3) [OF assms(2)] by simp
        then have "ar_Spec ar2 = ar_Spec ar" using sp1 x Inr by (cases f) (auto simp: same_object_def)
        then have fa: "FromAuthRegistration ar2 = FromAuthRegistration ar" by (rule FromAuthRegistration_cong)
        obtain r1 where "handleReconcile (operator_reconciler K b) ar2 w2 = (r1, w')"
          using assms(4) g \<open>g = Inr ar\<close> Inr True f x
          by (cases f) (auto simp: Reconcile_def split: prod.splits option.splits)
        from handleReconcile_registry [OF assms(1) this] show ?thesis
          unfolding fa using st 1 2 by metis
      qed
    qed
  qed
qed

section \<open>Calls with any outcome\<close>

text \<open>
  The registry under calls that may fail or whose answer may be lost: a listing leaves it as it
  is, a write happens once or not at all, and an error does not tell which. Only the answer of a
  successful listing is relied on.
\<close>

definition attempt_laws :: "(RegisteredService \<Rightarrow> bool) \<Rightarrow> 'w apiClient \<Rightarrow> ('w \<Rightarrow> registry) \<Rightarrow> bool" where
  "attempt_laws ok C G \<longleftrightarrow>
     (\<forall>w r w1. ac_ListServices C w = (r, w1) \<longrightarrow> G w1 = G w \<and> (\<forall>ss. r = Inr ss \<longrightarrow> mset (slice ss) = G w)) \<and>
     (\<forall>s w r w1. ac_CreateService C s w = (r, w1) \<and> ok s \<and> rs_ID s = 0 \<longrightarrow>
        G w1 = G w \<or> (\<exists>i. i \<noteq> 0 \<and> i \<notin># image_mset rs_ID (G w) \<and> G w1 = add_mset (s\<lparr>rs_ID := i\<rparr>) (G w))) \<and>
     (\<forall>s w r w1. ac_UpdateService C s w = (r, w1) \<and> ok s \<longrightarrow>
        G w1 = G w \<or> rs_ID s \<in># image_mset rs_ID (G w) \<and>
          G w1 = add_mset s (filter_mset (\<lambda>t. rs_ID t \<noteq> rs_ID s) (G w))) \<and>
     (\<forall>i w r w1. ac_DeleteService C i w = (r, w1) \<longrightarrow>
        G w1 = G w \<or> G w1 = filter_mset (\<lambda>t. rs_ID t \<noteq> i) (G w))"

text \<open>
  The registry changes for one consumer at most, ids stay distinct, and a consumer with at most
  one service has at most one after it.
\<close>

definition spares :: "string \<Rightarrow> registry \<Rightarrow> registry \<Rightarrow> bool" where
  "spares c H H' \<longleftrightarrow>
     registry_ok H' \<and> (\<forall>c'. c' \<noteq> c \<longrightarrow> services_of H' c' = services_of H c') \<and>
     (size (services_of H c) \<le> 1 \<longrightarrow> size (services_of H' c) \<le> 1)"

lemma spares_refl: "registry_ok H \<Longrightarrow> spares c H H"
  by (simp add: spares_def)

lemma spares_create:
  assumes "registry_ok H" "services_of H c = {#}" "serves c s" "rs_ID s \<noteq> 0" "rs_ID s \<notin># image_mset rs_ID H"
  shows "spares c H (add_mset s H)"
  using assms registry_ok_add [OF assms(1,4,5)] by (auto simp: spares_def services_of_def serves_def)

lemma services_of_found:
  assumes "services_of H c = {#t#}"
  shows "t \<in># H" "GetFirstValue (rs_Properties t) ''ServiceName'' = c"
    "services_of (filter_mset (\<lambda>x. rs_ID x \<noteq> rs_ID t) H) c = {#}"
proof -
  have "t \<in># services_of H c" using assms by simp
  then show "t \<in># H" "GetFirstValue (rs_Properties t) ''ServiceName'' = c"
    by (simp_all add: services_of_def serves_def)
  have "services_of (filter_mset (\<lambda>x. rs_ID x \<noteq> rs_ID t) H) c = filter_mset (\<lambda>x. rs_ID x \<noteq> rs_ID t) (services_of H c)"
    by (simp add: services_of_def filter_filter_mset conj_commute)
  then show "services_of (filter_mset (\<lambda>x. rs_ID x \<noteq> rs_ID t) H) c = {#}" using assms by simp
qed

lemma spares_delete:
  assumes "registry_ok H" "services_of H c = {#t#}"
  shows "spares c H (filter_mset (\<lambda>x. rs_ID x \<noteq> rs_ID t) H)"
  using services_of_found [OF assms(2)] services_of_remove [OF assms(1)] registry_ok_filter [OF assms(1)]
  by (simp add: spares_def)

lemma spares_update:
  assumes "registry_ok H" "services_of H c = {#t#}" "serves c s" "rs_ID s = rs_ID t"
  shows "spares c H (add_mset s (filter_mset (\<lambda>x. rs_ID x \<noteq> rs_ID s) H))"
proof -
  let ?H = "filter_mset (\<lambda>x. rs_ID x \<noteq> rs_ID s) H"
  note f = services_of_found [OF assms(2)]
  have d: "spares c H ?H" using spares_delete [OF assms(1,2)] assms(4) by simp
  have "rs_ID s \<noteq> 0" using assms(1,4) f(1) by (auto simp: registry_ok_def)
  moreover have "rs_ID s \<notin># image_mset rs_ID ?H" by auto
  ultimately have "spares c ?H (add_mset s ?H)"
    using spares_create [of ?H c s] d f(3) assms(3,4) by (simp add: spares_def)
  with d f(3) assms(4) show ?thesis by (simp add: spares_def)
qed

lemma config_apart_mapper:
  assumes "config_apart m R G"
  shows "BuildServicePayload m reg ex ss sec w = (r1, w1) \<Longrightarrow> G w1 = G w"
    "BuildRegistrationResult m reg p sec w = (r2, w1) \<Longrightarrow> G w1 = G w"
  by (auto simp: BuildServicePayload_def BuildRegistrationResult_def Let_def
      split: prod.splits sum.splits if_splits dest!: config_apart_getFQDN [OF assms])

text \<open>An Upsert writes once, when it has come that far; all its other calls leave the registry alone.\<close>

lemma Upsert_attempt:
  assumes laws: "attempt_laws valid C G" "config_apart m R G"
    and run: "Upsert (cas_backend C m R) reg d w = (r, w')"
  shows "G w' = G w \<or>
     (\<exists>ss ex sec fqdn v v' w3 x w4.
        mset ss = G w \<and> findServiceByConsumer ss (reg_Consumer reg) = Inr ex \<and>
        getFQDN m v = (Inr fqdn, v') \<and> G w3 = G w \<and> G w' = G w4 \<and>
        write_service (cas_backend C m R) ex (service_for fqdn reg ex sec) w3 = (x, w4))"
proof -
  let ?b = "cas_backend C m R"
  have parts: "be_client ?b = C" "be_mapper ?b = serviceMapper_registrationMapper m"
    by (simp_all add: cas_backend_def)
  obtain l w1 where l: "ac_ListServices C w = (l, w1)" by (cases "ac_ListServices C w")
  have 1: "G w1 = G w" "\<And>ss. l = Inr ss \<Longrightarrow> mset (slice ss) = G w"
    using laws(1) l unfolding attempt_laws_def by blast+
  note un = Upsert_def parts serviceMapper_registrationMapper_def wrapping_def
  show ?thesis
  proof (cases "\<exists>services ex sec w2 service w3. l = Inr services \<and>
      findServiceByConsumer (slice services) (reg_Consumer reg) = Inr ex \<and>
      resolveClientSecret ?b reg d w1 = (Inr sec, w2) \<and>
      BuildServicePayload m reg ex (slice services) sec w2 = (Inr service, w3) \<and>
      ValidateRegistration reg = None")
    case False
    then have "G w' = G w"
      using run l 1
      by (auto simp: un split: option.splits sum.splits prod.splits
          dest!: config_apart_mapper [OF laws(2)] config_apart_secret [OF laws(2)])
    then show ?thesis ..
  next
    case True
    then obtain services ex sec w2 service w3 where t: "l = Inr services"
        "findServiceByConsumer (slice services) (reg_Consumer reg) = Inr ex"
        "resolveClientSecret ?b reg d w1 = (Inr sec, w2)"
        "BuildServicePayload m reg ex (slice services) sec w2 = (Inr service, w3)"
        "ValidateRegistration reg = None" by blast
    obtain x w4 where wr: "write_service ?b ex service w3 = (x, w4)" by (cases "write_service ?b ex service w3")
    have "G w' = G w4"
      using run l t wr
      by (auto simp: un write_service_def split: option.splits sum.splits prod.splits if_splits
          dest!: config_apart_mapper(2) [OF laws(2)])
    moreover have "G w3 = G w"
      using 1 config_apart_secret [OF laws(2) t(3)] config_apart_mapper(1) [OF laws(2) t(4)] by simp
    moreover obtain fqdn where "getFQDN m w2 = (Inr fqdn, w3)" "service = service_for fqdn reg ex sec"
      using t(4) by (auto simp: BuildServicePayload_Inr)
    ultimately show ?thesis using 1(2) [OF t(1)] t(2) wr by blast
  qed
qed

lemma Upsert_spares:
  assumes laws: "attempt_laws valid C G" "config_apart m R G" and ok: "registry_ok (G w)" "writes_ok valid m reg (G w)"
    and run: "Upsert (cas_backend C m R) reg d w = (r, w')"
  shows "spares (reg_Consumer reg) (G w) (G w')"
  using Upsert_attempt [OF laws run]
proof (elim disjE exE conjE)
  assume "G w' = G w"
  then show ?thesis using ok(1) by (simp add: spares_refl)
next
  fix ss ex sec fqdn v v' w3 x w4
  assume ms: "mset ss = G w" and f: "findServiceByConsumer ss (reg_Consumer reg) = Inr ex"
    and q: "getFQDN m v = (Inr fqdn, v')" and G: "G w3 = G w" "G w' = G w4"
    and wr: "write_service (cas_backend C m R) ex (service_for fqdn reg ex sec) w3 = (x, w4)"
  let ?s = "service_for fqdn reg ex sec" and ?c = "reg_Consumer reg"
  have C: "be_client (cas_backend C m R) = C" by (simp add: cas_backend_def)
  have sv: "serves ?c (?s\<lparr>rs_ID := i\<rparr>)" for i by (simp add: serves_def)
  have "t \<in># G w" if "ex = Some t" for t
    using f that findService_registry(1) [OF ms] services_of_found(1) by blast
  then have wf: "valid ?s" using ok(2) q unfolding writes_ok_def by blast
  show ?thesis
  proof (cases ex)
    case None
    then have "ac_CreateService C ?s w3 = (x, w4)" "rs_ID ?s = 0"
      using wr by (simp_all add: write_service_def C serviceId_def)
    then have "G w4 = G w3 \<or> (\<exists>i. i \<noteq> 0 \<and> i \<notin># image_mset rs_ID (G w3) \<and> G w4 = add_mset (?s\<lparr>rs_ID := i\<rparr>) (G w3))"
      using laws(1) wf unfolding attempt_laws_def by blast
    moreover have "services_of (G w) ?c = {#}" using f None findService_registry(2) [OF ms] by simp
    ultimately show ?thesis using spares_refl [OF ok(1)] spares_create [OF ok(1) _ sv] G by auto
  next
    case (Some t)
    then have "ac_UpdateService C ?s w3 = (x, w4)" "rs_ID ?s = rs_ID t"
      using wr by (simp_all add: write_service_def C serviceId_def)
    then have "G w4 = G w3 \<or> G w4 = add_mset ?s (filter_mset (\<lambda>x. rs_ID x \<noteq> rs_ID ?s) (G w3))"
      using laws(1) wf unfolding attempt_laws_def by blast
    moreover have "services_of (G w) ?c = {#t#}" using f Some findService_registry(1) [OF ms] by simp
    moreover have "serves ?c ?s" by (simp add: serves_def)
    ultimately show ?thesis
      using spares_refl [OF ok(1)] spares_update [OF ok(1) _ _ \<open>rs_ID ?s = rs_ID t\<close>] G by metis
  qed
qed

lemma Delete_spares:
  assumes laws: "attempt_laws valid C G" and ok: "registry_ok (G w)"
    and run: "Delete (cas_backend C m R) reg w = (r, w')"
  shows "spares (reg_Consumer reg) (G w) (G w')"
proof (cases "G w' = G w")
  case True
  then show ?thesis using ok by (simp add: spares_refl)
next
  case False
  have C: "be_client (cas_backend C m R) = C" by (simp add: cas_backend_def)
  have ls: "\<And>l w1. ac_ListServices C w = (l, w1) \<Longrightarrow> G w1 = G w"
    using laws unfolding attempt_laws_def by blast
  with False run obtain services w1 t x where l: "ac_ListServices C w = (Inr services, w1)"
      and f: "findServiceByConsumer (slice services) (reg_Consumer reg) = Inr (Some t)"
      and d: "ac_DeleteService C (rs_ID t) w1 = (x, w')"
    by (auto simp: Delete_def C split: if_splits prod.splits sum.splits option.splits)
  have ms: "mset (slice services) = G w" using laws l unfolding attempt_laws_def by blast
  have "G w' = G w1 \<or> G w' = filter_mset (\<lambda>s. rs_ID s \<noteq> rs_ID t) (G w1)"
    using laws d unfolding attempt_laws_def by blast
  with False ls [OF l] have "G w' = filter_mset (\<lambda>s. rs_ID s \<noteq> rs_ID t) (G w)" by simp
  then show ?thesis using spares_delete [OF ok] f findService_registry(1) [OF ms] by simp
qed

text \<open>One run of the entry point, whatever its result and whatever happened on the way.\<close>

definition named :: "'w kube_view \<Rightarrow> 'w \<Rightarrow> namespacedName \<Rightarrow> string set" where
  "named V w req = (case view_ar V w req of None \<Rightarrow> {} | Some ar \<Rightarrow> {spec_Consumer (ar_Spec ar)})"

lemma FromAuthRegistration_Consumer: "reg_Consumer (FromAuthRegistration ar) = spec_Consumer (ar_Spec ar)"
  by (simp add: FromAuthRegistration_def Let_def)

lemma Reconcile_spares:
  assumes laws: "kube_steady K G" "ar_laws K V" "finalizer_laws K" "attempt_laws valid C G" "config_apart m R G"
    and ok: "registry_ok (G w)" "\<And>ar. view_ar V w req = Some ar \<Longrightarrow> writes_ok valid m (FromAuthRegistration ar) (G w)"
    and run: "Reconcile (operator_controller K (cas_backend C m R)) req w = (r, w')"
  shows "G w' = G w \<or> (\<exists>c\<in>named V w req. spares c (G w) (G w'))"
  using Reconcile_registry [OF laws(1-3) run]
proof (elim disjE exE conjE)
  fix ar u d
  assume ar: "view_ar V w req = Some ar" and u: "G u = G w"
  let ?reg = "FromAuthRegistration ar"
  have nm: "reg_Consumer ?reg \<in> named V w req" using ar by (simp add: named_def FromAuthRegistration_Consumer)
  show ?thesis if "G w' = G (snd (Upsert (cas_backend C m R) ?reg d u))"
    using Upsert_spares [OF laws(4,5), of u ?reg d] ok u ar nm that by (metis prod.collapse)
  show ?thesis if "G w' = G (snd (Delete (cas_backend C m R) ?reg u))"
    using Delete_spares [OF laws(4), of u m R ?reg] ok(1) u nm that by (metis prod.collapse)
qed simp

section \<open>Histories\<close>

text \<open>
  What can have happened since \<open>w0\<close>: runs of the entry point for any objects, one after the
  other, with any result, and in between anything that leaves the registry alone, such as users
  who create, change and delete objects. The set holds the consumers that the objects named at
  the time of their runs.
\<close>

inductive history ::
    "'w kube \<Rightarrow> 'w kube_view \<Rightarrow> 'w CASServiceRegistrationBackend \<Rightarrow> ('w \<Rightarrow> registry) \<Rightarrow> 'w \<Rightarrow> string set \<Rightarrow> 'w \<Rightarrow> bool"
  for K :: "'w kube" and V :: "'w kube_view" and b :: "'w CASServiceRegistrationBackend"
    and G :: "'w \<Rightarrow> registry" and w0 :: 'w
where
  beginning: "history K V b G w0 {} w0"
| reconciled: "history K V b G w0 (named V w req \<union> S) w'"
    if "history K V b G w0 S w" "Reconcile (operator_controller K b) req w = (r, w')"
| outside: "history K V b G w0 S w'"
    if "history K V b G w0 S w" "G w' = G w"

lemma history_invariant:
  assumes laws: "kube_steady K G" "ar_laws K V" "finalizer_laws K" "attempt_laws (\<lambda>s. True) C G" "config_apart m R G"
    and start: "registry_ok (G w0)"
    and h: "history K V (cas_backend C m R) G w0 S w"
  shows "registry_ok (G w) \<and> (\<forall>c. c \<notin> S \<longrightarrow> services_of (G w) c = services_of (G w0) c) \<and>
     (\<forall>c. size (services_of (G w0) c) \<le> 1 \<longrightarrow> size (services_of (G w) c) \<le> 1)"
  using h
proof induction
  case beginning
  then show ?case using start by simp
next
  case (reconciled S w req r w')
  then have "G w' = G w \<or> (\<exists>c\<in>named V w req. spares c (G w) (G w'))"
    using Reconcile_spares [OF laws] by simp
  then show ?case
  proof
    assume "G w' = G w"
    then show ?thesis using reconciled.IH by simp
  next
    assume "\<exists>c\<in>named V w req. spares c (G w) (G w')"
    then obtain c where c: "c \<in> named V w req" "spares c (G w) (G w')" ..
    show ?thesis
    proof (intro conjI allI impI)
      show "registry_ok (G w')" using c(2) by (simp add: spares_def)
      fix c'
      show "services_of (G w') c' = services_of (G w0) c'" if "c' \<notin> named V w req \<union> S"
        using that c reconciled.IH by (auto simp: spares_def)
      show "size (services_of (G w') c') \<le> 1" if "size (services_of (G w0) c') \<le> 1"
        using that c reconciled.IH by (cases "c' = c") (simp_all add: spares_def)
    qed
  qed
next
  case (outside S w w')
  then show ?case by simp
qed

section \<open>The cluster in memory\<close>

lemma mem_kube_steady [simp]: "kube_steady mem_kube mem_registry"
  by (simp add: kube_steady_def mem_defs Let_def split: option.splits)

text \<open>A registry that stores a new service, but whose answer never arrives.\<close>

definition lossy_api :: "cluster apiClient" where
  "lossy_api = mem_api\<lparr>ac_CreateService := (\<lambda>s w.
     case ac_CreateService mem_api s w of (r, w1) \<Rightarrow> (Inl (ExtErr ''Timeout'' ''no answer''), w1))\<rparr>"

lemma mem_attempt_laws [simp]:
  "attempt_laws ok mem_api mem_registry" "attempt_laws ok lossy_api mem_registry"
  unfolding attempt_laws_def
  by (auto simp: lossy_api_def mem_api_def mem_registry_def slice_def Let_def image_iff split: if_splits prod.splits)

text \<open>The first run fails with the service in the registry; the second one finds it and succeeds.\<close>

definition lossy_run :: "cluster \<Rightarrow> go_error option \<times> cluster" where
  "lossy_run = Reconcile (operator_controller mem_kube (cas_backend lossy_api mem_mapper mem_random)) ex_key"

definition ex_before :: cluster where
  "ex_before = ex_cluster (ex_ar ''CAS'') Map.empty [ex_service 2 ''other'']"

lemma ex_lossy:
  "fst (lossy_run ex_before) \<noteq> None" "fst (lossy_run (snd (lossy_run ex_before))) = None"
  by (simp_all add: lossy_run_def ex_before_def lossy_api_def mem_defs ex_defs controller_eval backend_eval
      PatchRegistrationFailed_def serviceId_def Let_def)

lemma ex_before_ok: "registry_ok (mem_registry ex_before)" "services_of (mem_registry ex_before) ''redmine'' = {#}"
  by (simp_all add: ex_before_def ex_cluster_def registry_ok_def mem_registry_def services_of_def serves_def)

lemma lossy_history:
  "history mem_kube mem_view (cas_backend lossy_api mem_mapper mem_random) mem_registry ex_before
     (named mem_view (snd (lossy_run ex_before)) ex_key \<union> (named mem_view ex_before ex_key \<union> {}))
     (snd (lossy_run (snd (lossy_run ex_before))))"
  unfolding lossy_run_def
  by (rule history.reconciled [OF history.reconciled [OF history.beginning prod.collapse [symmetric]]
        prod.collapse [symmetric]])

end
