(* ===== verification/Spec2Isabelle.thy ===== *)
theory Spec2Isabelle imports CasProperties CtrlProperties MainProperties Trace Shutdown History begin

text \<open>
  A verification development of the k8s-auth-registration-operator. The operator watches
  AuthRegistration objects in one namespace of a Kubernetes cluster, registers the service each
  of them describes in the service registry of a CAS server, and publishes the credentials of
  the registration in a Secret that the object names or that the operator generates.

  The parts and how they interact. cmd/main.go reads the configuration (internal/config), makes
  the CAS client and the backend over it (internal/registration/cas), makes the controller over
  the Kubernetes client and the backend (internal/controller) and runs the manager until it ends
  or a signal arrives. For each event the manager calls Reconcile; it stores the finalizer, asks
  the backend to create or update the service, writes the secret, removes the secret used before
  and reports the outcome in the status; for an object that is being deleted it has the backend
  delete the service and then takes the finalizer off. internal/domain holds the types that
  controller and backend share.

  Which theory models what.
  GoPrelude, GoStrings, GoCrypto, GoErrors, GoTime and GoJson are the parts of Go's standard
  library that the code runs through: strings and path, SHA-256, hex and base64, error values and
  wrapping, time.ParseDuration, encoding/json on values and on text. GoErrors holds apiError of
  client.go.
  Domain is internal/domain/registration.go.
  KubeApi is the Kubernetes API as the code sees it: the objects, the client and the helper
  functions of the libraries as one record of functions (kube), and the named laws about them.
  CasTypes is types.go, CasMapper mapper.go, CasClient client.go, CasBackend
  cas_service_registration_backend.go; CasInterfaces holds the two interfaces of the backend and
  the abstract registry, a multiset of services, with the laws of a registry behind the client.
  JsonFuel is about the fuel of the parser of GoJson, JsonText relates it to the printer, ServiceText does so for service records,
  CasServer states what a CAS server that speaks JSON does with the requests of client.go and shows
  that the client over it meets the laws of a registry, and MemServer is such a server in memory.
  CtrlInterfaces holds the interfaces of the controller as records and as locales: a status
  patcher, a secret reconciler, a service backend. StatusPatcher, SecretReconciler, Reconciler and
  Controller are the files of internal/controller, Controller also the deletion predicate.
  OperatorSystem wires them as main.go does, interprets the locales on the code's own definitions
  and proves what follows for a whole run of Reconcile.
  Trace runs Reconcile over logging versions of its interfaces and relates the log to a step
  relation of phases.
  History puts runs of Reconcile one after the other, with calls that fail and answers that get lost,
  and keeps track of what they can do to the registry.
  OperatorFlags is flags.go with the parser of the package flag, OperatorConfig is config.go,
  controller.go and logger.go of internal/config, OperatorMain is main and startManager of main.go,
  and Shutdown its graceful shutdown as a step relation.
  MemCluster is a cluster, registry and configuration in memory: an instance of every argument of
  the model on which all laws hold; the witnesses run on it. CasProperties, CtrlProperties and
  MainProperties state the properties of the parts, this theory those of the whole.

  How state and effects correspond. A function of the code that reads or changes the world is a
  function from its arguments and the world to its results and the world it leaves; the world is
  a type variable. A function that works through a pointer to an object returns the object as it
  leaves it. Errors are values of a sum or an option with the texts of the code, every early
  return is a branch. Identifiers of services and durations are 64-bit words; their decimal text
  is signed. Strings are byte strings. A nil map or slice is None where the code can tell the
  difference.

  What is an argument of the model: the API server and the library functions of controller-runtime
  and apimachinery (kube), the HTTP transport and net/url (netLib), the global configuration, the
  random source, the field index, the manager and the logger (runtime). What the properties need of
  them are named laws: read_laws, secret_write_laws, ar_laws, status_laws, condition_laws, owner_laws,
  index_laws, finalizer_laws of the API server, kube_steady and attempt_laws for calls with
  any outcome, registry_laws of the registry behind the client
  (cas_server is the same in terms of requests, answers and texts, and the client is proved to turn it
  into registry_laws for records of ASCII strings),
  kube_apart and config_apart for worlds that do not share state, all proved for the cluster in
  memory.

  What the lemmas show. Goal, stability and presence of the published credentials, the refinement of
  the registry by Upsert and Delete, and completion and blocking of a deletion; the uniqueness of
  registrations and the isolation of consumers over histories of runs, retries and lost answers; the order of the
  calls of one run (finalizer before registration, registration before any secret, deregistration
  before the finalizer goes, at most one call of the backend); how refused registrations and
  unusable specifications are reported; merging, quiet runs and cleanup of secrets; round trips of
  service records, of published data, of set parameters and of the command line; the exact
  environment that gives a configuration, the timeout and the server options that follow, and that
  a clean exit means a wired and finished operator; safety and progress of the shutdown.

  Bounds and fuel. The parser of JSON text has fuel, twice the length of the text plus two, and
  JsonFuel shows that it is enough for every text: more fuel gives the same result; the models of the
  operator's own loops are structural recursions. parse_durations and the string functions end by
  the length of the text.

  Not modelled: log lines; contexts and cancellation inside a call; the scheme registration of init();
  the predicates GenerationChanged, AnnotationChanged and LabelChanged and the rate limiter of
  controller-runtime beyond the values the code hands over; concurrent reconciliations (controller-runtime
  runs one worker by default; what other clients do to the cluster between two calls is allowed only
  where a law allows it); the form of percent-q quoting for bytes outside ASCII; the floating point
  arithmetic for the digits after the point of a duration (an argument); generated mocks, tests and
  deployment files.
\<close>

section \<open>A whole reconciliation\<close>

text \<open>C1: When the entry point reports success for a stored object that is not being deleted, the
  goal is reached: the stored object carries the finalizer, its status names the secret it
  resolves to and has the conditions CredentialsPublished and Completed true for the generation
  it has, and that secret holds everything the CAS backend published for its registration.\<close>

theorem reconcile_reaches_goal:
  assumes "controller_laws K V" "kube_apart (cas_backend C m R) V"
    and "view_ar V w req = Some ar" "TimeIsZero K (ar_DeletionTimestamp ar)"
    and "Reconcile (operator_controller K (cas_backend C m R)) req w = (None, w')"
  shows "\<exists>n managed w1 rr w2 ar'.
     resolveSecretName ar = Inr (n, managed) \<and>
     Upsert (cas_backend C m R) (FromAuthRegistration ar) (stored_data V w (secret_key ar n)) w1 = (Inr rr, w2) \<and>
     publishes V w' (secret_key ar n) (GetRegistrationData rr) \<and>
     view_ar V w' req = Some ar' \<and> ar_Spec ar' = ar_Spec ar \<and> ar_Generation ar' = ar_Generation ar \<and>
     authRegistrationFinalizer \<in> set (ar_Finalizers ar') \<and> st_ResolvedSecretRef (ar_Status ar') = n \<and>
     has_condition ar' ConditionCredentialsPublished ConditionTrue \<and>
     has_condition ar' ConditionCompleted ConditionTrue"
  using assms by (rule reconciliation)

lemma ex_view [simp]:
  "view_ar mem_view (ex_cluster a ss svs) ex_key = Some a"
  "TimeIsZero mem_kube (ar_DeletionTimestamp (ex_ar p))"
  by (simp_all add: mem_view_def mem_kube_def ex_cluster_def ex_ar_def)

lemma run_result: "fst m = x \<Longrightarrow> m = (x, snd m)"
  by (cases m) simp

lemma reconcile_reaches_goal_witness:
  "\<exists>w' ar'. view_ar mem_view w' ex_key = Some ar' \<and> has_condition ar' ConditionCompleted ConditionTrue"
  using reconcile_reaches_goal [OF _ _ _ _ run_result [OF ex_run_CAS], of mem_view "ex_ar ''CAS''"] by auto

text \<open>C2: A client secret that is published already stays: after a successful run of the entry
  point the secret in use holds the same client secret for the registration's protocol as
  before, whatever the CAS registry and the random source did.\<close>

theorem published_secret_stable:
  assumes "controller_laws K V" "kube_apart (cas_backend C m R) V"
    and "view_ar V w req = Some ar" "TimeIsZero K (ar_DeletionTimestamp ar)"
    and "Reconcile (operator_controller K (cas_backend C m R)) req w = (None, w')"
    and "resolveSecretName ar = Inr (n, managed)"
    and "published_secret V w (secret_key ar n) (spec_Protocol (ar_Spec ar)) \<noteq> []"
  shows "published_secret V w' (secret_key ar n) (spec_Protocol (ar_Spec ar)) =
         published_secret V w (secret_key ar n) (spec_Protocol (ar_Spec ar))"
proof -
  from reconciliation [OF assms(1-5)] assms(6) obtain w1 rr w2 where
    u: "Upsert (cas_backend C m R) (FromAuthRegistration ar) (stored_data V w (secret_key ar n)) w1 = (Inr rr, w2)"
    and p: "publishes V w' (secret_key ar n) (GetRegistrationData rr)" by auto
  have "result_secret rr = Some (published_secret V w (secret_key ar n) (spec_Protocol (ar_Spec ar)))"
    using sm.upsert_keeps_secret [OF u] assms(7) by (simp add: published_secret_def)
  moreover have "rr_Protocol rr = spec_Protocol (ar_Spec ar)" using sm.upsert_result_protocol [OF u] by simp
  ultimately show ?thesis
    using published_secret_result [OF p] by (simp add: published_secret_def ClientSecret_trimmed)
qed

lemma ex_published: "published_secret mem_view (ex_cluster a [ex_secret_key \<mapsto> ex_secret] svs) ex_secret_key ''OIDC'' = ''s3cret''"
  by (simp add: published_secret_def ClientSecret_def stored_data_def mem_view_def ex_defs protocol_defs map_get_def)

lemma published_secret_stable_witness:
  "published_secret mem_view
     (snd (Reconcile (operator_controller mem_kube (cas_backend mem_api mem_mapper mem_random)) ex_key
        (ex_cluster (ex_ar ''OIDC'') [ex_secret_key \<mapsto> ex_secret] []))) ex_secret_key ''OIDC'' = ''s3cret''"
  using published_secret_stable [OF _ _ _ _ run_result [OF ex_run_OIDC], of mem_view "ex_ar ''OIDC''"]
  by (simp add: ex_resolves ex_published)

text \<open>C9: The plain run of the entry point is the run over the logged interfaces: same result, same
  world; and its calls to the API server and the backend, in order, are a walk through the
  phases of a reconciliation.\<close>

theorem reconcile_follows_phases:
  "\<exists>e w' tr p. Reconcile (parts_controller (logged_kube K) (logged_backend B)) req (w, []) = (e, (w', tr)) \<and>
     Reconcile (parts_controller K B) req w = (e, w') \<and> steps K Idle tr p"
  by (rule Reconcile_logged)

text \<open>C7: The backend is asked to register a service only after an answer of the API server has
  shown that the object is stored with the operator's finalizer.\<close>

theorem upsert_only_guarded:
  assumes "finalizer_laws K"
  shows "only_after upserts stores_finalizer (call_log K B req w)"
  using assms by (rule call_log_orders(1))

lemma upsert_only_guarded_witness:
  "only_after upserts stores_finalizer (call_log mem_kube (backend_interface mem_backend) ex_key
     (ex_cluster (ex_ar ''CAS'') Map.empty []))"
  by (rule upsert_only_guarded) (rule mem_ar_laws)

text \<open>C6: The finalizer is taken off an object only after the backend has deregistered its service
  without an error.\<close>

theorem finalizer_kept_until_deregistered:
  assumes "finalizer_laws K"
  shows "only_after drops_finalizer deregistered (call_log K B req w)"
  using assms by (rule call_log_orders(2))

lemma finalizer_kept_until_deregistered_witness:
  "only_after drops_finalizer deregistered (call_log mem_kube (backend_interface mem_backend) ex_key
     (ex_cluster (ex_ar ''CAS'') Map.empty []))"
  by (rule finalizer_kept_until_deregistered) (rule mem_ar_laws)

text \<open>C8: No secret is created, changed or deleted before the backend has answered with the
  registration's result.\<close>

theorem secrets_only_after_registration:
  assumes "finalizer_laws K"
  shows "only_after writes_secret upserted (call_log K B req w)"
  using assms by (rule call_log_orders(3))

lemma secrets_only_after_registration_witness:
  "only_after writes_secret upserted (call_log mem_kube (backend_interface mem_backend) ex_key
     (ex_cluster (ex_ar ''CAS'') Map.empty []))"
  by (rule secrets_only_after_registration) (rule mem_ar_laws)

text \<open>C31: One run of the entry point calls the backend at most once, for a registration or a
  deregistration, never both.\<close>

theorem one_backend_call:
  "length (filter upserts (call_log K B req w)) + length (filter deregisters (call_log K B req w)) \<le> 1"
  by (rule call_log_backend)

text \<open>C16: After a successful run for a protocol with a client secret the secret in use holds one that
  is not blank, whether it was there before or had to be generated.\<close>

theorem published_secret_present:
  assumes "controller_laws K V" "kube_apart (cas_backend C m R) V"
    and "view_ar V w req = Some ar" "TimeIsZero K (ar_DeletionTimestamp ar)"
    and "Reconcile (operator_controller K (cas_backend C m R)) req w = (None, w')"
    and "resolveSecretName ar = Inr (n, managed)"
    and "spec_Protocol (ar_Spec ar) \<in> {ProtocolOIDC, ProtocolOAuth}"
    and "\<And>v bs v'. R 32 v = (Inr bs, v') \<Longrightarrow> length bs = 32"
  shows "published_secret V w' (secret_key ar n) (spec_Protocol (ar_Spec ar)) \<noteq> []"
proof -
  from reconciliation [OF assms(1-5)] assms(6) obtain w1 rr w2 where
    u: "Upsert (cas_backend C m R) (FromAuthRegistration ar) (stored_data V w (secret_key ar n)) w1 = (Inr rr, w2)"
    and p: "publishes V w' (secret_key ar n) (GetRegistrationData rr)" by auto
  have R: "be_randomRead (cas_backend C m R) = R" by (simp add: cas_backend_def)
  have "reg_Protocol (FromAuthRegistration ar) \<in> {ProtocolOIDC, ProtocolOAuth}" using assms(7) by simp
  from sm.upsert_secret_present [OF u cas_backend_mapper this, unfolded R] assms(8)
  obtain sec where "result_secret rr = Some sec" "TrimSpace sec \<noteq> []" by blast
  with published_secret_result [OF p] sm.upsert_result_protocol [OF u] show ?thesis by simp
qed

lemma published_secret_present_witness:
  "published_secret mem_view
     (snd (Reconcile (operator_controller mem_kube (cas_backend mem_api mem_mapper mem_random)) ex_key
        (ex_cluster (ex_ar ''OIDC'') Map.empty []))) ex_secret_key ''OIDC'' \<noteq> []"
  using published_secret_present [OF _ _ _ _ run_result [OF ex_run_new_OIDC], of mem_view "ex_ar ''OIDC''"]
  by (simp add: ex_resolves protocol_defs mem_random_def)

section \<open>Deletion\<close>

text \<open>C5: When the entry point reports success for an object that is being deleted, the consumer has
  no service left in the CAS registry, every other consumer has the services it had, and the
  object has lost the operator's finalizer; it is gone when that was the last one.\<close>

theorem deletion_complete:
  assumes "ar_laws K V" "finalizer_laws K" "registry_laws valid C G" "kube_keeps K G" "registry_ok (G w)"
    and "view_ar V w req = Some ar" "\<not> TimeIsZero K (ar_DeletionTimestamp ar)"
      "ar_DeletionTimestamp ar \<noteq> None" "authRegistrationFinalizer \<in> set (ar_Finalizers ar)"
    and "Reconcile (operator_controller K (cas_backend C m R)) req w = (None, w')"
  shows "services_of (G w') (spec_Consumer (ar_Spec ar)) = {#} \<and>
     (c \<noteq> spec_Consumer (ar_Spec ar) \<longrightarrow> services_of (G w') c = services_of (G w) c) \<and>
     (\<forall>ar'. view_ar V w' req = Some ar' \<longrightarrow> authRegistrationFinalizer \<notin> set (ar_Finalizers ar')) \<and>
     (ar_Finalizers ar = [authRegistrationFinalizer] \<longrightarrow> view_ar V w' req = None)"
  using assms by (rule Reconcile_deletion_done)

lemma ex_deleted_facts:
  "\<not> TimeIsZero mem_kube (ar_DeletionTimestamp (ex_deleted c))" "ar_DeletionTimestamp (ex_deleted c) \<noteq> None"
  "ar_Finalizers (ex_deleted c) = [authRegistrationFinalizer]" "spec_Consumer (ar_Spec (ex_deleted c)) = c"
  by (simp_all add: mem_kube_def ex_deleted_def)

lemma deletion_complete_witness:
  "view_ar mem_view (snd (Reconcile (operator_controller mem_kube (cas_backend mem_api mem_mapper mem_random)) ex_key
     (ex_cluster (ex_deleted ''redmine'') Map.empty [ex_service 1 ''redmine'', ex_service 2 ''other'']))) ex_key = None"
  using deletion_complete [OF mem_ar_laws mem_registry_laws mem_registry_keeps _ _ _ _ _ run_result [OF ex_run_deletion],
      of "ex_deleted ''redmine''"]
  by (simp add: ex_deleted_facts)

text \<open>C18: While the backend cannot deregister the service, the run reports an error and the stored
  objects stay as they are: the object keeps its finalizer.\<close>

theorem deletion_blocked:
  assumes "ar_laws K V" "finalizer_laws K" "kube_apart (cas_backend C m R) V"
    and "view_ar V w req = Some ar" "\<not> TimeIsZero K (ar_DeletionTimestamp ar)"
      "authRegistrationFinalizer \<in> set (ar_Finalizers ar)"
    and "fst (Delete (cas_backend C m R) (FromAuthRegistration ar) (snd (GetAuthRegistration K req w))) \<noteq> None"
  shows "fst (Reconcile (operator_controller K (cas_backend C m R)) req w) \<noteq> None \<and>
     view_ar V (snd (Reconcile (operator_controller K (cas_backend C m R)) req w)) = view_ar V w \<and>
     view_secret V (snd (Reconcile (operator_controller K (cas_backend C m R)) req w)) = view_secret V w"
  using assms by (rule Reconcile_deletion_blocked)

lemma ex_delete_blank: "fst (Delete b (FromAuthRegistration (ex_deleted [])) w) \<noteq> None"
  by (simp add: Delete_def FromAuthRegistration_def ex_deleted_def Let_def)

lemma deletion_blocked_witness:
  "fst (Reconcile (operator_controller mem_kube (cas_backend mem_api mem_mapper mem_random)) ex_key
     (ex_cluster (ex_deleted []) Map.empty [])) \<noteq> None"
  using deletion_blocked [OF mem_ar_laws mem_kube_apart _ _ _ ex_delete_blank,
      of "ex_cluster (ex_deleted []) Map.empty []" ex_key] by (simp add: ex_deleted_facts)

text \<open>C19: A registration with a blank consumer is never released: no run deregisters it, each one
  fails and leaves the stored objects, finalizer included, as they are.\<close>

theorem blank_consumer_never_released:
  assumes "ar_laws K V" "finalizer_laws K" "kube_apart (cas_backend C m R) V"
    and "view_ar V w req = Some ar" "\<not> TimeIsZero K (ar_DeletionTimestamp ar)"
      "authRegistrationFinalizer \<in> set (ar_Finalizers ar)"
    and "TrimSpace (spec_Consumer (ar_Spec ar)) = []"
  shows "fst (Reconcile (operator_controller K (cas_backend C m R)) req w) \<noteq> None \<and>
     view_ar V (snd (Reconcile (operator_controller K (cas_backend C m R)) req w)) req = Some ar"
proof -
  have "fst (Delete (cas_backend C m R) (FromAuthRegistration ar) v) \<noteq> None" for v
    using assms(7) by (simp add: Delete_def)
  from Reconcile_deletion_blocked [OF assms(1-6) this] assms(4) show ?thesis by simp
qed

lemma blank_consumer_never_released_witness:
  "view_ar mem_view (snd (Reconcile (operator_controller mem_kube (cas_backend mem_api mem_mapper mem_random)) ex_key
     (ex_cluster (ex_deleted []) Map.empty []))) ex_key = Some (ex_deleted [])"
  using blank_consumer_never_released [OF mem_ar_laws mem_kube_apart, of "ex_cluster (ex_deleted []) Map.empty []" ex_key]
  by (simp add: ex_deleted_facts)

section \<open>Histories\<close>

text \<open>C12: No history of runs registers a consumer twice: when every consumer has at most one service
  and ids are distinct at the beginning, this is so after any number of runs for any objects,
  also when calls failed half way, answers were lost and runs were retried.\<close>

theorem registrations_stay_unique:
  assumes "kube_steady K G" "ar_laws K V" "finalizer_laws K" "attempt_laws (\<lambda>s. True) C G" "config_apart m R G"
    and "registry_ok (G w0)" "size (services_of (G w0) c) \<le> 1"
    and "history K V (cas_backend C m R) G w0 S w"
  shows "registry_ok (G w) \<and> size (services_of (G w) c) \<le> 1"
  using history_invariant [OF assms(1-6,8)] assms(7) by simp

lemma registrations_stay_unique_witness:
  "size (services_of (mem_registry (snd (lossy_run (snd (lossy_run ex_before))))) ''redmine'') \<le> 1"
  using registrations_stay_unique [OF mem_kube_steady mem_ar_laws mem_attempt_laws(2) mem_registry_apart ex_before_ok(1) _
      lossy_history, of "''redmine''"]
  by (simp add: ex_before_ok)

text \<open>C13: The services of a consumer that no object named at the time of its run are left alone by every
  history of runs, whatever their results. So a service also stays for ever when its object
  is given another consumer: neither later runs nor the deletion of the object reach it.\<close>

theorem unnamed_consumers_untouched:
  assumes "kube_steady K G" "ar_laws K V" "finalizer_laws K" "attempt_laws (\<lambda>s. True) C G" "config_apart m R G"
    and "registry_ok (G w0)" "history K V (cas_backend C m R) G w0 S w" "c \<notin> S"
  shows "services_of (G w) c = services_of (G w0) c"
  using history_invariant [OF assms(1-7)] assms(8) by blast

lemma renamed_history:
  "history mem_kube mem_view (cas_backend mem_api mem_mapper mem_random) mem_registry
     (ex_cluster (ex_deleted ''wiki'') Map.empty [ex_service 1 ''redmine'', ex_service 2 ''wiki'']) {''wiki''}
     (snd (Reconcile (operator_controller mem_kube (cas_backend mem_api mem_mapper mem_random)) ex_key
        (ex_cluster (ex_deleted ''wiki'') Map.empty [ex_service 1 ''redmine'', ex_service 2 ''wiki''])))"
proof -
  let ?w = "ex_cluster (ex_deleted ''wiki'') Map.empty [ex_service 1 ''redmine'', ex_service 2 ''wiki'']"
  have "named mem_view ?w ex_key \<union> {} = {''wiki''}" by (simp add: named_def ex_deleted_facts)
  with history.reconciled [OF history.beginning prod.collapse [symmetric], of mem_kube mem_view
      "cas_backend mem_api mem_mapper mem_random" mem_registry ?w ex_key]
  show ?thesis by metis
qed

lemma unnamed_consumers_untouched_witness:
  "services_of (mem_registry
     (snd (Reconcile (operator_controller mem_kube (cas_backend mem_api mem_mapper mem_random)) ex_key
        (ex_cluster (ex_deleted ''wiki'') Map.empty [ex_service 1 ''redmine'', ex_service 2 ''wiki''])))) ''redmine'' =
   services_of (mem_registry (ex_cluster (ex_deleted ''wiki'') Map.empty [ex_service 1 ''redmine'', ex_service 2 ''wiki''])) ''redmine''"
  by (rule unnamed_consumers_untouched [OF mem_kube_steady mem_ar_laws mem_attempt_laws(1) mem_registry_apart _ renamed_history])
     simp_all

section \<open>Failures\<close>

text \<open>C21: A specification without a usable secret name is reported and nothing else happens: the
  backend is not called, no secret is touched, and when the status patches go through the
  stored object has a cleared secret reference and both conditions false for its generation.\<close>

theorem invalid_spec_reported:
  assumes "operator_laws K V" "view_ar V w (ar_key ar) = Some ar" "resolveSecretName ar = Inl err"
    and "PatchInvalidSpec K ar err w = ((None, ar'), w')"
  shows "handleReconcile (operator_reconciler K b) ar w =
       ((Some (Wrapf ''failed to resolve secret reference: '' err), ar'), w') \<and>
     view_ar V w' (ar_key ar) = Some ar' \<and> view_secret V w' = view_secret V w \<and>
      st_ResolvedSecretRef (ar_Status ar') = [] \<and>
      has_condition ar' ConditionCredentialsPublished ConditionFalse \<and>
      has_condition ar' ConditionCompleted ConditionFalse"
proof -
  have "sp_PatchInvalidSpec (authRegistrationStatusPatcher K) = PatchInvalidSpec K"
    by (simp add: authRegistrationStatusPatcher_def)
  then have "handleReconcile (operator_reconciler K b) ar w =
      ((Some (Wrapf ''failed to resolve secret reference: '' err), ar'), w')"
    using assms(3,4) by (simp add: handleReconcile_def)
  moreover have "synced_with K V ar w" using assms(1,2) by (simp add: operator_laws_D(4))
  note p = PatchInvalidSpec_ok [OF this assms(4)]
  ultimately show ?thesis
    using p same_object_key [OF p(3)] by (simp add: synced_with_def)
qed

lemma invalid_spec_reported_witness:
  "\<exists>ar' w'. view_ar mem_view w' ex_key = Some ar' \<and> has_condition ar' ConditionCompleted ConditionFalse \<and>
     handleReconcile (operator_reconciler mem_kube mem_backend) ex_blank (ex_cluster ex_blank Map.empty []) =
       ((Some (Wrapf ''failed to resolve secret reference: '' (Errorf ''spec.secretRef must not be empty'')), ar'), w')"
proof -
  obtain ar' w' where "PatchInvalidSpec mem_kube ex_blank (Errorf ''spec.secretRef must not be empty'')
      (ex_cluster ex_blank Map.empty []) = ((None, ar'), w')"
    using ex_blank_patch by (metis prod.collapse)
  from invalid_spec_reported [OF mem_laws(2) _ ex_blank_facts(1) this, of mem_backend]
  show ?thesis by (auto simp: ex_blank_facts)
qed

text \<open>C20: A registration that the backend refuses is reported in the status: the run returns the
  wrapped error, the stored object gets the condition Completed false for its generation and
  keeps its secret reference, and no secret is touched.\<close>

theorem refused_registration_reported:
  assumes "operator_laws K V" "kube_apart b V" "view_ar V w (ar_key ar) = Some ar"
    and "resolveSecretName ar = Inr (n, managed)"
    and "readRegistrationData (operator_reconciler K b) (ar_Namespace ar) n w = (Inr d, w1)"
    and "Upsert b (FromAuthRegistration ar) d w1 = (Inl err, w2)"
    and "PatchRegistrationFailed K ar err w2 = ((None, ar'), w')"
  shows "handleReconcile (operator_reconciler K b) ar w =
       ((Some (Wrapf ''failed to upsert service-registration: '' err), ar'), w') \<and>
     view_ar V w' (ar_key ar) = Some ar' \<and> view_secret V w' = view_secret V w \<and>
     has_condition ar' ConditionCompleted ConditionFalse \<and>
     st_ResolvedSecretRef (ar_Status ar') = st_ResolvedSecretRef (ar_Status ar)"
  using handleReconcile_refused [OF assms] by blast

lemma refused_registration_reported_witness:
  "\<exists>ar' w'. has_condition ar' ConditionCompleted ConditionFalse \<and>
     handleReconcile (operator_reconciler mem_kube (cas_backend mem_api mem_mapper mem_random)) (ex_ar ''SAML'')
       (ex_cluster (ex_ar ''SAML'') Map.empty []) =
       ((Some (Wrapf ''failed to upsert service-registration: ''
           (Errorf (''unsupported protocol '' @ quote ''SAML''))), ar'), w')"
proof -
  let ?w = "ex_cluster (ex_ar ''SAML'') Map.empty []"
  obtain ar' w' where "PatchRegistrationFailed mem_kube (ex_ar ''SAML'')
      (Errorf (''unsupported protocol '' @ quote ''SAML'')) ?w = ((None, ar'), w')"
    using ex_saml_patch by (metis prod.collapse)
  from refused_registration_reported [OF mem_laws(2) mem_kube_apart _ ex_resolves(2) ex_saml_read ex_saml_upsert this]
  show ?thesis by (auto simp: ex_resolves)
qed



end
